(* ===== verification/Go_Prelude.thy ===== *)
theory Go_Prelude
  imports Main "HOL-Library.Char_ord" "HOL-Library.List_Lexorder" "HOL-Library.Sublist"
begin

text \<open>
  What every component of the plugin uses of Go itself: strings as byte lists and the
  functions of package \<open>strings\<close> the sources call, error values with the wrapping that
  \<open>errors.Is\<close> looks through, and signed 64-bit arithmetic with its wrap-around.

  Go compares strings byte by byte, which is the lexicographic order of
  \<open>HOL-Library.List_Lexorder\<close> over \<open>HOL-Library.Char_ord\<close>. A \<open>sort.Strings\<close> is
  therefore the library's \<open>sort\<close>.
\<close>

named_theorems go_str \<open>rewriting with package strings\<close>
named_theorems go_map \<open>rewriting with Go maps\<close>

type_synonym bytes = string

section \<open>Package strings\<close>

subsection \<open>Prefixes, suffixes and cutting\<close>

definition HasPrefix :: "string \<Rightarrow> string \<Rightarrow> bool" where
  "HasPrefix s p = prefix p s"

definition HasSuffix :: "string \<Rightarrow> string \<Rightarrow> bool" where
  "HasSuffix s p = suffix p s"

definition CutPrefix :: "string \<Rightarrow> string \<Rightarrow> string option" where
  "CutPrefix s p = (if prefix p s then Some (drop (length p) s) else None)"

definition TrimSuffix :: "string \<Rightarrow> string \<Rightarrow> string" where
  "TrimSuffix s p = (if suffix p s then take (length s - length p) s else s)"

text \<open>\<open>strings.Cut\<close>: the text around the first occurrence of a separator.\<close>

fun Cut :: "string \<Rightarrow> string \<Rightarrow> (string \<times> string) option" where
  "Cut [] sep = (if sep = [] then Some ([], []) else None)"
| "Cut (c # s) sep =
     (if prefix sep (c # s) then Some ([], drop (length sep) (c # s))
      else map_option (\<lambda>(a, b). (c # a, b)) (Cut s sep))"

text \<open>\<open>strings.Trim\<close> with a cutset of one character.\<close>

definition Trim :: "string \<Rightarrow> char \<Rightarrow> string" where
  "Trim s c = rev (dropWhile (\<lambda>x. x = c) (rev (dropWhile (\<lambda>x. x = c) s)))"

definition lower_char :: "char \<Rightarrow> char" where
  "lower_char c = (if CHR ''A'' \<le> c \<and> c \<le> CHR ''Z'' then char_of (of_char c + 32 :: nat) else c)"

definition upper_char :: "char \<Rightarrow> char" where
  "upper_char c = (if CHR ''a'' \<le> c \<and> c \<le> CHR ''z'' then char_of (of_char c - 32 :: nat) else c)"

definition ToLower :: "string \<Rightarrow> string" where
  "ToLower s = map lower_char s"

definition ToUpper :: "string \<Rightarrow> string" where
  "ToUpper s = map upper_char s"

subsection \<open>Splitting and joining\<close>

fun split_on :: "char \<Rightarrow> string \<Rightarrow> string list" where
  "split_on c [] = [[]]"
| "split_on c (x # xs) =
     (if x = c then [] # split_on c xs
      else (case split_on c xs of [] \<Rightarrow> [[x]] | y # ys \<Rightarrow> (x # y) # ys))"

fun Join :: "string list \<Rightarrow> string \<Rightarrow> string" where
  "Join [] sep = []"
| "Join [x] sep = x"
| "Join (x # y # ys) sep = x @ sep @ Join (y # ys) sep"

lemma split_on_nonempty [simp]: "split_on c s \<noteq> []"
  by (induction s) (auto split: list.splits)

lemma Join_Cons: "ys \<noteq> [] \<Longrightarrow> Join (x # ys) sep = x @ sep @ Join ys sep"
  by (cases ys) auto

lemma Join_append:
  "xs \<noteq> [] \<Longrightarrow> ys \<noteq> [] \<Longrightarrow> Join (xs @ ys) sep = Join xs sep @ sep @ Join ys sep"
proof (induction xs)
  case (Cons x xs)
  then show ?case by (cases "xs = []") (simp_all add: Join_Cons)
qed simp

lemma Join_split_on [go_str]: "Join (split_on c s) [c] = s"
proof (induction s)
  case (Cons x s)
  obtain y ys where y: "split_on c s = y # ys" by (cases "split_on c s") auto
  with Cons show ?case by (cases ys) auto
qed simp

lemma split_on_no_sep: "c \<notin> set s \<Longrightarrow> split_on c s = [s]"
  by (induction s) auto

lemma split_on_append:
  "c \<notin> set x \<Longrightarrow> split_on c (x @ c # s) = x # split_on c s"
  by (induction x) auto

lemma split_on_Join [go_str]:
  assumes "xs \<noteq> []" and "\<And>x. x \<in> set xs \<Longrightarrow> c \<notin> set x"
  shows "split_on c (Join xs [c]) = xs"
  using assms
proof (induction xs "[c]" rule: Join.induct)
  case (3 x y ys)
  then show ?case by (simp add: split_on_append)
qed (auto simp: split_on_no_sep)

lemma split_on_parts: "x \<in> set (split_on c s) \<Longrightarrow> c \<notin> set x"
  by (induction s arbitrary: x) (fastforce split: if_splits list.splits)+

subsection \<open>Facts about cutting\<close>

lemma CutPrefix_eq_Some [go_str]: "CutPrefix s p = Some r \<longleftrightarrow> s = p @ r"
  by (auto simp: CutPrefix_def prefix_def)

lemma CutPrefix_append [simp]: "CutPrefix (p @ r) p = Some r"
  by (simp add: go_str)

lemma HasPrefix_iff [go_str]: "HasPrefix s p \<longleftrightarrow> (\<exists>r. s = p @ r)"
  by (auto simp: HasPrefix_def prefix_def)

lemma HasPrefix_append [simp]: "HasPrefix (p @ r) p"
  by (simp add: HasPrefix_def)

lemma Cut_char_Some:
  "Cut s [c] = Some (a, b) \<Longrightarrow> s = a @ c # b \<and> c \<notin> set a"
  by (induction s arbitrary: a b) (auto split: if_splits)

lemma Cut_char_append: "c \<notin> set a \<Longrightarrow> Cut (a @ c # b) [c] = Some (a, b)"
  by (induction a) auto

lemma Cut_char_None: "c \<notin> set s \<Longrightarrow> Cut s [c] = None"
  by (induction s) auto

text \<open>A joined path starts with a joined proper prefix of its segments, followed by a dot.\<close>

lemma HasPrefix_Join:
  assumes "xs \<noteq> []" "ys \<noteq> []"
  shows "HasPrefix (Join (xs @ ys) [c]) (Join xs [c] @ [c])"
  using assms by (simp add: Join_append HasPrefix_def)

section \<open>Errors\<close>

text \<open>
  Go errors are values. \<open>Sentinel\<close> is one of the package-level error values the code tests
  for; \<open>Errorf\<close> is a \<open>fmt.Errorf\<close> with its leading text and arguments; \<open>Wrapped\<close> is one
  with a \<open>%w\<close> operand, through which \<open>errors.Is\<close> and \<open>errors.As\<close> look; \<open>Typed\<close> is a value of an
  error type the code asks for with \<open>errors.As\<close>, around another error.
\<close>

datatype sentinel = ErrNotFound | ErrBucketNotFound | KubeNotFound | KubeNoMatch
  | ObjectStoreCRDAbsent

datatype error = Sentinel sentinel
  | Errorf string "string list"
  | Wrapped string "string list" error
  | Typed sentinel error

primrec errors_Is :: "error \<Rightarrow> sentinel \<Rightarrow> bool" where
  "errors_Is (Sentinel s) t = (s = t)"
| "errors_Is (Errorf m a) t = False"
| "errors_Is (Wrapped m a e) t = errors_Is e t"
| "errors_Is (Typed s e) t = (s = t \<or> errors_Is e t)"

text \<open>The text of an error: its message and arguments, then what it wraps.\<close>

primrec Error :: "error \<Rightarrow> string" where
  "Error (Sentinel s) = (case s of
      ErrNotFound \<Rightarrow> ''object not found'' | ErrBucketNotFound \<Rightarrow> ''bucket not found''
    | KubeNotFound \<Rightarrow> ''not found'' | KubeNoMatch \<Rightarrow> ''no matches for kind''
    | ObjectStoreCRDAbsent \<Rightarrow> ''ObjectStore CRD is not installed'')"
| "Error (Errorf m a) = Join (m # a) '' ''"
| "Error (Wrapped m a e) = Join (m # a) '' '' @ '': '' @ Error e"
| "Error (Typed s e) = Error e"

text \<open>\<open>if err != nil \{ return ..., fmt.Errorf(..., err) \}\<close> as one combinator.\<close>

definition wrap :: "string \<Rightarrow> string list \<Rightarrow> error + 'a \<Rightarrow> error + 'a" where
  "wrap m a r = (case r of Inl e \<Rightarrow> Inl (Wrapped m a e) | Inr x \<Rightarrow> Inr x)"

lemma wrap_simps [simp]:
  "wrap m a (Inl e) = Inl (Wrapped m a e)" "wrap m a (Inr x) = Inr x"
  by (simp_all add: wrap_def)

lemma wrap_Inr_iff [simp]: "wrap m a r = Inr x \<longleftrightarrow> r = Inr x"
  by (simp add: wrap_def split: sum.splits)

section \<open>Signed 64-bit integers\<close>

text \<open>Go's \<open>int64\<close> arithmetic keeps the low 64 bits, read as two's complement.\<close>

definition int64 :: "int \<Rightarrow> int" where
  "int64 x = (x + 2 ^ 63) mod 2 ^ 64 - 2 ^ 63"

definition is_int64 :: "int \<Rightarrow> bool" where
  "is_int64 x \<longleftrightarrow> - (2 ^ 63) \<le> x \<and> x < 2 ^ 63"

lemma int64_id [simp]: "is_int64 x \<Longrightarrow> int64 x = x"
  by (simp add: int64_def is_int64_def)

lemma is_int64_int64: "is_int64 (int64 x)"
  by (simp add: int64_def is_int64_def)

text \<open>Wrapping may be left to the end of a computation.\<close>

lemma int64_mod: "int64 x mod 2 ^ 64 = x mod 2 ^ 64"
  by (simp add: int64_def mod_diff_left_eq)

lemma int64_cong: "x mod 2 ^ 64 = y mod 2 ^ 64 \<Longrightarrow> int64 x = int64 y"
  unfolding int64_def by (metis mod_add_left_eq)

lemma int64_mult: "int64 (int64 a * b) = int64 (a * b)"
  by (rule int64_cong) (metis int64_mod mod_mult_left_eq)

lemma int64_wrapped: "2 ^ 63 \<le> x \<Longrightarrow> x < 2 ^ 64 \<Longrightarrow> int64 x = x - 2 ^ 64"
  by (rule trans [OF int64_cong [of x "x - 2 ^ 64"]]) (auto simp: is_int64_def)

text \<open>Go's integer division truncates towards zero.\<close>

definition go_div :: "int \<Rightarrow> int \<Rightarrow> int" where
  "go_div a b = sgn a * sgn b * (\<bar>a\<bar> div \<bar>b\<bar>)"

end
