(* ===== verification/Go_Maps.thy ===== *)
theory Go_Maps
  imports Go_Prelude
begin

text \<open>
  Go's built-in \<open>map[K]V\<close>. A map is represented by its association list sorted by key
  without duplicates (\<open>gmap_ok\<close>), so that equal maps are equal values and a map ranges in
  key order. Go leaves the order of \<open>range\<close> open; where a result could depend on it, the
  component using it states so. A nil map and an empty one are both \<open>[]\<close>: reading either
  gives the same answers, and the code tests \<open>len(m) == 0\<close>.

  The laws every client uses are the locale \<open>go_map_laws\<close>; the interpretation \<open>gm\<close> proves
  them for the representation.
\<close>

type_synonym ('k, 'v) gmap = "('k \<times> 'v) list"

section \<open>Operations\<close>

definition gmap_ok :: "('k :: linorder, 'v) gmap \<Rightarrow> bool" where
  "gmap_ok m = sorted_wrt (<) (map fst m)"

definition gmap_get :: "('k, 'v) gmap \<Rightarrow> 'k \<Rightarrow> 'v option" where
  "gmap_get m k = map_of m k"

fun gmap_set :: "('k :: linorder, 'v) gmap \<Rightarrow> 'k \<Rightarrow> 'v \<Rightarrow> ('k, 'v) gmap" where
  "gmap_set [] k v = [(k, v)]"
| "gmap_set ((a, b) # m) k v =
     (if k < a then (k, v) # (a, b) # m
      else if k = a then (k, v) # m
      else (a, b) # gmap_set m k v)"

definition gmap_delete :: "('k, 'v) gmap \<Rightarrow> 'k \<Rightarrow> ('k, 'v) gmap" where
  "gmap_delete m k = filter (\<lambda>e. fst e \<noteq> k) m"

text \<open>A Go map literal, or the entries a decoder met, later ones winning.\<close>

definition gmap_of :: "('k :: linorder \<times> 'v) list \<Rightarrow> ('k, 'v) gmap" where
  "gmap_of es = fold (\<lambda>(k, v) m. gmap_set m k v) es []"

section \<open>The contract\<close>

locale go_map_laws =
  fixes get :: "'m \<Rightarrow> 'k \<Rightarrow> 'v option"
    and put :: "'m \<Rightarrow> 'k \<Rightarrow> 'v \<Rightarrow> 'm"
    and del :: "'m \<Rightarrow> 'k \<Rightarrow> 'm"
    and empty :: 'm
    and ok :: "'m \<Rightarrow> bool"
  assumes get_empty: "get empty k = None"
    and ok_empty: "ok empty"
    and get_put: "get (put m k v) j = (if j = k then Some v else get m j)"
    and ok_put: "ok m \<Longrightarrow> ok (put m k v)"
    and get_del: "get (del m k) j = (if j = k then None else get m j)"
    and ok_del: "ok m \<Longrightarrow> ok (del m k)"
    and extensional: "ok m \<Longrightarrow> ok n \<Longrightarrow> (\<And>k. get m k = get n k) \<Longrightarrow> m = n"
begin

lemma put_same: "ok m \<Longrightarrow> get m k = Some v \<Longrightarrow> put m k v = m"
  by (rule extensional) (auto simp: get_put ok_put)

lemma put_put: "ok m \<Longrightarrow> put (put m k v) k w = put m k w"
  by (rule extensional) (auto simp: get_put ok_put)

lemma put_comm: "ok m \<Longrightarrow> j \<noteq> k \<Longrightarrow> put (put m k v) j w = put (put m j w) k v"
  by (rule extensional) (auto simp: get_put ok_put)

lemma del_absent: "ok m \<Longrightarrow> get m k = None \<Longrightarrow> del m k = m"
  by (rule extensional) (auto simp: get_del ok_del)

lemma del_put: "ok m \<Longrightarrow> get m k = None \<Longrightarrow> del (put m k v) k = m"
  by (rule extensional) (auto simp: get_del get_put ok_del ok_put)

end

section \<open>The representation meets it\<close>

lemma gmap_ok_Nil [simp]: "gmap_ok []"
  by (simp add: gmap_ok_def)

lemma gmap_ok_Cons: "gmap_ok ((k, v) # m) \<longleftrightarrow> (\<forall>e \<in> set m. k < fst e) \<and> gmap_ok m"
  by (auto simp: gmap_ok_def)

lemma gmap_get_Nil [simp]: "gmap_get [] k = None"
  by (simp add: gmap_get_def)

lemma gmap_get_Cons [simp]: "gmap_get ((a, b) # m) k = (if k = a then Some b else gmap_get m k)"
  by (simp add: gmap_get_def)

lemma gmap_get_set [go_map]: "gmap_get (gmap_set m k v) j = (if j = k then Some v else gmap_get m j)"
  by (induction m k v rule: gmap_set.induct) auto

lemma set_gmap_set: "set (gmap_set m k v) \<subseteq> insert (k, v) (set m)"
  by (induction m k v rule: gmap_set.induct) auto

lemma gmap_ok_set: "gmap_ok m \<Longrightarrow> gmap_ok (gmap_set m k v)"
proof (induction m k v rule: gmap_set.induct)
  case (2 a b m k v)
  then show ?case using set_gmap_set [of m k v] by (fastforce simp: gmap_ok_Cons)
qed (simp add: gmap_ok_def)

lemma gmap_get_delete [go_map]: "gmap_get (gmap_delete m k) j = (if j = k then None else gmap_get m j)"
  by (induction m) (auto simp: gmap_delete_def)

lemma gmap_ok_filter: "gmap_ok m \<Longrightarrow> gmap_ok (filter P m)"
  by (induction m) (auto simp: gmap_ok_Cons split: prod.splits)

lemma gmap_ok_delete: "gmap_ok m \<Longrightarrow> gmap_ok (gmap_delete m k)"
  by (simp add: gmap_delete_def gmap_ok_filter)

lemma gmap_get_none_less:
  fixes k :: "'k :: linorder"
  shows "(\<forall>e \<in> set m. k < fst e) \<Longrightarrow> gmap_get m k = None"
  by (induction m) auto

lemma gmap_get_in_set: "gmap_get m k = Some v \<Longrightarrow> (k, v) \<in> set m"
  by (simp add: gmap_get_def map_of_SomeD)

lemma gmap_get_iff: "gmap_ok m \<Longrightarrow> gmap_get m k = Some v \<longleftrightarrow> (k, v) \<in> set m"
proof (induction m)
  case (Cons e m)
  then show ?case by (cases e) (auto simp: gmap_ok_Cons gmap_get_none_less)
qed simp

lemma gmap_extensional:
  assumes "gmap_ok m" "gmap_ok n" and eq: "\<And>k. gmap_get m k = gmap_get n k"
  shows "m = n"
  using assms
proof (induction m arbitrary: n)
  case Nil
  have "n = []"
  proof (cases n)
    case (Cons e n')
    with Nil.prems(3) [of "fst e"] show ?thesis by (cases e) simp
  qed simp
  then show ?case by simp
next
  case (Cons e m)
  obtain a b where e: "e = (a, b)" by (cases e)
  from Cons.prems(3) [of a] obtain c d n' where n: "n = (c, d) # n'"
    by (cases n) (auto simp: e)
  have less: "\<forall>e \<in> set m. a < fst e" "\<forall>e \<in> set n'. c < fst e"
    using Cons.prems(1,2) by (simp_all add: e n gmap_ok_Cons)
  have "a = c"
  proof (rule ccontr)
    assume "a \<noteq> c"
    then have "(a, b) \<in> set n'" "(c, d) \<in> set m"
      using Cons.prems(3) [of a] Cons.prems(3) [of c]
      by (auto simp: e n dest: gmap_get_in_set gmap_get_in_set [OF sym] split: if_splits)
    with less show False by fastforce
  qed
  moreover have "b = d" using Cons.prems(3) [of a] \<open>a = c\<close> by (simp add: e n)
  moreover have "m = n'"
  proof (rule Cons.IH)
    show "gmap_get m k = gmap_get n' k" for k
      using Cons.prems(3) [of k] less \<open>a = c\<close>
      by (cases "k = a") (auto simp: e n gmap_get_none_less)
  qed (use Cons.prems in \<open>simp_all add: e n gmap_ok_Cons\<close>)
  ultimately show ?case by (simp add: e n)
qed

interpretation gm: go_map_laws gmap_get gmap_set gmap_delete "[]" gmap_ok
  by unfold_locales (auto simp: go_map gmap_ok_set gmap_ok_delete intro: gmap_extensional)

section \<open>Further facts the components share\<close>

lemma gmap_set_nonempty [simp]: "gmap_set m k v \<noteq> []"
  by (induction m k v rule: gmap_set.induct) auto

lemma gmap_nonempty_get: "m \<noteq> [] \<Longrightarrow> \<exists>k v. gmap_get m k = Some v"
  by (cases m) auto

lemma gmap_get_filter:
  "gmap_ok m \<Longrightarrow> gmap_get (filter P m) k =
     (case gmap_get m k of None \<Rightarrow> None | Some v \<Rightarrow> if P (k, v) then Some v else None)"
proof (induction m)
  case (Cons e m)
  then show ?case
    by (cases e) (auto simp: gmap_ok_Cons gmap_get_none_less gmap_ok_filter split: option.splits)
qed simp

lemma gmap_ok_fold_set: "gmap_ok m \<Longrightarrow> gmap_ok (fold (\<lambda>(k, v) m. gmap_set m k v) es m)"
  by (induction es arbitrary: m) (auto simp: gmap_ok_set)

lemma gmap_ok_of [simp]: "gmap_ok (gmap_of es)"
  by (simp add: gmap_of_def gmap_ok_fold_set)

lemma gmap_set_append:
  "(\<forall>e \<in> set m. fst e < k) \<Longrightarrow> gmap_set m k v = m @ [(k, v)]"
  by (induction m k v rule: gmap_set.induct) auto

lemma gmap_of_id_aux:
  "gmap_ok (m @ es) \<Longrightarrow> fold (\<lambda>(k, v) m. gmap_set m k v) es m = m @ es"
proof (induction es arbitrary: m)
  case (Cons e es)
  obtain k v where e: "e = (k, v)" by (cases e)
  have "\<forall>e \<in> set m. fst e < k"
    using Cons.prems by (auto simp: gmap_ok_def e sorted_wrt_append)
  with Cons e show ?case by (simp add: gmap_set_append)
qed simp

text \<open>Rebuilding a map from its own entries gives it back.\<close>

lemma gmap_of_id [go_map]: "gmap_ok m \<Longrightarrow> gmap_of m = m"
  using gmap_of_id_aux [of "[]" m] by (simp add: gmap_of_def)

lemma gmap_ok_map_vals: "gmap_ok (map (\<lambda>(k, v). (k, f k v)) m) = gmap_ok m"
  by (simp add: gmap_ok_def comp_def case_prod_beta)

end
