(* ===== verification/Pathutil.thy ===== *)
theory Pathutil
  imports Go_Maps
begin

text \<open>
  Package \<open>internal/pathutil\<close>: dotted-path access over the generic JSON form of a Kubernetes
  object (\<open>map[string]any\<close> decoded with \<open>UseNumber\<close>). Numbers keep their source text,
  which is what \<open>json.Number\<close> does. The operations follow \<open>path.go\<close> one by one; the
  mutating ones return the updated object.
\<close>

section \<open>Generic JSON\<close>

datatype json =
    JNull
  | JBool bool
  | JNumber string
  | JString string
  | JArray "json list"
  | JObject "(string \<times> json) list"

type_synonym obj = "(string, json) gmap"

text \<open>Every object inside is a Go map: distinct keys, in key order.\<close>

fun json_ok :: "json \<Rightarrow> bool" where
  "json_ok (JArray xs) = list_all json_ok xs"
| "json_ok (JObject m) = (gmap_ok m \<and> list_all (\<lambda>e. json_ok (snd e)) m)"
| "json_ok _ = True"

abbreviation obj_ok :: "obj \<Rightarrow> bool" where
  "obj_ok m \<equiv> json_ok (JObject m)"

fun is_object :: "json \<Rightarrow> bool" where
  "is_object (JObject m) = True"
| "is_object _ = False"

section \<open>Operations\<close>

definition Split :: "string \<Rightarrow> string list" where
  "Split path = (if path = '''' then [] else split_on CHR ''.'' path)"

fun get_from :: "json \<Rightarrow> string list \<Rightarrow> json option" where
  "get_from current [] = Some current"
| "get_from (JObject m) (segment # segments) =
     (case gmap_get m segment of None \<Rightarrow> None | Some next \<Rightarrow> get_from next segments)"
| "get_from _ (segment # segments) = None"

definition GetSegments :: "obj \<Rightarrow> string list \<Rightarrow> json option" where
  "GetSegments obj segments = (if segments = [] then None else get_from (JObject obj) segments)"

text \<open>The second component is the reported success; \<open>nil\<close> and missing steps are created.\<close>

fun SetSegments :: "obj \<Rightarrow> string list \<Rightarrow> json \<Rightarrow> obj \<times> bool" where
  "SetSegments obj [] value = (obj, False)"
| "SetSegments obj [segment] value = (gmap_set obj segment value, True)"
| "SetSegments obj (segment # s2 # ss) value =
     (case gmap_get obj segment of
        Some (JObject asMap) \<Rightarrow>
          (let (next, ok) = SetSegments asMap (s2 # ss) value
           in (gmap_set obj segment (JObject next), ok))
      | None \<Rightarrow>
          (let (created, ok) = SetSegments [] (s2 # ss) value
           in (gmap_set obj segment (JObject created), ok))
      | Some JNull \<Rightarrow>
          (let (created, ok) = SetSegments [] (s2 # ss) value
           in (gmap_set obj segment (JObject created), ok))
      | Some _ \<Rightarrow> (obj, False))"

fun deleteSegments :: "obj \<Rightarrow> string list \<Rightarrow> obj" where
  "deleteSegments current [] = current"
| "deleteSegments current [segment] = gmap_delete current segment"
| "deleteSegments current (segment # s2 # ss) =
     (case gmap_get current segment of
        Some (JObject next) \<Rightarrow>
          (let next' = deleteSegments next (s2 # ss)
           in if next' = [] then gmap_delete current segment
              else gmap_set current segment (JObject next'))
      | _ \<Rightarrow> current)"

definition Get :: "obj \<Rightarrow> string \<Rightarrow> json option" where
  "Get obj path = GetSegments obj (Split path)"

definition Set :: "obj \<Rightarrow> string \<Rightarrow> json \<Rightarrow> obj \<times> bool" where
  "Set obj path value = SetSegments obj (Split path) value"

definition Delete :: "obj \<Rightarrow> string \<Rightarrow> obj" where
  "Delete obj path = (let segments = Split path in
     if segments = [] then obj else deleteSegments obj segments)"

record Leaf =
  Segments :: "string list"
  LeafValue :: json

definition Leaf_Path :: "Leaf \<Rightarrow> string" where
  "Leaf_Path l = Join (Segments l) ''.''"

function walkLeaves :: "obj \<Rightarrow> string list \<Rightarrow> Leaf list" where
  "walkLeaves [] pre = []"
| "walkLeaves ((key, value) # current) pre =
     (let segments = pre @ [key] in
      (case value of
         JObject nested \<Rightarrow>
           if nested \<noteq> [] then walkLeaves nested segments
           else [\<lparr>Segments = segments, LeafValue = value\<rparr>]
       | _ \<Rightarrow> [\<lparr>Segments = segments, LeafValue = value\<rparr>])
      @ walkLeaves current pre)"
  by pat_completeness auto
termination
  by (relation "measure (\<lambda>(m, _). size (JObject m))") auto

definition WalkLeaves :: "obj \<Rightarrow> Leaf list" where
  "WalkLeaves obj = walkLeaves obj []"

text \<open>A value \<open>WalkLeaves\<close> stops at: anything but an object with entries.\<close>

fun terminal :: "json \<Rightarrow> bool" where
  "terminal (JObject (e # m)) = False"
| "terminal _ = True"

section \<open>Well-formedness is kept\<close>

lemma obj_ok_entry: "obj_ok m \<Longrightarrow> gmap_get m k = Some v \<Longrightarrow> json_ok v"
  by (fastforce simp: list_all_iff dest: gmap_get_in_set)

lemma obj_ok_set: "obj_ok m \<Longrightarrow> json_ok v \<Longrightarrow> obj_ok (gmap_set m k v)"
  using set_gmap_set [of m k v] by (auto simp: list_all_iff gmap_ok_set)

lemma obj_ok_filter: "obj_ok m \<Longrightarrow> obj_ok (filter P m)"
  by (auto simp: list_all_iff gmap_ok_filter)

lemma obj_ok_delete: "obj_ok m \<Longrightarrow> obj_ok (gmap_delete m k)"
  by (simp add: gmap_delete_def obj_ok_filter del: json_ok.simps)

lemma SetSegments_ok:
  "obj_ok m \<Longrightarrow> json_ok v \<Longrightarrow> obj_ok (fst (SetSegments m p v))"
proof (induction m p v rule: SetSegments.induct)
  case (3 m s s2 ss v)
  have [simp]: "obj_ok []" by simp
  show ?case
  proof (cases "gmap_get m s")
    case None
    with 3 show ?thesis by (simp add: obj_ok_set case_prod_beta del: json_ok.simps)
  next
    case (Some x)
    with 3 obj_ok_entry [of m s x] show ?thesis
      by (cases x) (simp_all add: obj_ok_set case_prod_beta del: json_ok.simps)
  qed
qed (simp_all add: obj_ok_set del: json_ok.simps)

lemma deleteSegments_ok: "obj_ok m \<Longrightarrow> obj_ok (deleteSegments m p)"
proof (induction m p rule: deleteSegments.induct)
  case (3 m s s2 ss)
  show ?case
  proof (cases "gmap_get m s")
    case (Some x)
    with 3 obj_ok_entry [of m s x] show ?thesis
      by (cases x) (simp_all add: Let_def obj_ok_set obj_ok_delete del: json_ok.simps)
  qed (use 3 in simp)
qed (simp_all add: obj_ok_delete del: json_ok.simps)

section \<open>Reading back what was written\<close>

lemma GetSegments_Nil [simp]: "GetSegments m [] = None"
  by (simp add: GetSegments_def)

lemma GetSegments_single [simp]: "GetSegments m [s] = gmap_get m s"
  by (simp add: GetSegments_def split: option.splits)

lemma GetSegments_Cons:
  "ss \<noteq> [] \<Longrightarrow> GetSegments m (s # ss) =
     (case gmap_get m s of Some (JObject n) \<Rightarrow> GetSegments n ss | _ \<Rightarrow> None)"
  by (cases ss) (auto simp: GetSegments_def split: option.splits json.splits)

lemma GetSegments_empty [simp]: "GetSegments [] p = None"
  by (cases p) (auto simp: GetSegments_def)

lemma get_from_append:
  "get_from v (p @ q) = (case get_from v p of None \<Rightarrow> None | Some w \<Rightarrow> get_from w q)"
  by (induction v p rule: get_from.induct) (auto split: option.splits)

lemma SetSegments_get_same:
  "snd (SetSegments m p v) \<Longrightarrow> GetSegments (fst (SetSegments m p v)) p = Some v"
proof (induction m p v rule: SetSegments.induct)
  case (3 m s s2 ss v)
  then show ?case
    by (auto simp: GetSegments_Cons go_map Let_def split: option.splits json.splits prod.splits)
qed (auto simp: go_map)

text \<open>A failed write leaves the object as it was.\<close>

lemma SetSegments_fresh: "p \<noteq> [] \<Longrightarrow> snd (SetSegments [] p v)"
  by (induction "[] :: obj" p v rule: SetSegments.induct) (auto split: prod.splits)

lemma SetSegments_fail_id:
  "gmap_ok m \<Longrightarrow> obj_ok m \<Longrightarrow> \<not> snd (SetSegments m p v) \<Longrightarrow> fst (SetSegments m p v) = m"
proof (induction m p v rule: SetSegments.induct)
  case (3 m s s2 ss v)
  have fresh: "snd (SetSegments [] (s2 # ss) v)" by (rule SetSegments_fresh) simp
  show ?case
  proof (cases "gmap_get m s")
    case None
    with 3 fresh show ?thesis by (auto split: prod.splits)
  next
    case (Some x)
    show ?thesis
    proof (cases x)
      case (JObject n)
      have "obj_ok n" using obj_ok_entry [OF "3.prems"(2) Some] JObject by simp
      with 3 Some JObject have "fst (SetSegments n (s2 # ss) v) = n"
        by (auto split: prod.splits)
      with Some JObject 3 show ?thesis
        by (auto simp: gm.put_same split: prod.splits)
    qed (use 3 Some fresh in \<open>auto split: prod.splits\<close>)
  qed
qed simp_all

section \<open>Frames: what a write or a delete leaves alone\<close>

lemma parallel_ConsD:
  "parallel (s # p) q \<Longrightarrow> \<exists>t q'. q = t # q' \<and> (s = t \<longrightarrow> parallel p q')"
  by (cases q) (auto simp: parallel_def)

lemma SetSegments_frame:
  "parallel p q \<Longrightarrow> GetSegments (fst (SetSegments m p v)) q = GetSegments m q"
proof (induction m p v arbitrary: q rule: SetSegments.induct)
  case (1 m v)
  then show ?case by simp
next
  case (2 m s v)
  then obtain t q' where q: "q = t # q'" "s \<noteq> t"
    by (cases q) (auto simp: parallel_def)
  then show ?case by (cases "q' = []") (auto simp: GetSegments_Cons go_map)
next
  case (3 m s s2 ss v)
  obtain t q' where q: "q = t # q'" "s = t \<longrightarrow> parallel (s2 # ss) q'"
    using parallel_ConsD [OF "3.prems"] by blast
  show ?case
  proof (cases "s = t")
    case False
    then show ?thesis unfolding q(1)
      by (cases "q' = []")
        (auto simp: GetSegments_Cons go_map Let_def split: option.splits json.splits prod.splits)
  next
    case True
    with q have par: "parallel (s2 # ss) q'" and "q' \<noteq> []" by auto
    with True "3.IH" show ?thesis unfolding q(1)
      by (auto simp: GetSegments_Cons go_map Let_def case_prod_beta split: option.splits json.splits)
  qed
qed

lemma SetSegments_below:
  "snd (SetSegments m p v) \<Longrightarrow> GetSegments (fst (SetSegments m p v)) (p @ r) = get_from v r"
  using SetSegments_get_same [of m p v]
  by (cases "p = []") (auto simp: GetSegments_def get_from_append)

text \<open>Deleting prunes emptied ancestors, which no path beside the deleted one goes through.\<close>

lemma deleteSegments_frame:
  "parallel p q \<Longrightarrow> GetSegments (deleteSegments m p) q = GetSegments m q"
proof (induction m p arbitrary: q rule: deleteSegments.induct)
  case (1 m)
  then show ?case by simp
next
  case (2 m s)
  then obtain t q' where q: "q = t # q'" "s \<noteq> t"
    by (cases q) (auto simp: parallel_def)
  then show ?case by (cases "q' = []") (auto simp: GetSegments_Cons go_map)
next
  case (3 m s s2 ss)
  obtain t q' where q: "q = t # q'" "s = t \<longrightarrow> parallel (s2 # ss) q'"
    using parallel_ConsD [OF "3.prems"] by blast
  show ?case
  proof (cases "s = t")
    case False
    then show ?thesis unfolding q(1)
      by (cases "q' = []")
        (auto simp: GetSegments_Cons go_map Let_def split: option.splits json.splits)
  next
    case True
    with q have par: "parallel (s2 # ss) q'" and "q' \<noteq> []" by auto
    with True "3.IH" [OF _ _ par] show ?thesis unfolding q(1)
      by (fastforce simp: GetSegments_Cons go_map Let_def split: option.splits json.splits)
  qed
qed

lemma deleteSegments_gone: "p \<noteq> [] \<Longrightarrow> GetSegments (deleteSegments m p) (p @ r) = None"
proof (induction m p rule: deleteSegments.induct)
  case (2 m s)
  then show ?case by (cases "r = []") (auto simp: GetSegments_Cons go_map)
next
  case (3 m s s2 ss)
  then show ?case
    by (auto simp: GetSegments_Cons go_map Let_def split: option.splits json.splits)
qed simp

section \<open>The leaves of an object\<close>

lemma GetSegments_entry:
  assumes "gmap_ok ((key, v) # m)"
  shows "GetSegments ((key, v) # m) segs = Some w \<longleftrightarrow>
    (\<exists>rest. segs = key # rest \<and> get_from v rest = Some w) \<or> GetSegments m segs = Some w"
proof -
  have none: "gmap_get m key = None"
    using assms by (simp add: gmap_ok_Cons gmap_get_none_less)
  show ?thesis
  proof (cases segs)
    case (Cons t rest)
    with none show ?thesis by (cases "t = key") (auto simp: GetSegments_def)
  qed simp
qed

lemma get_from_object:
  "get_from (JObject m) segs = Some w \<longleftrightarrow> (segs = [] \<and> w = JObject m) \<or> GetSegments m segs = Some w"
  by (cases segs) (auto simp: GetSegments_def)

lemma get_from_scalar: "\<not> is_object v \<Longrightarrow> get_from v segs = Some w \<longleftrightarrow> segs = [] \<and> w = v"
  by (cases segs; cases v) auto

text \<open>
  The leaves are exactly the terminal values a lookup can reach, each under the path it is
  reached by. Nothing is dropped and nothing is invented.
\<close>

lemma walkLeaves_iff:
  "obj_ok m \<Longrightarrow> l \<in> set (walkLeaves m pre) \<longleftrightarrow>
     (\<exists>segs. Segments l = pre @ segs \<and> GetSegments m segs = Some (LeafValue l) \<and> terminal (LeafValue l))"
proof (induction m pre arbitrary: l rule: walkLeaves.induct)
  case (1 pre)
  then show ?case by simp
next
  case (2 key v m pre)
  have ok: "gmap_ok ((key, v) # m)" "obj_ok m" "json_ok v"
    using "2.prems" by (simp_all add: gmap_ok_Cons)
  have rest: "l \<in> set (walkLeaves m pre) \<longleftrightarrow>
     (\<exists>segs. Segments l = pre @ segs \<and> GetSegments m segs = Some (LeafValue l) \<and> terminal (LeafValue l))"
    by (rule "2.IH"(2) [OF refl ok(2)])
  have this_entry: "l \<in> set (walkLeaves ((key, v) # m) pre) \<longleftrightarrow>
      (\<exists>segs. Segments l = pre @ key # segs \<and> get_from v segs = Some (LeafValue l)
         \<and> terminal (LeafValue l)) \<or> l \<in> set (walkLeaves m pre)"
  proof (cases "terminal v")
    case True
    then have leaf: "set (walkLeaves ((key, v) # m) pre)
        = insert \<lparr>Segments = pre @ [key], LeafValue = v\<rparr> (set (walkLeaves m pre))"
      by (cases v) (auto elim: terminal.elims)
    have "get_from v segs = Some w \<longleftrightarrow> segs = [] \<and> w = v" for segs w
      using True by (cases v; cases segs) (auto elim: terminal.elims)
    then show ?thesis using True unfolding leaf by (cases l) auto
  next
    case False
    then obtain n where v: "v = JObject n" "n \<noteq> []" by (cases v rule: terminal.cases) auto
    have "l \<in> set (walkLeaves n (pre @ [key])) \<longleftrightarrow>
      (\<exists>segs. Segments l = (pre @ [key]) @ segs \<and> GetSegments n segs = Some (LeafValue l)
        \<and> terminal (LeafValue l))"
      by (rule "2.IH"(1)) (use ok v in simp_all)
    with v show ?thesis by (cases n) (auto simp: get_from_object)
  qed
  show ?case unfolding this_entry rest GetSegments_entry [OF ok(1)] by auto
qed

lemma WalkLeaves_iff:
  "obj_ok m \<Longrightarrow> l \<in> set (WalkLeaves m) \<longleftrightarrow>
     GetSegments m (Segments l) = Some (LeafValue l) \<and> terminal (LeafValue l)"
  by (simp add: WalkLeaves_def walkLeaves_iff)

lemma terminal_no_below: "terminal v \<Longrightarrow> r \<noteq> [] \<Longrightarrow> get_from v r = None"
  by (cases v rule: terminal.cases; cases r) auto

lemma WalkLeaves_nonempty_path: "l \<in> set (WalkLeaves m) \<Longrightarrow> obj_ok m \<Longrightarrow> Segments l \<noteq> []"
  by (auto simp: WalkLeaves_iff simp del: json_ok.simps)

text \<open>No leaf lies beneath another, so writing one never disturbs another.\<close>

lemma WalkLeaves_no_prefix:
  assumes "obj_ok m" "l \<in> set (WalkLeaves m)" "l' \<in> set (WalkLeaves m)"
    and "prefix (Segments l) (Segments l')"
  shows "Segments l = Segments l'"
proof (rule ccontr)
  assume neq: "Segments l \<noteq> Segments l'"
  from assms(4) obtain r where r: "Segments l' = Segments l @ r" by (auto simp: prefix_def)
  with neq have "r \<noteq> []" by auto
  moreover have "get_from (JObject m) (Segments l') = Some (LeafValue l')"
    "get_from (JObject m) (Segments l) = Some (LeafValue l)" "terminal (LeafValue l)"
    using assms(1-3) by (auto simp: WalkLeaves_iff get_from_object simp del: json_ok.simps)
  ultimately show False unfolding r get_from_append by (simp add: terminal_no_below)
qed

lemma WalkLeaves_parallel:
  assumes "obj_ok m" "l \<in> set (WalkLeaves m)" "l' \<in> set (WalkLeaves m)"
    and "Segments l \<noteq> Segments l'"
  shows "parallel (Segments l) (Segments l')"
  using assms WalkLeaves_no_prefix [of m l l'] WalkLeaves_no_prefix [of m l' l]
  by (auto simp: parallel_def simp del: json_ok.simps)

lemma walkLeaves_under: "l \<in> set (walkLeaves m pre) \<Longrightarrow> \<exists>k r. Segments l = pre @ k # r \<and> k \<in> fst ` set m"
proof (induction m pre rule: walkLeaves.induct)
  case (2 key v m pre)
  then show ?case by (fastforce simp: Let_def split: json.splits if_splits)
qed simp

lemma walkLeaves_distinct: "obj_ok m \<Longrightarrow> distinct (map Segments (walkLeaves m pre))"
proof (induction m pre rule: walkLeaves.induct)
  case (2 key v m pre)
  have ok: "\<forall>e \<in> set m. key < fst e" "obj_ok m" "json_ok v"
    using "2.prems" by (simp_all add: gmap_ok_Cons)
  have other: "k \<noteq> key" if "l \<in> set (walkLeaves m pre)" "Segments l = pre @ k # r" for l k r
    using walkLeaves_under [OF that(1)] that(2) ok(1) by auto
  have IH2: "distinct (map Segments (walkLeaves m pre))"
    by (rule "2.IH"(2) [OF refl ok(2)])
  show ?case
  proof (cases "terminal v")
    case True
    then have eq: "walkLeaves ((key, v) # m) pre
        = \<lparr>Segments = pre @ [key], LeafValue = v\<rparr> # walkLeaves m pre"
      by (cases v) (auto elim: terminal.elims)
    have "pre @ [key] \<notin> Segments ` set (walkLeaves m pre)" using other [of _ key "[]"] by force
    with IH2 show ?thesis unfolding eq by simp
  next
    case False
    then obtain n where v: "v = JObject n" "n \<noteq> []" by (cases v rule: terminal.cases) auto
    have IH1: "distinct (map Segments (walkLeaves n (pre @ [key])))"
      by (rule "2.IH"(1)) (use ok v in simp_all)
    have "Segments l \<noteq> Segments l'" if "l \<in> set (walkLeaves n (pre @ [key]))"
      "l' \<in> set (walkLeaves m pre)" for l l'
      using walkLeaves_under [OF that(1)] walkLeaves_under [OF that(2)] ok(1) by auto
    with IH1 IH2 v show ?thesis by (auto simp: Let_def)
  qed
qed simp

lemma WalkLeaves_distinct: "obj_ok m \<Longrightarrow> distinct (map Segments (WalkLeaves m))"
  unfolding WalkLeaves_def by (rule walkLeaves_distinct)

section \<open>Dotted paths\<close>

lemma Split_Nil [simp]: "Split '''' = []"
  by (simp add: Split_def)

lemma Split_nonempty_iff [simp]: "Split path = [] \<longleftrightarrow> path = ''''"
  by (simp add: Split_def)

lemma Join_Split [go_str]: "Join (Split path) ''.'' = path"
  by (simp add: Split_def go_str)

text \<open>A leaf at or beneath a splittable path renders as that path, alone or followed by a dot.\<close>

lemma Leaf_Path_beneath:
  assumes "prefix (Split path) (Segments l)" and "path \<noteq> ''''"
  shows "Leaf_Path l = path \<or> HasPrefix (Leaf_Path l) (path @ ''.'')"
proof -
  from assms(1) obtain r where r: "Segments l = Split path @ r" by (auto simp: prefix_def)
  show ?thesis
  proof (cases "r = []")
    case True
    with r show ?thesis by (simp add: Leaf_Path_def Join_Split)
  next
    case False
    with assms(2) have "HasPrefix (Join (Split path @ r) ''.'') (Join (Split path) ''.'' @ ''.'')"
      using HasPrefix_Join [of "Split path" r "CHR ''.''"] by simp
    then show ?thesis by (simp add: Leaf_Path_def r Join_Split)
  qed
qed


text \<open>What a lookup returns is well formed.\<close>

lemma get_from_ok: "json_ok v \<Longrightarrow> get_from v p = Some w \<Longrightarrow> json_ok w"
proof (induction v p rule: get_from.induct)
  case (2 m segment segments)
  then show ?case by (auto split: option.splits dest: obj_ok_entry simp del: json_ok.simps)
qed auto

lemma GetSegments_ok: "obj_ok m \<Longrightarrow> GetSegments m p = Some v \<Longrightarrow> json_ok v"
  using get_from_ok [of "JObject m" p v] by (auto simp: GetSegments_def split: if_splits)

end
