(* ===== verification/Capture_Rules.thy ===== *)
theory Capture_Rules
  imports Pathutil
begin

text \<open>
  The capture allowlist and the hard denylist: \<open>internal/snapshot/groups.go\<close>,
  \<open>denylist.go\<close> and \<open>pathcheck.go\<close>, with the plugin's identity constants of
  \<open>internal/cnpgi/metadata/constants.go\<close>.

  Three tables come from CloudNativePG's own Go packages and are parameters, collected in
  the record \<open>cnpg\<close>: the fixed PostgreSQL parameters, the libraries of the managed
  extensions, and the Go type of \<open>ClusterSpec\<close> as package \<open>reflect\<close> shows it.
\<close>

section \<open>Identity constants\<close>

definition PluginName :: string where
  "PluginName = ''chronicle.sharifmshaker.github.io''"

definition AnnotationRestoredFrom :: string where
  "AnnotationRestoredFrom = ''chronicle.sharifmshaker.github.io/restored-from''"

section \<open>Capture groups\<close>

record Group =
  Group_Name :: string
  Group_Description :: string
  Group_Paths :: "string list"
  Group_DefaultEnabled :: bool

definition MetadataGroupName :: string where
  "MetadataGroupName = ''Metadata''"

definition Groups :: "Group list" where
  "Groups = [
    \<lparr>Group_Name = ''Gucs'',
     Group_Description = ''PostgreSQL configuration: parameters, pg_hba, pg_ident, shared_preload_libraries, synchronous replication, and the pod selectors pg_hba rules can reference'',
     Group_Paths = [''spec.postgresql'', ''spec.podSelectorRefs''],
     Group_DefaultEnabled = True\<rparr>,
    \<lparr>Group_Name = ''Resources'',
     Group_Description = ''CPU and memory requests and limits'',
     Group_Paths = [''spec.resources''],
     Group_DefaultEnabled = True\<rparr>,
    \<lparr>Group_Name = ''Storage'',
     Group_Description = ''Data, WAL and tablespace storage sizing and classes'',
     Group_Paths = [''spec.storage'', ''spec.walStorage'', ''spec.tablespaces''],
     Group_DefaultEnabled = True\<rparr>,
    \<lparr>Group_Name = ''Scheduling'',
     Group_Description = ''Affinity, tolerations, node selectors, topology spread constraints, priority and scheduler'',
     Group_Paths = [''spec.affinity'', ''spec.topologySpreadConstraints'', ''spec.priorityClassName'',
       ''spec.schedulerName'', ''spec.nodeMaintenanceWindow''],
     Group_DefaultEnabled = True\<rparr>,
    \<lparr>Group_Name = ''Instances'',
     Group_Description = ''Replica count'',
     Group_Paths = [''spec.instances''],
     Group_DefaultEnabled = True\<rparr>,
    \<lparr>Group_Name = MetadataGroupName,
     Group_Description = ''Cluster labels and annotations, and inheritedMetadata'',
     Group_Paths = [''spec.inheritedMetadata''],
     Group_DefaultEnabled = True\<rparr>,
    \<lparr>Group_Name = ''Image'',
     Group_Description = ''Container image, image catalog reference and pull settings'',
     Group_Paths = [''spec.imageName'', ''spec.imageCatalogRef'', ''spec.imagePullPolicy'',
       ''spec.imagePullSecrets''],
     Group_DefaultEnabled = True\<rparr>,
    \<lparr>Group_Name = ''Monitoring'',
     Group_Description = ''Custom queries and pod monitor settings'',
     Group_Paths = [''spec.monitoring''],
     Group_DefaultEnabled = True\<rparr>,
    \<lparr>Group_Name = ''Managed'',
     Group_Description = ''Managed roles and services'',
     Group_Paths = [''spec.managed''],
     Group_DefaultEnabled = True\<rparr>,
    \<lparr>Group_Name = ''PodEnv'',
     Group_Description = ''Environment, projected volumes and service account template'',
     Group_Paths = [''spec.env'', ''spec.envFrom'', ''spec.projectedVolumeTemplate'',
       ''spec.serviceAccountTemplate'', ''spec.ephemeralVolumeSource'',
       ''spec.ephemeralVolumesSizeLimit''],
     Group_DefaultEnabled = True\<rparr>,
    \<lparr>Group_Name = ''Replication'',
     Group_Description = ''Replication slots and synchronous replica bounds'',
     Group_Paths = [''spec.replicationSlots'', ''spec.minSyncReplicas'', ''spec.maxSyncReplicas''],
     Group_DefaultEnabled = True\<rparr>,
    \<lparr>Group_Name = ''Timings'',
     Group_Description = ''Startup, shutdown, switchover and failover delays, probes, and primary lease timings'',
     Group_Paths = [''spec.startDelay'', ''spec.stopDelay'', ''spec.smartShutdownTimeout'',
       ''spec.switchoverDelay'', ''spec.failoverDelay'', ''spec.livenessProbeTimeout'',
       ''spec.probes'', ''spec.primaryUpdateStrategy'', ''spec.primaryUpdateMethod'',
       ''spec.primaryLease''],
     Group_DefaultEnabled = True\<rparr>,
    \<lparr>Group_Name = ''Security'',
     Group_Description = ''Pod and container security contexts and seccomp profile'',
     Group_Paths = [''spec.podSecurityContext'', ''spec.securityContext'', ''spec.seccompProfile''],
     Group_DefaultEnabled = True\<rparr>,
    \<lparr>Group_Name = ''Misc'',
     Group_Description = ''Description, log level and pod disruption budget toggle'',
     Group_Paths = [''spec.description'', ''spec.logLevel'', ''spec.enablePDB''],
     Group_DefaultEnabled = True\<rparr>,
    \<lparr>Group_Name = ''Identity'',
     Group_Description = ''postgresUID, postgresGID and serviceAccountName. Off by default: UID/GID changes are a footgun against a restored PGDATA, and serviceAccountName is immutable once the cluster exists.'',
     Group_Paths = [''spec.postgresUID'', ''spec.postgresGID'', ''spec.serviceAccountName''],
     Group_DefaultEnabled = False\<rparr>,
    \<lparr>Group_Name = ''Secrets'',
     Group_Description = ''certificates, superuserSecret and enableSuperuserAccess. Off by default: the referenced Secrets may not exist in the target namespace.'',
     Group_Paths = [''spec.certificates'', ''spec.superuserSecret'', ''spec.enableSuperuserAccess''],
     Group_DefaultEnabled = False\<rparr>]"

definition LookupGroup :: "string \<Rightarrow> Group option" where
  "LookupGroup name = find (\<lambda>g. Group_Name g = name) Groups"

definition GroupNames :: "string list" where
  "GroupNames = sort (map Group_Name Groups)"

definition DefaultGroupNames :: "string list" where
  "DefaultGroupNames = sort (map Group_Name (filter Group_DefaultEnabled Groups))"

definition EffectiveGroupNames :: "string list \<Rightarrow> string list" where
  "EffectiveGroupNames configured = (if configured = [] then DefaultGroupNames else configured)"

section \<open>The denylist\<close>

definition DeniedPaths :: "string list" where
  "DeniedPaths = [
    ''spec.plugins'', ''spec.backup'', ''spec.externalClusters'', ''spec.bootstrap'',
    ''spec.replica'', ''metadata.name'', ''metadata.namespace'', ''metadata.uid'',
    ''metadata.resourceVersion'', ''metadata.generation'', ''metadata.creationTimestamp'',
    ''metadata.deletionTimestamp'', ''metadata.ownerReferences'', ''metadata.managedFields'',
    ''metadata.selfLink'', ''metadata.finalizers'', ''status'']"

definition deniedMetadataDomains :: "string list" where
  "deniedMetadataDomains = [''cnpg.io'', PluginName]"

definition deniedMetadataKeys :: "string list" where
  "deniedMetadataKeys = [''kubectl.kubernetes.io/last-applied-configuration'']"

definition ApplyDenylist :: "obj \<Rightarrow> obj" where
  "ApplyDenylist object = fold (\<lambda>path current. Delete current path) DeniedPaths object"

definition IsDeniedPath :: "string \<Rightarrow> bool" where
  "IsDeniedPath path =
     list_ex (\<lambda>denied. path = denied \<or> HasPrefix path (denied @ ''.'')) DeniedPaths"

definition IsDeniedMetadataKey :: "string \<Rightarrow> bool" where
  "IsDeniedMetadataKey key =
     (if List.member deniedMetadataKeys key then True
      else (case Cut key ''/'' of
              None \<Rightarrow> False
            | Some (domain, _) \<Rightarrow>
                list_ex (\<lambda>denied. domain = denied \<or> HasSuffix domain (CHR ''.'' # denied))
                  deniedMetadataDomains))"

definition FilterMetadata :: "(string, string) gmap \<Rightarrow> (string, string) gmap" where
  "FilterMetadata m = filter (\<lambda>(key, _). \<not> IsDeniedMetadataKey key) m"

section \<open>What CloudNativePG supplies\<close>

text \<open>A Go type as \<open>reflect\<close> shows it: a struct field has its JSON name and whether it is embedded.\<close>

datatype gtype =
    TPointer gtype
  | TSlice gtype
  | TMap gtype
  | TStruct string "(string \<times> bool \<times> gtype) list"
  | TBasic string

record cnpg =
  FixedConfigurationParameters :: "string list"
  ManagedExtensions :: "string list list"
  clusterSpecType :: gtype

definition quantityTypeName :: string where
  "quantityTypeName = ''resource.Quantity''"

definition storageConfigurationTypeName :: string where
  "storageConfigurationTypeName = ''v1.StorageConfiguration''"

definition managedLibraries :: "cnpg \<Rightarrow> string list" where
  "managedLibraries C = sort (remdups (concat (ManagedExtensions C)))"

definition FilterGUCs :: "cnpg \<Rightarrow> obj \<Rightarrow> obj" where
  "FilterGUCs C parameters =
     filter (\<lambda>(key, _). \<not> List.member (FixedConfigurationParameters C) key) parameters"

definition FilterSharedPreloadLibraries :: "cnpg \<Rightarrow> json list \<Rightarrow> json list" where
  "FilterSharedPreloadLibraries C libraries =
     filter (\<lambda>library. case library of
         JString name \<Rightarrow> \<not> List.member (managedLibraries C) name | _ \<Rightarrow> True) libraries"

text \<open>A library is dropped exactly when some managed extension loads it.\<close>

lemma FilterSharedPreloadLibraries_managed:
  "FilterSharedPreloadLibraries C libraries =
     filter (\<lambda>x. \<not> (\<exists>extension \<in> set (ManagedExtensions C). \<exists>name \<in> set extension. x = JString name)) libraries"
  unfolding FilterSharedPreloadLibraries_def managedLibraries_def
  by (rule filter_cong) (auto simp: List.member_iff split: json.splits)

section \<open>Checking a rule's path\<close>

fun elemType :: "gtype \<Rightarrow> gtype" where
  "elemType (TPointer t) = elemType t"
| "elemType (TSlice t) = elemType t"
| "elemType t = t"

text \<open>An embedded struct with no JSON name has its fields searched in place.\<close>

fun fieldByJSONName :: "(string \<times> bool \<times> gtype) list \<Rightarrow> string \<Rightarrow> gtype option" where
  "fieldByJSONName [] name = None"
| "fieldByJSONName ((tag, anonymous, t) # flds) name =
     (if tag = name then Some t
      else if tag = '''' \<and> anonymous then
        (case t of
           TStruct _ inner \<Rightarrow>
             (case fieldByJSONName inner name of
                Some nested \<Rightarrow> Some nested
              | None \<Rightarrow> fieldByJSONName flds name)
         | _ \<Rightarrow> fieldByJSONName flds name)
      else fieldByJSONName flds name)"

definition withinCaptureGroups :: "string \<Rightarrow> bool" where
  "withinCaptureGroups path =
     list_ex (\<lambda>group. list_ex (\<lambda>claimed.
         path = claimed \<or> HasPrefix path (claimed @ ''.'') \<or> HasPrefix claimed (path @ ''.''))
       (Group_Paths group)) Groups"

fun resolve_walk :: "string \<Rightarrow> gtype \<Rightarrow> string \<Rightarrow> string list \<Rightarrow> error option" where
  "resolve_walk path current walked [] = None"
| "resolve_walk path current walked (segment # segments) =
     (case elemType current of
        TMap _ \<Rightarrow> None
      | TStruct _ flds \<Rightarrow>
          (case fieldByJSONName flds segment of
             None \<Rightarrow> Some (Errorf ''names no such field'' [path, walked, segment])
           | Some next \<Rightarrow> resolve_walk path next (walked @ ''.'' @ segment) segments)
      | _ \<Rightarrow> Some (Errorf ''continues past a single value'' [path, walked]))"

definition resolveInClusterSpec :: "cnpg \<Rightarrow> string \<Rightarrow> error option" where
  "resolveInClusterSpec C path =
     (if path = ''spec'' then None
      else (case CutPrefix path ''spec.'' of
              None \<Rightarrow> Some (Errorf ''is not a path into a Cluster'' [path])
            | Some rest \<Rightarrow>
                resolve_walk path (clusterSpecType C) ''spec'' (split_on CHR ''.'' rest)))"

text \<open>\<open>None\<close> is Go's nil error: the path might match something.\<close>

definition ValidateRulePath :: "cnpg \<Rightarrow> string \<Rightarrow> error option" where
  "ValidateRulePath C rule_path =
     (let path = TrimSuffix rule_path ''.*'' in
      if path = '''' then Some (Errorf ''a rule has an empty path'' [])
      else if IsDeniedPath path then Some (Errorf ''is on the hard denylist'' [path])
      else if path = ''metadata'' \<or>
              path = ''metadata.labels'' \<or> HasPrefix path ''metadata.labels.'' \<or>
              path = ''metadata.annotations'' \<or> HasPrefix path ''metadata.annotations.''
           then None
      else if HasPrefix path ''metadata.''
           then Some (Errorf ''names Cluster metadata other than labels and annotations'' [path])
      else if \<not> withinCaptureGroups path
           then Some (Errorf ''is covered by no capture group'' [path])
      else resolveInClusterSpec C path)"

fun walk_type :: "gtype \<Rightarrow> string list \<Rightarrow> gtype option" where
  "walk_type current [] = Some current"
| "walk_type current (segment # segments) =
     (case elemType current of
        TStruct _ flds \<Rightarrow>
          (case fieldByJSONName flds segment of
             None \<Rightarrow> None
           | Some next \<Rightarrow> walk_type next segments)
      | _ \<Rightarrow> None)"

fun through_pointers :: "gtype \<Rightarrow> gtype" where
  "through_pointers (TPointer t) = through_pointers t"
| "through_pointers t = t"

definition NamesMap :: "cnpg \<Rightarrow> string \<Rightarrow> bool" where
  "NamesMap C path =
     (if path = ''metadata.labels'' \<or> path = ''metadata.annotations'' then True
      else (case CutPrefix path ''spec.'' of
              None \<Rightarrow> False
            | Some rest \<Rightarrow>
                (case walk_type (clusterSpecType C) (split_on CHR ''.'' rest) of
                   None \<Rightarrow> False
                 | Some current \<Rightarrow>
                     (case through_pointers current of TMap _ \<Rightarrow> True | _ \<Rightarrow> False))))"

fun enclosing_scan :: "cnpg \<Rightarrow> string \<Rightarrow> string \<Rightarrow> string option" where
  "enclosing_scan C seen [] = (if NamesMap C seen then Some seen else None)"
| "enclosing_scan C seen (c # rest) =
     (if c = CHR ''.'' \<and> NamesMap C seen then Some seen
      else enclosing_scan C (seen @ [c]) rest)"

definition EnclosingMap :: "cnpg \<Rightarrow> string \<Rightarrow> string option" where
  "EnclosingMap C path = enclosing_scan C '''' path"

fun quantity_walk :: "gtype \<Rightarrow> string list \<Rightarrow> bool" where
  "quantity_walk current [] =
     (case elemType current of TStruct name _ \<Rightarrow> name = quantityTypeName | _ \<Rightarrow> False)"
| "quantity_walk current (segment # segments) =
     (case elemType current of
        TMap elem \<Rightarrow> quantity_walk elem segments
      | TStruct name flds \<Rightarrow>
          if name = storageConfigurationTypeName \<and> segment = ''size'' \<and> segments = [] then True
          else (case fieldByJSONName flds segment of
                  None \<Rightarrow> False
                | Some next \<Rightarrow> quantity_walk next segments)
      | _ \<Rightarrow> False)"

definition IsQuantityPath :: "cnpg \<Rightarrow> string list \<Rightarrow> bool" where
  "IsQuantityPath C segments =
     (if length segments < 2 \<or> segments ! 0 \<noteq> ''spec'' then False
      else quantity_walk (clusterSpecType C) (tl segments))"

section \<open>Facts about the allowlist\<close>

lemma DefaultGroupNames_eval:
  "DefaultGroupNames = [''Gucs'', ''Image'', ''Instances'', ''Managed'', ''Metadata'', ''Misc'',
     ''Monitoring'', ''PodEnv'', ''Replication'', ''Resources'', ''Scheduling'', ''Security'',
     ''Storage'', ''Timings'']"
  by code_simp

lemma DefaultGroupNames_nonempty [simp]: "DefaultGroupNames \<noteq> []"
  by (simp add: DefaultGroupNames_eval)

lemma EffectiveGroupNames_idem [simp]:
  "EffectiveGroupNames (EffectiveGroupNames gs) = EffectiveGroupNames gs"
  by (simp add: EffectiveGroupNames_def)

lemma LookupGroup_in: "LookupGroup name = Some g \<Longrightarrow> g \<in> set Groups \<and> Group_Name g = name"
  by (auto simp: LookupGroup_def find_Some_iff)

lemma LookupGroup_known: "LookupGroup name \<noteq> None \<longleftrightarrow> name \<in> set GroupNames"
  by (auto simp: LookupGroup_def find_None_iff GroupNames_def)

lemma groups_not_denied:
  "g \<in> set Groups \<Longrightarrow> p \<in> set (Group_Paths g) \<Longrightarrow> \<not> IsDeniedPath p"
proof -
  have "list_all (\<lambda>g. list_all (\<lambda>p. \<not> IsDeniedPath p) (Group_Paths g)) Groups" by code_simp
  then show "g \<in> set Groups \<Longrightarrow> p \<in> set (Group_Paths g) \<Longrightarrow> \<not> IsDeniedPath p"
    by (auto simp: list_all_iff)
qed

text \<open>Every claimed path is a field directly under \<open>spec\<close>.\<close>

lemma group_path_shape:
  "g \<in> set Groups \<Longrightarrow> p \<in> set (Group_Paths g) \<Longrightarrow> \<exists>f. Split p = [''spec'', f]"
proof -
  have "list_all (\<lambda>g. list_all (\<lambda>p. length (Split p) = 2 \<and> hd (Split p) = ''spec'') (Group_Paths g))
      Groups" by code_simp
  then show "g \<in> set Groups \<Longrightarrow> p \<in> set (Group_Paths g) \<Longrightarrow> \<exists>f. Split p = [''spec'', f]"
    by (fastforce simp: list_all_iff length_Suc_conv numeral_2_eq_2)
qed

section \<open>Facts about the denylist\<close>

lemma IsDeniedPath_iff:
  "IsDeniedPath path \<longleftrightarrow> (\<exists>d \<in> set DeniedPaths. path = d \<or> HasPrefix path (d @ ''.''))"
  by (simp add: IsDeniedPath_def list_ex_iff)

lemma DeniedPaths_nonempty: "d \<in> set DeniedPaths \<Longrightarrow> d \<noteq> ''''"
  by (auto simp: DeniedPaths_def)

lemma denied_leaf:
  "d \<in> set DeniedPaths \<Longrightarrow> prefix (Split d) (Segments l) \<Longrightarrow> IsDeniedPath (Leaf_Path l)"
  using Leaf_Path_beneath [of d l] by (auto simp: IsDeniedPath_iff dest: DeniedPaths_nonempty)

lemma denied_path_not_empty: "\<not> IsDeniedPath ''''"
  by code_simp

lemma ApplyDenylist_ok: "obj_ok m \<Longrightarrow> obj_ok (ApplyDenylist m)"
proof -
  have "obj_ok m \<Longrightarrow> obj_ok (fold (\<lambda>path current. Delete current path) ps m)" for ps
    by (induction ps arbitrary: m)
      (auto simp: Delete_def Let_def deleteSegments_ok simp del: json_ok.simps)
  then show "obj_ok m \<Longrightarrow> obj_ok (ApplyDenylist m)" by (simp add: ApplyDenylist_def)
qed

lemma FilterMetadata_get:
  "gmap_ok m \<Longrightarrow> gmap_get (FilterMetadata m) k = (if IsDeniedMetadataKey k then None else gmap_get m k)"
  by (simp add: FilterMetadata_def gmap_get_filter split: option.splits)

lemma FilterMetadata_ok [simp]: "gmap_ok m \<Longrightarrow> gmap_ok (FilterMetadata m)"
  by (simp add: FilterMetadata_def gmap_ok_filter)

lemma FilterMetadata_idem [simp]: "FilterMetadata (FilterMetadata m) = FilterMetadata m"
  by (simp add: FilterMetadata_def)

lemma FilterMetadata_allowed: "(k, v) \<in> set (FilterMetadata m) \<Longrightarrow> \<not> IsDeniedMetadataKey k"
  by (simp add: FilterMetadata_def)

text \<open>A key is denied by its domain on a whole-label boundary, never on a mere suffix of one.\<close>

lemma IsDeniedMetadataKey_domain:
  assumes "CHR ''/'' \<notin> set domain"
  shows "IsDeniedMetadataKey (domain @ ''/'' @ rest) \<longleftrightarrow>
    domain @ ''/'' @ rest \<in> set deniedMetadataKeys \<or>
    (\<exists>d \<in> set deniedMetadataDomains. domain = d \<or> (\<exists>sub. domain = sub @ ''.'' @ d))"
  using Cut_char_append [OF assms, of rest]
  by (auto simp: IsDeniedMetadataKey_def list_ex_iff HasSuffix_def suffix_def)

lemma IsDeniedMetadataKey_unprefixed:
  "CHR ''/'' \<notin> set key \<Longrightarrow> \<not> IsDeniedMetadataKey key"
  by (auto simp: IsDeniedMetadataKey_def Cut_char_None deniedMetadataKeys_def)

section \<open>Facts about maps inside a Cluster\<close>

lemma enclosing_scan_Some:
  "enclosing_scan C seen rest = Some m \<Longrightarrow>
     NamesMap C m \<and> (m = seen @ rest \<or> HasPrefix (seen @ rest) (m @ ''.''))"
proof (induction C seen rest rule: enclosing_scan.induct)
  case (2 C seen c rest)
  then show ?case by (auto simp: HasPrefix_def split: if_splits)
qed (auto split: if_splits)

lemma EnclosingMap_Some:
  "EnclosingMap C path = Some m \<Longrightarrow> NamesMap C m \<and> (path = m \<or> HasPrefix path (m @ ''.''))"
  using enclosing_scan_Some [of C "''''" path m] by (auto simp: EnclosingMap_def)

lemma elemType_TMap_stop: "through_pointers t = TMap e \<Longrightarrow> elemType t = TMap e"
  by (induction t) auto

lemma walk_type_append:
  "walk_type t (xs @ ys) = (case walk_type t xs of None \<Rightarrow> None | Some u \<Rightarrow> walk_type u ys)"
  by (induction t xs rule: walk_type.induct) (auto split: gtype.splits option.splits)

text \<open>Nothing beneath a map names another map, so the enclosing map is unique.\<close>

lemma NamesMap_not_beneath:
  assumes "NamesMap C m" and "HasPrefix path (m @ ''.'')"
  shows "\<not> NamesMap C path"
proof -
  from assms(2) obtain r where path: "path = m @ ''.'' @ r" by (auto simp: HasPrefix_iff)
  consider "m = ''metadata.labels'' \<or> m = ''metadata.annotations''"
    | rest current e where "m = ''spec.'' @ rest"
      "walk_type (clusterSpecType C) (split_on CHR ''.'' rest) = Some current"
      "through_pointers current = TMap e"
    using assms(1) by (auto simp: NamesMap_def go_str split: if_splits option.splits gtype.splits)
  then show ?thesis
  proof cases
    case 1
    then show ?thesis by (auto simp: path NamesMap_def CutPrefix_def)
  next
    case (2 rest current e)
    have "split_on CHR ''.'' (rest @ ''.'' @ r) = split_on CHR ''.'' rest @ split_on CHR ''.'' r"
    proof (induction rest)
      case (Cons x xs)
      then show ?case by (cases "split_on CHR ''.'' xs") auto
    qed simp
    moreover obtain s ss where "split_on CHR ''.'' r = s # ss" by (cases "split_on CHR ''.'' r") auto
    ultimately have "walk_type (clusterSpecType C) (split_on CHR ''.'' (rest @ ''.'' @ r)) = None"
      using 2 by (simp add: walk_type_append elemType_TMap_stop)
    then show ?thesis unfolding NamesMap_def path 2(1)
      by (auto simp: CutPrefix_def)
  qed
qed

lemma enclosing_scan_hit:
  assumes "NamesMap C m" and "\<And>p r. seen @ rest = p @ ''.'' @ r \<Longrightarrow> length seen \<le> length p \<Longrightarrow> length p < length m \<Longrightarrow> \<not> NamesMap C p"
    and "m = seen @ rest \<or> (\<exists>r. seen @ rest = m @ ''.'' @ r)" and "length seen \<le> length m"
  shows "enclosing_scan C seen rest = Some m"
  using assms
proof (induction C seen rest rule: enclosing_scan.induct)
  case (1 C seen)
  then show ?case by auto
next
  case (2 C seen c rest)
  show ?case
  proof (cases "length seen = length m")
    case True
    with "2.prems"(3) have "m = seen" "c = CHR ''.''" by auto
    with "2.prems"(1) show ?thesis by simp
  next
    case False
    with "2.prems"(4) have less: "length seen < length m" by simp
    have stop: "\<not> (c = CHR ''.'' \<and> NamesMap C seen)"
      using "2.prems"(2) [of seen rest] less by auto
    have "enclosing_scan C (seen @ [c]) rest = Some m"
    proof (rule "2.IH" [OF stop "2.prems"(1)])
      fix p r assume "(seen @ [c]) @ rest = p @ ''.'' @ r" "length (seen @ [c]) \<le> length p" "length p < length m"
      then show "\<not> NamesMap C p" using "2.prems"(2) [of p r] by simp
    qed (use "2.prems"(3) less in auto)
    with stop show ?thesis by auto
  qed
qed

lemma EnclosingMap_beneath:
  assumes "NamesMap C m" and "path = m \<or> HasPrefix path (m @ ''.'')"
  shows "EnclosingMap C path = Some m"
  unfolding EnclosingMap_def
proof (rule enclosing_scan_hit [OF assms(1)])
  fix p r assume path: "'''' @ path = p @ ''.'' @ r" and len: "length p < length m"
  have "HasPrefix m (p @ ''.'')"
    using assms(2) path len by (auto simp: HasPrefix_def prefix_def append_eq_append_conv2 Cons_eq_append_conv)
  with assms(1) show "\<not> NamesMap C p" using NamesMap_not_beneath by blast
qed (use assms(2) in \<open>auto simp: HasPrefix_iff\<close>)

end
