(* ===== verification/Go_Decimal.thy ===== *)
theory Go_Decimal
  imports Go_Prelude
begin

text \<open>
  Decimal text: \<open>strconv.FormatInt\<close>, \<open>strconv.ParseInt\<close> on digit strings and the
  zero-padded verbs of \<open>fmt\<close>. The main facts are the round trip and that fixed-width
  decimals compare as strings the way they compare as numbers.
\<close>

definition is_digit :: "char \<Rightarrow> bool" where
  "is_digit c \<longleftrightarrow> CHR ''0'' \<le> c \<and> c \<le> CHR ''9''"

definition digit :: "nat \<Rightarrow> char" where
  "digit n = char_of (48 + n mod 10)"

definition digit_value :: "char \<Rightarrow> nat" where
  "digit_value c = of_char c - 48"

fun FormatUint :: "nat \<Rightarrow> string" where
  "FormatUint n = (if n < 10 then [digit n] else FormatUint (n div 10) @ [digit n])"

declare FormatUint.simps [simp del]

definition FormatInt :: "int \<Rightarrow> string" where
  "FormatInt i = (if i < 0 then CHR ''-'' # FormatUint (nat (- i)) else FormatUint (nat i))"

text \<open>\<open>%0*d\<close>: the width counts the sign.\<close>

definition pad_to :: "nat \<Rightarrow> string \<Rightarrow> string" where
  "pad_to w s = replicate (w - length s) CHR ''0'' @ s"

definition pad_int :: "nat \<Rightarrow> int \<Rightarrow> string" where
  "pad_int w i = (if i < 0 then CHR ''-'' # pad_to (w - 1) (FormatUint (nat (- i)))
                  else pad_to w (FormatUint (nat i)))"

text \<open>The \<open>w\<close> lowest decimal digits of a number.\<close>

primrec digits :: "nat \<Rightarrow> nat \<Rightarrow> string" where
  "digits 0 n = []"
| "digits (Suc w) n = digits w (n div 10) @ [digit n]"

definition undigits :: "string \<Rightarrow> nat" where
  "undigits s = fold (\<lambda>c n. 10 * n + digit_value c) s 0"

text \<open>\<open>strconv.ParseInt(s, 10, 64)\<close>: an optional sign and digits, refused out of range.\<close>

definition ParseInt64 :: "string \<Rightarrow> error + int" where
  "ParseInt64 s =
     (let (neg, body) = (case s of
            [] \<Rightarrow> (False, [])
          | c # cs \<Rightarrow> if c = CHR ''-'' then (True, cs) else if c = CHR ''+'' then (False, cs)
                      else (False, s));
          i = (if neg then - int (undigits body) else int (undigits body))
      in if body = [] \<or> \<not> list_all is_digit body then Inl (Errorf ''invalid syntax'' [s])
         else if is_int64 i then Inr i
         else Inl (Errorf ''value out of range'' [s]))"

section \<open>Digits\<close>

lemma of_char_digit: "of_char (digit n) = 48 + n mod (10 :: nat)"
proof -
  have "48 + n mod 10 < (256 :: nat)" by linarith
  then show ?thesis by (simp add: digit_def)
qed

lemma digit_value_digit [simp]: "digit_value (digit n) = n mod 10"
  by (simp add: digit_value_def of_char_digit)

lemma char_le_iff: "c \<le> d \<longleftrightarrow> (of_char c :: nat) \<le> of_char d"
  by (simp add: less_eq_char_def)

lemma char_less_iff: "c < d \<longleftrightarrow> (of_char c :: nat) < of_char d"
  by (simp add: less_char_def)

lemma is_digit_digit [simp]: "is_digit (digit n)"
  by (auto simp: is_digit_def char_le_iff of_char_digit)

lemma digit_less: "digit a < digit b \<longleftrightarrow> a mod 10 < b mod 10"
  by (simp add: char_less_iff of_char_digit)

lemma digit_eq: "digit a = digit b \<longleftrightarrow> a mod 10 = b mod 10"
  using digit_less [of a b] digit_less [of b a] by (metis less_irrefl linorder_neqE_nat digit_def)

lemma digit_mod [simp]: "digit (n mod 10) = digit n"
  by (simp add: digit_eq)

lemma is_digit_value: "is_digit c \<Longrightarrow> digit (digit_value c) = c"
proof -
  assume "is_digit c"
  then have "48 \<le> (of_char c :: nat)" "of_char c \<le> (57 :: nat)"
    by (auto simp: is_digit_def char_le_iff)
  then have "48 + (of_char c - 48) mod 10 = (of_char c :: nat)" by simp
  then show ?thesis unfolding digit_def digit_value_def by simp
qed

lemma digit_value_less: "is_digit c \<Longrightarrow> digit_value c < 10"
  by (auto simp: is_digit_def char_le_iff digit_value_def)

lemma not_is_digit [simp]: "\<not> is_digit CHR ''-''" "\<not> is_digit CHR ''+''" "\<not> is_digit CHR ''.''"
  "\<not> is_digit CHR ''T''" "\<not> is_digit CHR ''Z''" "\<not> is_digit CHR ''g''" "\<not> is_digit CHR ''/''"
  by (simp_all add: is_digit_def char_le_iff)

section \<open>Fixed width\<close>

lemma length_digits [simp]: "length (digits w n) = w"
  by (induction w arbitrary: n) auto

lemma digits_are_digits: "c \<in> set (digits w n) \<Longrightarrow> is_digit c"
  by (induction w arbitrary: n) auto

lemma undigits_snoc [simp]: "undigits (s @ [c]) = 10 * undigits s + digit_value c"
  by (simp add: undigits_def)

lemma undigits_Nil [simp]: "undigits [] = 0"
  by (simp add: undigits_def)

lemma undigits_digits: "undigits (digits w n) = n mod 10 ^ w"
proof (induction w arbitrary: n)
  case (Suc w)
  then show ?case by (simp add: mod_mult2_eq)
qed simp

lemma undigits_less: "list_all is_digit s \<Longrightarrow> undigits s < 10 ^ length s"
proof (induction s rule: rev_induct)
  case (snoc c s)
  then have "undigits s < 10 ^ length s" "digit_value c < 10"
    by (auto simp: digit_value_less)
  then show ?case by simp
qed simp

lemma digits_undigits: "list_all is_digit s \<Longrightarrow> digits (length s) (undigits s) = s"
proof (induction s rule: rev_induct)
  case (snoc c s)
  then have "digit_value c < 10" "digit (digit_value c) = c"
    by (auto simp: digit_value_less is_digit_value)
  then have "digit (10 * undigits s + digit_value c) = c"
    by (metis digit_mod mod_mult_self4)
  with snoc \<open>digit_value c < 10\<close> show ?case by simp
qed simp

lemma append_less_append:
  fixes a a' b b' :: "'a :: linorder list"
  shows "length a = length a' \<Longrightarrow> a @ b < a' @ b' \<longleftrightarrow> a < a' \<or> (a = a' \<and> b < b')"
proof (induction a arbitrary: a')
  case (Cons x a)
  then show ?case by (cases a') auto
qed simp

lemma digits_eq:
  assumes "a < 10 ^ w" "b < 10 ^ w"
  shows "digits w a = digits w b \<longleftrightarrow> a = b"
proof
  assume "digits w a = digits w b"
  then have "a mod 10 ^ w = b mod 10 ^ w" by (metis undigits_digits)
  with assms show "a = b" by simp
qed simp

lemma div_mod_less:
  fixes a b :: nat
  shows "a div 10 < b div 10 \<or> (a div 10 = b div 10 \<and> a mod 10 < b mod 10) \<longleftrightarrow> a < b"
  using div_mult_mod_eq [of a 10] div_mult_mod_eq [of b 10] mod_less_divisor [of 10 a]
    mod_less_divisor [of 10 b] by linarith

lemma digits_less: "a < 10 ^ w \<Longrightarrow> b < 10 ^ w \<Longrightarrow> digits w a < digits w b \<longleftrightarrow> a < b"
proof (induction w arbitrary: a b)
  case (Suc w)
  have IH: "digits w (a div 10) < digits w (b div 10) \<longleftrightarrow> a div 10 < b div 10"
    using Suc by (simp add: less_mult_imp_div_less mult.commute)
  have "a div 10 < 10 ^ w" "b div 10 < 10 ^ w"
    using Suc.prems by (simp_all add: less_mult_imp_div_less mult.commute)
  then have eq: "digits w (a div 10) = digits w (b div 10) \<longleftrightarrow> a div 10 = b div 10"
    by (rule digits_eq)
  have "digits (Suc w) a < digits (Suc w) b \<longleftrightarrow>
      a div 10 < b div 10 \<or> (a div 10 = b div 10 \<and> a mod 10 < b mod 10)"
    by (simp add: append_less_append IH eq digit_less)
  also have "\<dots> \<longleftrightarrow> a < b" by (rule div_mod_less)
  finally show ?case .
qed simp



section \<open>Free width\<close>

lemma FormatUint_nonempty [simp]: "FormatUint n \<noteq> []"
  by (subst FormatUint.simps) simp

lemma FormatUint_digits: "n < 10 ^ w \<Longrightarrow> 0 < w \<Longrightarrow>
    length (FormatUint n) \<le> w \<and> pad_to w (FormatUint n) = digits w n"
proof (induction n arbitrary: w rule: FormatUint.induct)
  case (1 n)
  obtain v where w: "w = Suc v" using "1.prems"(2) by (cases w) auto
  show ?case
  proof (cases "n < 10")
    case True
    have "digits v 0 = replicate v CHR ''0''"
    proof (induction v)
      case (Suc v)
      have "digit 0 = CHR ''0''" by code_simp
      with Suc show ?case by (simp add: replicate_append_same flip: replicate_Suc)
    qed simp
    with True w show ?thesis by (simp add: FormatUint.simps [of n] pad_to_def)
  next
    case False
    have "n div 10 < 10 ^ v" using "1.prems" w by (simp add: less_mult_imp_div_less mult.commute)
    moreover have "0 < v" using False "1.prems" w by (cases v) auto
    ultimately have "length (FormatUint (n div 10)) \<le> v"
      "pad_to v (FormatUint (n div 10)) = digits v (n div 10)"
      using "1.IH" [OF False] by blast+
    with False w show ?thesis by (auto simp: FormatUint.simps [of n] pad_to_def)
  qed
qed

lemma pad_int_digits: "0 \<le> i \<Longrightarrow> i < 10 ^ w \<Longrightarrow> 0 < w \<Longrightarrow> pad_int w i = digits w (nat i)"
  using FormatUint_digits [of "nat i" w] by (auto simp: pad_int_def nat_less_iff)

lemma undigits_FormatUint [simp]: "undigits (FormatUint n) = n"
proof (induction n rule: FormatUint.induct)
  case (1 n)
  then show ?case by (cases "n < 10") (simp_all add: FormatUint.simps [of n] undigits_def)
qed

lemma FormatUint_is_digits [simp]: "list_all is_digit (FormatUint n)"
proof (induction n rule: FormatUint.induct)
  case (1 n)
  then show ?case by (cases "n < 10") (simp_all add: FormatUint.simps [of n])
qed

lemma FormatUint_no_sign: "FormatUint n = c # cs \<Longrightarrow> c \<noteq> CHR ''-'' \<and> c \<noteq> CHR ''+''"
  using FormatUint_is_digits [of n] by auto

text \<open>Printing an \<open>int64\<close> and parsing it back gives the same number.\<close>

lemma ParseInt64_FormatInt: "is_int64 i \<Longrightarrow> ParseInt64 (FormatInt i) = Inr i"
proof (cases "i < 0")
  case True
  assume "is_int64 i"
  with True show ?thesis by (simp add: FormatInt_def ParseInt64_def)
next
  case False
  assume ok: "is_int64 i"
  obtain c cs where cs: "FormatUint (nat i) = c # cs" by (cases "FormatUint (nat i)") auto
  have "undigits (c # cs) = nat i" "list_all is_digit (c # cs)"
    using undigits_FormatUint [of "nat i"] FormatUint_is_digits [of "nat i"] unfolding cs by auto
  with ok False FormatUint_no_sign [OF cs] show ?thesis
    by (simp add: FormatInt_def ParseInt64_def cs)
qed

end
