(* ===== verification/Go_Calendar.thy ===== *)
theory Go_Calendar
  imports Go_Decimal
begin

text \<open>
  Package \<open>time\<close> as far as the plugin uses it. A \<open>time.Time\<close> is the number of
  nanoseconds since the zero time, 1 January of year 1, UTC; \<open>IsZero\<close>, \<open>Before\<close> and
  \<open>After\<close> are then equality with 0 and the integer order. A \<open>time.Duration\<close> is an
  \<open>int64\<close> of nanoseconds and wraps as one.

  The calendar is the proleptic Gregorian one; \<open>civil_from_days\<close> and \<open>days_from_civil\<close>
  are inverse to each other, and so are reading a clock and setting it.
\<close>

type_synonym time = int

definition nanos_per_second :: int where "nanos_per_second = 1000000000"

definition seconds_per_day :: int where "seconds_per_day = 86400"

section \<open>The calendar\<close>

definition is_leap :: "int \<Rightarrow> bool" where
  "is_leap y \<longleftrightarrow> y mod 4 = 0 \<and> (y mod 100 \<noteq> 0 \<or> y mod 400 = 0)"

text \<open>Days from 1 January of year 1 to 1 January of year \<open>y\<close>.\<close>

definition days_before_year :: "int \<Rightarrow> int" where
  "days_before_year y = 365 * (y - 1) + (y - 1) div 4 - (y - 1) div 100 + (y - 1) div 400"

definition days_before_month :: "int \<Rightarrow> int \<Rightarrow> int" where
  "days_before_month y m =
     (if m \<le> 1 then 0 else if m = 2 then 31 else
      (if m = 3 then 59 else if m = 4 then 90 else if m = 5 then 120 else if m = 6 then 151
       else if m = 7 then 181 else if m = 8 then 212 else if m = 9 then 243
       else if m = 10 then 273 else if m = 11 then 304 else if m = 12 then 334 else 365)
      + (if is_leap y then 1 else 0))"

definition valid_date :: "int \<Rightarrow> int \<Rightarrow> int \<Rightarrow> bool" where
  "valid_date y m d \<longleftrightarrow> 1 \<le> m \<and> m \<le> 12 \<and> 1 \<le> d \<and>
     d \<le> days_before_month y (m + 1) - days_before_month y m"

definition days_from_civil :: "int \<Rightarrow> int \<Rightarrow> int \<Rightarrow> int" where
  "days_from_civil y m d = days_before_year y + days_before_month y m + d - 1"

definition year_of_days :: "int \<Rightarrow> int" where
  "year_of_days n =
     (let c400 = n div 146097; r400 = n mod 146097;
          c100 = min (r400 div 36524) 3; r100 = r400 - 36524 * c100;
          c4 = r100 div 1461; r4 = r100 mod 1461;
          c1 = min (r4 div 365) 3
      in 400 * c400 + 100 * c100 + 4 * c4 + c1 + 1)"

definition month_of_yday :: "int \<Rightarrow> int \<Rightarrow> int" where
  "month_of_yday y yday =
     (if yday < days_before_month y 2 then 1 else if yday < days_before_month y 3 then 2
      else if yday < days_before_month y 4 then 3 else if yday < days_before_month y 5 then 4
      else if yday < days_before_month y 6 then 5 else if yday < days_before_month y 7 then 6
      else if yday < days_before_month y 8 then 7 else if yday < days_before_month y 9 then 8
      else if yday < days_before_month y 10 then 9 else if yday < days_before_month y 11 then 10
      else if yday < days_before_month y 12 then 11 else 12)"

definition civil_from_days :: "int \<Rightarrow> int \<times> int \<times> int" where
  "civil_from_days n =
     (let y = year_of_days n; yday = n - days_before_year y; m = month_of_yday y yday
      in (y, m, yday - days_before_month y m + 1))"

lemma days_before_year_decomp:
  assumes "0 \<le> b" "b \<le> 3" "0 \<le> c" "c \<le> 24" "0 \<le> e" "e \<le> 3"
  shows "days_before_year (400 * a + 100 * b + 4 * c + e + 1) = 146097 * a + 36524 * b + 1461 * c + 365 * e"
proof -
  let ?z = "400 * a + 100 * b + 4 * c + e"
  have "?z div 4 = 100 * a + 25 * b + c" by (rule int_div_pos_eq [where r = e]) (use assms in auto)
  moreover have "?z div 100 = 4 * a + b"
    by (rule int_div_pos_eq [where r = "4 * c + e"]) (use assms in auto)
  moreover have "?z div 400 = a"
    by (rule int_div_pos_eq [where r = "100 * b + 4 * c + e"]) (use assms in auto)
  ultimately show ?thesis by (simp add: days_before_year_def)
qed

lemma is_leap_decomp:
  assumes "0 \<le> b" "b \<le> 3" "0 \<le> c" "c \<le> 24"
  shows "is_leap (400 * a + 100 * b + 4 * c + 4) \<longleftrightarrow> c < 24 \<or> b = 3"
proof -
  let ?y = "400 * a + 100 * b + 4 * c + 4"
  have y4: "?y mod 4 = 0" by presburger
  have "?y = (4 * c + 4) + 100 * (4 * a + b)" by simp
  then have y100: "?y mod 100 = (4 * c + 4) mod 100" by (simp only: mod_mult_self2)
  have "?y = (100 * b + 4 * c + 4) + 400 * a" by simp
  then have y400: "?y mod 400 = (100 * b + 4 * c + 4) mod 400" by (simp only: mod_mult_self2)
  show ?thesis
  proof (cases "c < 24")
    case True
    with assms y4 y100 show ?thesis by (simp add: is_leap_def)
  next
    case False
    with assms have "c = 24" by simp
    with assms y4 y100 y400 show ?thesis by (cases "b = 3") (simp_all add: is_leap_def)
  qed
qed

text \<open>The year found contains the day, and the day of the year is within it.\<close>

lemma year_of_days_bounds:
  "0 \<le> n - days_before_year (year_of_days n) \<and>
   n - days_before_year (year_of_days n) < days_before_month (year_of_days n) 13"
proof -
  define a where "a = n div 146097"
  define r where "r = n mod 146097"
  define b where "b = min (r div 36524) 3"
  define s where "s = r - 36524 * b"
  define c where "c = s div 1461"
  define t where "t = s mod 1461"
  define e where "e = min (t div 365) 3"
  have year: "year_of_days n = 400 * a + 100 * b + 4 * c + e + 1"
    by (simp add: year_of_days_def Let_def a_def r_def b_def s_def c_def t_def e_def)
  have n: "n = 146097 * a + r" and r: "0 \<le> r" "r < 146097" by (simp_all add: a_def r_def)
  have b: "0 \<le> b" "b \<le> 3" using r by (auto simp: b_def pos_imp_zdiv_nonneg_iff)
  have s: "0 \<le> s" "s \<le> 36524" "s = 36524 \<Longrightarrow> b = 3"
    using r by (auto simp: s_def b_def min_def)
  have st: "s = 1461 * c + t" and t: "0 \<le> t" "t < 1461" by (simp_all add: c_def t_def)
  have c: "0 \<le> c" "c \<le> 24" using s st t by auto
  have e: "0 \<le> e" "e \<le> 3" using t by (auto simp: e_def pos_imp_zdiv_nonneg_iff)
  have te: "365 * e \<le> t" "t - 365 * e \<le> 365" "t - 365 * e = 365 \<Longrightarrow> e = 3 \<and> t = 1460"
    using t by (auto simp: e_def min_def)
  have yday: "n - days_before_year (year_of_days n) = t - 365 * e"
    unfolding year days_before_year_decomp [OF b c e] using n st by (simp add: s_def)
  have "is_leap (year_of_days n)" if last: "t - 365 * e = 365"
  proof -
    from te(3) [OF last] have "e = 3" "t = 1460" by auto
    moreover have "b = 3" if "c = 24" by (rule s(3)) (use st \<open>t = 1460\<close> that in simp)
    then have "c < 24 \<or> b = 3" using c by linarith
    ultimately show ?thesis unfolding year using is_leap_decomp [OF b c, of a] by (simp add: algebra_simps)
  qed
  then have "t - 365 * e < days_before_month (year_of_days n) 13"
    using te(2) by (cases "t - 365 * e = 365") (auto simp: days_before_month_def)
  with te(1) yday show ?thesis by simp
qed

lemma days_before_month_mono:
  assumes "1 \<le> m" "m < m'" "m' \<le> 13"
  shows "days_before_month y (m + 1) \<le> days_before_month y m'"
proof -
  have "m + 1 \<le> m'" using assms by simp
  then show ?thesis using assms(3)
  proof (induction m' rule: int_ge_induct)
    case (step i)
    moreover have "days_before_month y i \<le> days_before_month y (i + 1)"
      using step assms(1) by (simp add: days_before_month_def)
    ultimately show ?case by simp
  qed simp
qed

lemma month_of_yday_bounds:
  assumes "0 \<le> yday" "yday < days_before_month y 13"
  shows "1 \<le> month_of_yday y yday \<and> month_of_yday y yday \<le> 12 \<and>
    days_before_month y (month_of_yday y yday) \<le> yday \<and>
    yday < days_before_month y (month_of_yday y yday + 1)"
  using assms by (auto simp: month_of_yday_def days_before_month_def)

lemma civil_from_days_correct:
  assumes "civil_from_days n = (y, m, d)"
  shows "valid_date y m d \<and> days_from_civil y m d = n"
  using assms year_of_days_bounds [of n] month_of_yday_bounds [of "n - days_before_year y" y]
  by (auto simp: civil_from_days_def Let_def valid_date_def days_from_civil_def)

lemma div_pred:
  fixes y k :: int
  assumes "0 < k"
  shows "y div k = (y - 1) div k + (if y mod k = 0 then 1 else 0)"
proof (cases "y mod k = 0")
  case True
  have "(y - 1) div k = y div k - 1"
    by (rule int_div_pos_eq [where r = "k - 1"])
      (use True assms div_mult_mod_eq [of y k] in \<open>auto simp: algebra_simps\<close>)
  with True show ?thesis by simp
next
  case False
  have "(y - 1) div k = y div k"
    by (rule int_div_pos_eq [where r = "y mod k - 1"])
      (use False assms div_mult_mod_eq [of y k] pos_mod_sign [OF assms, of y] pos_mod_bound [OF assms, of y]
        in \<open>auto simp: algebra_simps\<close>)
  with False show ?thesis by simp
qed

lemma days_before_year_Suc:
  "days_before_year (y + 1) = days_before_year y + days_before_month y 13"
proof -
  have pred: "y div 4 = (y - 1) div 4 + (if y mod 4 = 0 then 1 else 0)"
    "y div 100 = (y - 1) div 100 + (if y mod 100 = 0 then 1 else 0)"
    "y div 400 = (y - 1) div 400 + (if y mod 400 = 0 then 1 else 0)"
    by (rule div_pred; simp)+
  have "y mod 100 = 0" if "y mod 400 = 0"
    using that mod_mod_cancel [of 100 400 y] by simp
  moreover have "y mod 4 = 0" if "y mod 100 = 0"
    using that mod_mod_cancel [of 4 100 y] by simp
  ultimately have "(if y mod 4 = 0 then 1 else 0) - (if y mod 100 = 0 then 1 else 0)
      + (if y mod 400 = 0 then 1 else 0) = (if is_leap y then 1 else (0 :: int))"
    by (cases "y mod 400 = 0"; cases "y mod 100 = 0"; cases "y mod 4 = 0") (simp_all add: is_leap_def)
  then show ?thesis unfolding days_before_year_def days_before_month_def add_diff_cancel_right' pred
    by simp
qed

lemma days_before_year_mono: "y \<le> y' \<Longrightarrow> days_before_year y \<le> days_before_year y'"
proof (induction y' rule: int_ge_induct)
  case (step i)
  then show ?case using days_before_year_Suc [of i] by (simp add: days_before_month_def)
qed simp

text \<open>Later dates are later days.\<close>

lemma days_from_civil_mono:
  assumes "valid_date y m d" "valid_date y' m' d'"
    and "y < y' \<or> (y = y' \<and> (m < m' \<or> (m = m' \<and> d < d')))"
  shows "days_from_civil y m d < days_from_civil y' m' d'"
proof -
  have end_of_year: "days_before_month y m + d \<le> days_before_month y 13"
  proof (cases "m = 12")
    case False
    with assms(1) days_before_month_mono [of m 13 y] show ?thesis by (simp add: valid_date_def)
  qed (use assms(1) in \<open>simp add: valid_date_def\<close>)
  have start: "0 \<le> days_before_month y' m'" by (simp add: days_before_month_def)
  consider "y < y'" | "y = y'" "m < m'" | "y = y'" "m = m'" "d < d'" using assms(3) by blast
  then show ?thesis
  proof cases
    case 1
    then have "days_before_year y + days_before_month y 13 \<le> days_before_year y'"
      using days_before_year_mono [of "y + 1" y'] by (simp add: days_before_year_Suc)
    with end_of_year start assms(2) show ?thesis by (simp add: days_from_civil_def valid_date_def)
  next
    case 2
    then have "days_before_month y (m + 1) \<le> days_before_month y m'"
      using assms by (intro days_before_month_mono) (auto simp: valid_date_def)
    with 2 assms show ?thesis by (simp add: days_from_civil_def valid_date_def)
  qed (simp add: days_from_civil_def)
qed

lemma civil_from_days_inverse:
  assumes "valid_date y m d"
  shows "civil_from_days (days_from_civil y m d) = (y, m, d)"
proof -
  obtain y' m' d' where eq: "civil_from_days (days_from_civil y m d) = (y', m', d')"
    by (cases "civil_from_days (days_from_civil y m d)") auto
  then have "valid_date y' m' d'" "days_from_civil y' m' d' = days_from_civil y m d"
    using civil_from_days_correct by auto
  with assms have "\<not> (y < y' \<or> (y = y' \<and> (m < m' \<or> (m = m' \<and> d < d'))))"
    "\<not> (y' < y \<or> (y' = y \<and> (m' < m \<or> (m' = m \<and> d' < d))))"
    using days_from_civil_mono [of y m d y' m' d'] days_from_civil_mono [of y' m' d' y m d] by auto
  then have "y' = y" "m' = m" "d' = d" by linarith+
  with eq show ?thesis by simp
qed

section \<open>Clock readings\<close>

text \<open>Year, month, day, hour, minute and second of a moment, in UTC.\<close>

type_synonym clock = "int \<times> int \<times> int \<times> int \<times> int \<times> int"

definition clock_of_seconds :: "int \<Rightarrow> clock" where
  "clock_of_seconds s =
     (let (y, m, d) = civil_from_days (s div 86400); sod = s mod 86400
      in (y, m, d, sod div 3600, sod div 60 mod 60, sod mod 60))"

fun seconds_of_clock :: "clock \<Rightarrow> int" where
  "seconds_of_clock (y, m, d, hh, mi, ss) = days_from_civil y m d * 86400 + hh * 3600 + mi * 60 + ss"

fun valid_clock :: "clock \<Rightarrow> bool" where
  "valid_clock (y, m, d, hh, mi, ss) =
     (valid_date y m d \<and> 0 \<le> hh \<and> hh < 24 \<and> 0 \<le> mi \<and> mi < 60 \<and> 0 \<le> ss \<and> ss < 60)"

fun clock_less :: "clock \<Rightarrow> clock \<Rightarrow> bool" where
  "clock_less (y, m, d, hh, mi, ss) (y', m', d', hh', mi', ss') =
     (y < y' \<or> (y = y' \<and> (m < m' \<or> (m = m' \<and> (d < d' \<or> (d = d' \<and>
       (hh < hh' \<or> (hh = hh' \<and> (mi < mi' \<or> (mi = mi' \<and> ss < ss'))))))))))"

lemma sod_decomp:
  fixes sod :: int
  shows "sod div 3600 * 3600 + sod div 60 mod 60 * 60 + sod mod 60 = sod"
proof -
  have "sod div 60 div 60 = sod div 3600" by (simp add: zdiv_zmult2_eq)
  then show ?thesis
    using div_mult_mod_eq [of sod 60] div_mult_mod_eq [of "sod div 60" 60] by linarith
qed

lemma clock_of_seconds_correct:
  "valid_clock (clock_of_seconds s) \<and> seconds_of_clock (clock_of_seconds s) = s"
proof -
  obtain y m d where c: "civil_from_days (s div 86400) = (y, m, d)"
    by (cases "civil_from_days (s div 86400)") auto
  define sod where "sod = s mod 86400"
  have sod: "0 \<le> sod" "sod < 86400" by (simp_all add: sod_def)
  then have "0 \<le> sod div 3600" "sod div 3600 < 24"
    using div_mult_mod_eq [of sod 3600] pos_mod_sign [of 3600 sod] pos_mod_bound [of 3600 sod]
    by linarith+
  moreover have "0 \<le> sod div 60 mod 60" "sod div 60 mod 60 < 60" "0 \<le> sod mod 60" "sod mod 60 < 60"
    by simp_all
  moreover note civil_from_days_correct [OF c]
  moreover have "s div 86400 * 86400 + sod = s" by (simp add: sod_def)
  with sod_decomp [of sod]
  have "s div 86400 * 86400 + sod div 3600 * 3600 + sod div 60 mod 60 * 60 + sod mod 60 = s" by linarith
  moreover have "clock_of_seconds s = (y, m, d, sod div 3600, sod div 60 mod 60, sod mod 60)"
    unfolding clock_of_seconds_def c Let_def sod_def prod.case by (rule refl)
  ultimately show ?thesis by (simp only: valid_clock.simps seconds_of_clock.simps simp_thms)
qed

lemma clock_less_seconds:
  assumes "valid_clock a" "valid_clock b" "clock_less a b"
  shows "seconds_of_clock a < seconds_of_clock b"
proof -
  obtain y m d hh mi ss where a: "a = (y, m, d, hh, mi, ss)" by (cases a) auto
  obtain y' m' d' hh' mi' ss' where b: "b = (y', m', d', hh', mi', ss')" by (cases b) auto
  define D where "D = days_from_civil y m d"
  define D' where "D' = days_from_civil y' m' d'"
  have va: "valid_date y m d" "0 \<le> hh" "hh < 24" "0 \<le> mi" "mi < 60" "0 \<le> ss" "ss < 60"
    using assms(1) by (simp_all add: a)
  have vb: "valid_date y' m' d'" "0 \<le> hh'" "hh' < 24" "0 \<le> mi'" "mi' < 60" "0 \<le> ss'" "ss' < 60"
    using assms(2) by (simp_all add: b)
  consider "y < y' \<or> (y = y' \<and> (m < m' \<or> (m = m' \<and> d < d')))"
    | "D = D'" "hh < hh' \<or> (hh = hh' \<and> (mi < mi' \<or> (mi = mi' \<and> ss < ss')))"
    using assms(3) by (auto simp: a b D_def D'_def)
  then have "D * 86400 + hh * 3600 + mi * 60 + ss < D' * 86400 + hh' * 3600 + mi' * 60 + ss'"
  proof cases
    case 1
    then have "D < D'" unfolding D_def D'_def by (rule days_from_civil_mono [OF va(1) vb(1)])
    with va vb show ?thesis by linarith
  next
    case 2
    with va vb show ?thesis by linarith
  qed
  then show ?thesis by (simp add: a b D_def D'_def)
qed

lemma clock_less_linear: "a = b \<or> clock_less a b \<or> clock_less b a"
  by (cases a; cases b) auto

lemma clock_less_iff:
  "clock_less (clock_of_seconds s) (clock_of_seconds t) \<longleftrightarrow> s < t"
  using clock_less_seconds [of "clock_of_seconds s" "clock_of_seconds t"]
    clock_less_seconds [of "clock_of_seconds t" "clock_of_seconds s"]
    clock_of_seconds_correct [of s] clock_of_seconds_correct [of t]
    clock_less_linear [of "clock_of_seconds s" "clock_of_seconds t"]
  by (metis less_asym less_irrefl)

lemma clock_of_seconds_inverse: "valid_clock c \<Longrightarrow> clock_of_seconds (seconds_of_clock c) = c"
  using clock_less_linear [of "clock_of_seconds (seconds_of_clock c)" c]
    clock_less_seconds [of "clock_of_seconds (seconds_of_clock c)" c]
    clock_less_seconds [of c "clock_of_seconds (seconds_of_clock c)"]
    clock_of_seconds_correct [of "seconds_of_clock c"]
  by auto

text \<open>The moments whose year has four digits.\<close>

definition four_digit_year :: "time \<Rightarrow> bool" where
  "four_digit_year t \<longleftrightarrow> 0 \<le> t \<and> t < days_before_year 10000 * 86400 * nanos_per_second"

lemma int_div_less:
  assumes "0 < (c :: int)" "t < k * c" shows "t div c < k"
proof (rule ccontr)
  assume "\<not> t div c < k"
  then have "k * c \<le> t div c * c" using assms(1) by simp
  with assms(2) div_mult_mod_eq [of t c] pos_mod_sign [OF assms(1), of t] show False by linarith
qed

lemma four_digit_year_year:
  assumes "four_digit_year t" "clock_of_seconds (t div nanos_per_second) = (y, m, d, hh, mi, ss)"
  shows "1 \<le> y \<and> y \<le> 9999"
proof -
  define n where "n = t div nanos_per_second div 86400"
  define k where "k = t div nanos_per_second"
  have t: "0 \<le> t" "t < 315537897600 * 1000000000"
    using assms(1) by (simp_all add: four_digit_year_def days_before_year_def nanos_per_second_def)
  then have k: "0 \<le> k" "k < 3652059 * 86400"
    unfolding k_def nanos_per_second_def by (simp_all add: pos_imp_zdiv_nonneg_iff int_div_less)
  have "0 \<le> n" "n < 3652059"
    using k unfolding n_def k_def [symmetric] by (simp_all add: pos_imp_zdiv_nonneg_iff int_div_less)
  then have n: "0 \<le> n" "n < days_before_year 10000" by (simp_all add: days_before_year_def)
  have y: "y = year_of_days n"
    using assms(2) by (auto simp: clock_of_seconds_def civil_from_days_def Let_def n_def)
  note b = year_of_days_bounds [of n, folded y]
  have "y < 10000" using b n days_before_year_mono [of 10000 y] by linarith
  moreover have "0 < y"
    using b n days_before_year_mono [of "y + 1" 1] days_before_year_Suc [of y]
    by (cases "0 < y") (auto simp: days_before_year_def)
  ultimately show ?thesis by simp
qed

end
