(* ===== verification/Api_Types.thy ===== *)
theory Api_Types
  imports Capture_Rules Go_Calendar
begin

text \<open>
  The custom resources of \<open>api/v1\<close>: ConfigStore, RestorePolicy and the object store
  configuration, with the getters that decide defaults and \<open>ParseRetentionWindow\<close>. Kubernetes
  object metadata is reduced to name and namespace; an optional pointer is an \<open>option\<close>. Enumerated
  string types stay strings, as in the source.
\<close>

text \<open>\<open>%q\<close> in messages, for names with nothing to escape.\<close>

definition quoted :: "string \<Rightarrow> string" where
  "quoted s = CHR 0x22 # s @ [CHR 0x22]"

section \<open>ConfigStore\<close>

definition DefaultPrefix :: string where
  "DefaultPrefix = ''chronicle''"

definition RetentionForever :: string where
  "RetentionForever = ''Forever''"

definition RetentionInherit :: string where
  "RetentionInherit = ''InheritFromObjectStore''"

record SecretKeySelector =
  Secret_Name :: string
  Secret_Key :: string

record S3Credentials =
  AccessKeyID :: "SecretKeySelector option"
  SecretAccessKey :: "SecretKeySelector option"
  Region :: "SecretKeySelector option"
  SessionToken :: "SecretKeySelector option"
  InheritFromIAMRole :: bool

record ObjectStoreConfiguration =
  DestinationPath :: string
  EndpointURL :: string
  EndpointCA :: "SecretKeySelector option"
  S3Credentials_of :: "S3Credentials option"

record ConfigStore =
  Store_Name :: string
  Store_Namespace :: string
  DerivedFrom :: "string option"
  Configuration :: "ObjectStoreConfiguration option"
  Retention :: string
  CaptureGroups :: "string list"
  Store_Prefix :: string

definition GetRetention :: "ConfigStore \<Rightarrow> string" where
  "GetRetention s = (if Retention s = '''' then RetentionForever else Retention s)"

definition GetCaptureGroups :: "ConfigStore \<Rightarrow> string list" where
  "GetCaptureGroups s = CaptureGroups s"

definition GetPrefix :: "ConfigStore \<Rightarrow> string" where
  "GetPrefix s = (if Store_Prefix s = '''' then DefaultPrefix else Store_Prefix s)"

text \<open>\<open>24 * time.Hour\<close> in nanoseconds. The products are \<open>int64\<close> and wrap, left to right.\<close>

definition day :: int where
  "day = 86400000000000"

definition ParseRetentionWindow :: "string \<Rightarrow> error + int" where
  "ParseRetentionWindow value =
     (let bad = Inl (Errorf ''retention is not a duration like 30d, 4w or 6m'' [value]) in
      if length value < 2 then bad
      else (case ParseInt64 (butlast value) of
              Inl _ \<Rightarrow> bad
            | Inr count \<Rightarrow>
                if count < 1 then bad
                else if last value = CHR ''d'' then Inr (int64 (count * day))
                else if last value = CHR ''w'' then Inr (int64 (int64 (count * 7) * day))
                else if last value = CHR ''m'' then Inr (int64 (int64 (count * 30) * day))
                else Inl (Errorf ''retention has an unknown unit'' [value])))"

section \<open>RestorePolicy\<close>

definition SelectLatest :: string where "SelectLatest = ''Latest''"
definition SelectGeneration :: string where "SelectGeneration = ''Generation''"
definition SelectTimestamp :: string where "SelectTimestamp = ''Timestamp''"
definition SelectAlignWithRecoveryTarget :: string where
  "SelectAlignWithRecoveryTarget = ''AlignWithRecoveryTarget''"

definition UnresolvableFail :: string where "UnresolvableFail = ''Fail''"
definition UnresolvableUseLatest :: string where "UnresolvableUseLatest = ''UseLatest''"
definition MissingFail :: string where "MissingFail = ''Fail''"
definition MissingIgnore :: string where "MissingIgnore = ''Ignore''"

record RestoreSelect =
  Mode :: string
  Sel_Generation :: "int option"
  Sel_Timestamp :: "time option"
  OnUnresolvable :: string

record SkipRule =
  Skip_Group :: string
  Skip_Path :: string
  KeyPrefix :: string
  Except :: "string list"

record TransformRule =
  Transform_Path :: string
  OnMissing :: string
  Expression :: string

record RestorePolicy =
  Policy_Name :: string
  Select_of :: RestoreSelect
  Skip :: "SkipRule list"
  Transform :: "TransformRule list"

definition GetMode :: "RestorePolicy option \<Rightarrow> string" where
  "GetMode r = (case r of None \<Rightarrow> '''' | Some r \<Rightarrow> Mode (Select_of r))"

definition ResolveMode :: "RestorePolicy option \<Rightarrow> bool \<Rightarrow> string" where
  "ResolveMode policy bootstrapsFromRecovery =
     (if GetMode policy \<noteq> '''' then GetMode policy
      else if bootstrapsFromRecovery then SelectAlignWithRecoveryTarget
      else SelectLatest)"

definition GetOnUnresolvable :: "RestorePolicy option \<Rightarrow> string" where
  "GetOnUnresolvable r =
     (case r of
        None \<Rightarrow> UnresolvableFail
      | Some r \<Rightarrow> if OnUnresolvable (Select_of r) = '''' then UnresolvableFail else OnUnresolvable (Select_of r))"

section \<open>Retention windows\<close>

definition unit_days :: "char \<Rightarrow> int" where
  "unit_days u = (if u = CHR ''d'' then 1 else if u = CHR ''w'' then 7 else if u = CHR ''m'' then 30 else 0)"

text \<open>
  Within the range of a duration (a little over 292 years) the window is the number of days
  asked for.
\<close>

lemma ParseRetentionWindow_days:
  assumes "unit_days u \<noteq> 0" "1 \<le> n" "is_int64 n"
  shows "ParseRetentionWindow (FormatInt n @ [u]) = Inr (int64 (n * unit_days u * day))"
proof -
  have u: "u = CHR ''d'' \<and> unit_days u = 1 \<or> u = CHR ''w'' \<and> unit_days u = 7 \<or> u = CHR ''m'' \<and> unit_days u = 30"
    using assms(1) by (auto simp: unit_days_def split: if_splits)
  have "FormatInt n \<noteq> []" by (simp add: FormatInt_def)
  then have "\<not> length (FormatInt n @ [u]) < 2" by (cases "FormatInt n") auto
  then show ?thesis
    using u assms(2,3) by (auto simp: ParseRetentionWindow_def ParseInt64_FormatInt int64_mult Let_def)
qed

end
