(* ===== verification/Restore_Rules.thy ===== *)
theory Restore_Rules
  imports Api_Types
begin

text \<open>
  \<open>internal/restore/skip.go\<close> and \<open>transform.go\<close>: the compiled skip and transform rules of a
  policy. A nil set, which the code allows, is the empty one.

  Expressions are CEL. Compiling and running one is the parameter \<open>celenv\<close>: whether
  \<open>celenv.New\<close> fails, what \<open>celenv.Compile\<close> makes of a text, and what \<open>Program.Evaluate\<close> makes of a
  captured value and whether its path holds a quantity. \<open>Cel_Environment\<close> gives the code's own.
\<close>

section \<open>Skip rules\<close>

record skipRule =
  rule_path :: string
  exact :: bool
  keyed :: bool
  keyPrefix :: string
  except :: "string list"
  reason :: string

type_synonym SkipSet = "skipRule list"

definition is_keyed :: "SkipRule \<Rightarrow> bool" where
  "is_keyed rule \<longleftrightarrow> KeyPrefix rule \<noteq> '''' \<or> Except rule \<noteq> []"

definition plain_rule :: "string \<Rightarrow> string \<Rightarrow> skipRule" where
  "plain_rule path why = \<lparr>rule_path = path, exact = False, keyed = False, keyPrefix = '''', except = [], reason = why\<rparr>"

definition compilePathRule :: "cnpg \<Rightarrow> SkipRule \<Rightarrow> error + skipRule" where
  "compilePathRule C rule =
     (let path = TrimSuffix (Skip_Path rule) ''.*'';
          enclosing = EnclosingMap C path;
          why = ''path '' @ path
            @ (if is_keyed rule \<and> KeyPrefix rule \<noteq> '''' then '', keys prefixed '' @ KeyPrefix rule else '''')
            @ (if is_keyed rule \<and> Except rule \<noteq> [] then '', except '' @ Join (Except rule) '', '' else '''')
      in if is_keyed rule \<and> \<not> NamesMap C path
         then Inl (Errorf ''skip rule sets keyPrefix or except, which apply only to a path naming a map'' [path])
         else Inr \<lparr>rule_path = path,
                   exact = (case enclosing of None \<Rightarrow> False | Some m \<Rightarrow> path \<noteq> m),
                   keyed = is_keyed rule, keyPrefix = KeyPrefix rule, except = Except rule, reason = why\<rparr>)"

definition group_rules :: "Group \<Rightarrow> skipRule list" where
  "group_rules g =
     (let why = ''group '' @ Group_Name g in
      map (\<lambda>path. plain_rule path why) (Group_Paths g)
      @ (if Group_Name g = MetadataGroupName
         then [plain_rule ''metadata.labels'' why, plain_rule ''metadata.annotations'' why] else []))"

fun NewSkipSet :: "cnpg \<Rightarrow> SkipRule list \<Rightarrow> error + SkipSet" where
  "NewSkipSet C [] = Inr []"
| "NewSkipSet C (rule # rules) =
     (let compiled =
        (if Skip_Group rule \<noteq> '''' \<and> Skip_Path rule \<noteq> ''''
         then Inl (Errorf ''skip rule sets both group and path'' [Skip_Group rule, Skip_Path rule])
         else if Skip_Group rule \<noteq> '''' \<and> is_keyed rule
         then Inl (Errorf ''skip rule for a group sets keyPrefix or except'' [Skip_Group rule])
         else if Skip_Group rule \<noteq> '''' then
           (case LookupGroup (Skip_Group rule) of
              None \<Rightarrow> Inl (Errorf ''unknown skip group'' (Skip_Group rule # GroupNames))
            | Some g \<Rightarrow> Inr (group_rules g))
         else if Skip_Path rule \<noteq> '''' then map_sum id (\<lambda>r. [r]) (compilePathRule C rule)
         else Inl (Errorf ''skip rule sets neither group nor path'' []))
      in case compiled of
           Inl err \<Rightarrow> Inl err
         | Inr rs \<Rightarrow>
             (case NewSkipSet C rules of Inl err \<Rightarrow> Inl err | Inr rest \<Rightarrow> Inr (rs @ rest)))"

definition matches :: "skipRule \<Rightarrow> string \<Rightarrow> bool" where
  "matches r path =
     (if keyed r then
        (case CutPrefix path (rule_path r @ ''.'') of
           None \<Rightarrow> False
         | Some key \<Rightarrow> HasPrefix key (keyPrefix r) \<and> \<not> List.member (except r) key)
      else if exact r then path = rule_path r
      else path = rule_path r \<or> HasPrefix path (rule_path r @ ''.''))"

text \<open>The reason, when the path is skipped.\<close>

fun Skips :: "SkipSet \<Rightarrow> string \<Rightarrow> string option" where
  "Skips [] path = None"
| "Skips (r # rules) path = (if matches r path then Some (reason r) else Skips rules path)"

section \<open>Transform rules\<close>

record 'p celenv =
  cel_New :: "error option"
  cel_Compile :: "string \<Rightarrow> error + 'p"
  cel_Evaluate :: "'p \<Rightarrow> json \<Rightarrow> bool \<Rightarrow> error + json"

record 'p compiledTransform =
  program :: 'p
  onMissing :: string

record 'p TransformSet =
  byPath :: "(string, 'p compiledTransform) gmap"
  order :: "string list"

fun compile_transforms :: "'p celenv \<Rightarrow> TransformRule list \<Rightarrow> 'p TransformSet \<Rightarrow> error + 'p TransformSet" where
  "compile_transforms env [] ts = Inr ts"
| "compile_transforms env (rule # rules) ts =
     (if Transform_Path rule = '''' then Inl (Errorf ''a transform rule has no path'' [])
      else if gmap_get (byPath ts) (Transform_Path rule) \<noteq> None
      then Inl (Errorf ''two transform rules target'' [Transform_Path rule])
      else (case cel_Compile env (Expression rule) of
              Inl err \<Rightarrow> Inl (Wrapped ''transform is not a valid expression'' [Transform_Path rule] err)
            | Inr prog \<Rightarrow>
                let missing = (if OnMissing rule = '''' then MissingFail else OnMissing rule) in
                compile_transforms env rules
                  \<lparr>byPath = gmap_set (byPath ts) (Transform_Path rule) \<lparr>program = prog, onMissing = missing\<rparr>,
                   order = order ts @ [Transform_Path rule]\<rparr>))"

definition NewTransformSet :: "'p celenv \<Rightarrow> TransformRule list \<Rightarrow> error + 'p TransformSet" where
  "NewTransformSet env rules =
     (if rules = [] then Inr \<lparr>byPath = [], order = []\<rparr>
      else (case cel_New env of
              Some err \<Rightarrow> Inl (Wrapped ''while building the expression environment'' [] err)
            | None \<Rightarrow>
                (case compile_transforms env rules \<lparr>byPath = [], order = []\<rparr> of
                   Inl err \<Rightarrow> Inl err
                 | Inr ts \<Rightarrow> Inr (ts\<lparr>order := sort (order ts)\<rparr>))))"

definition Paths :: "'p TransformSet \<Rightarrow> string list" where
  "Paths t = order t"

definition Program :: "'p TransformSet \<Rightarrow> string \<Rightarrow> 'p option" where
  "Program t path = map_option program (gmap_get (byPath t) path)"

definition toleratesMissing :: "'p TransformSet \<Rightarrow> string \<Rightarrow> bool" where
  "toleratesMissing t path =
     (case gmap_get (byPath t) path of None \<Rightarrow> False | Some c \<Rightarrow> onMissing c = MissingIgnore)"

text \<open>\<open>None\<close> when the path has no transform.\<close>

definition TransformSet_Apply ::
  "cnpg \<Rightarrow> 'p celenv \<Rightarrow> 'p TransformSet \<Rightarrow> Leaf \<Rightarrow> (error + json) option" where
  "TransformSet_Apply C env t leaf =
     (case Program t (Leaf_Path leaf) of
        None \<Rightarrow> None
      | Some prog \<Rightarrow>
          Some (wrap ''transforming'' [Leaf_Path leaf]
            (cel_Evaluate env prog (LeafValue leaf) (IsQuantityPath C (Segments leaf)))))"

definition countBeneath :: "string list \<Rightarrow> string \<Rightarrow> nat" where
  "countBeneath leaves path = length (filter (\<lambda>leaf. HasPrefix leaf (path @ ''.'')) leaves)"

definition transform_problem ::
  "'p TransformSet \<Rightarrow> string list \<Rightarrow> (string, string) gmap \<Rightarrow> string list \<Rightarrow> string \<Rightarrow> string option" where
  "transform_problem t fired skipped leaves path =
     (if List.member fired path then None
      else (case gmap_get skipped path of
              Some why \<Rightarrow> Some (path @ '' is both transformed and skipped ('' @ why @ '')'')
            | None \<Rightarrow>
                if 0 < countBeneath leaves path then Some (path @ '' names an object, not a value'')
                else if toleratesMissing t path then None
                else Some (path @ '' is transformed but the snapshot captured no such value'')))"

definition checkAllFired ::
  "'p TransformSet \<Rightarrow> string list \<Rightarrow> (string, string) gmap \<Rightarrow> string list \<Rightarrow> error option" where
  "checkAllFired t fired skipped leaves =
     (let problems = List.map_filter (transform_problem t fired skipped leaves) (Paths t)
      in if problems = [] then None else Some (Errorf (Join problems ''; '') []))"

section \<open>What a skip rule means\<close>

lemma Skips_iff: "Skips s path \<noteq> None \<longleftrightarrow> (\<exists>r \<in> set s. matches r path)"
  by (induction s) auto

lemma Skips_append: "Skips (s @ s') path = (case Skips s path of None \<Rightarrow> Skips s' path | Some why \<Rightarrow> Some why)"
  by (induction s) auto

text \<open>
  A plain path rule on anything outside a map takes its own path and everything beneath it;
  one on a map takes the map's entries; one on an entry of a map takes that entry alone.
\<close>

lemma compilePathRule_plain:
  assumes "compilePathRule C rule = Inr r" "\<not> is_keyed rule"
  shows "matches r path \<longleftrightarrow>
    (let p = TrimSuffix (Skip_Path rule) ''.*'' in
     path = p \<or> HasPrefix path (p @ ''.'') \<and> (case EnclosingMap C p of None \<Rightarrow> True | Some m \<Rightarrow> p = m))"
  using assms by (auto simp: compilePathRule_def matches_def Let_def split: if_splits option.splits)

lemma compilePathRule_keyed:
  assumes "compilePathRule C rule = Inr r" "is_keyed rule"
  shows "NamesMap C (rule_path r)" "keyed r" "keyPrefix r = KeyPrefix rule" "except r = Except rule"
  using assms by (auto simp: compilePathRule_def Let_def split: if_splits)

lemma matches_keyed:
  assumes "keyed r"
  shows "matches r path \<longleftrightarrow>
    (\<exists>key. path = rule_path r @ ''.'' @ key \<and> HasPrefix key (keyPrefix r) \<and> key \<notin> set (except r))"
proof (cases "CutPrefix path (rule_path r @ ''.'')")
  case None
  then have "\<nexists>key. path = rule_path r @ ''.'' @ key" by (auto simp: CutPrefix_def split: if_splits)
  with None assms show ?thesis by (simp add: matches_def)
next
  case (Some key)
  then have "path = rule_path r @ ''.'' @ key" by (simp add: CutPrefix_eq_Some)
  with Some assms show ?thesis by (simp add: matches_def List.member_iff)
qed

text \<open>Skipping the key \<open>k\<close> of a map leaves every other key of it alone, whatever dots they hold.\<close>

lemma skip_map_key:
  assumes "compilePathRule C rule = Inr r" "\<not> is_keyed rule" "NamesMap C m"
    and "TrimSuffix (Skip_Path rule) ''.*'' = m @ ''.'' @ k"
  shows "matches r (m @ ''.'' @ k') \<longleftrightarrow> k' = k"
proof -
  have "EnclosingMap C (m @ ''.'' @ k) = Some m"
    by (rule EnclosingMap_beneath [OF assms(3)]) (simp add: HasPrefix_iff)
  moreover have "m @ ''.'' @ k \<noteq> m" by simp
  ultimately show ?thesis using compilePathRule_plain [OF assms(1,2)] assms(4) by (simp add: Let_def)
qed

section \<open>Compiled transforms\<close>

lemma compile_transforms_order:
  assumes "compile_transforms env rules t = Inr t'" "gmap_ok (byPath t)" "distinct (order t)"
    and "\<And>p. gmap_get (byPath t) p \<noteq> None \<longleftrightarrow> p \<in> set (order t)"
  shows "gmap_ok (byPath t') \<and> distinct (order t')
    \<and> (\<forall>p. gmap_get (byPath t') p \<noteq> None \<longleftrightarrow> p \<in> set (order t'))
    \<and> order t' = order t @ map Transform_Path rules"
  using assms
proof (induction rules arbitrary: t)
  case (Cons rule rules)
  then obtain prog where p: "cel_Compile env (Expression rule) = Inr prog"
    by (auto split: if_splits sum.splits)
  have fresh: "Transform_Path rule \<notin> set (order t)"
    using Cons.prems by (auto split: if_splits)
  define t1 where "t1 = \<lparr>byPath = gmap_set (byPath t) (Transform_Path rule)
      \<lparr>program = prog, onMissing = (if OnMissing rule = [] then MissingFail else OnMissing rule)\<rparr>,
      order = order t @ [Transform_Path rule]\<rparr>"
  have "compile_transforms env rules t1 = Inr t'"
    using Cons.prems(1) p by (auto simp: Let_def t1_def split: if_splits)
  moreover have "gmap_ok (byPath t1)" "distinct (order t1)" "\<And>p. gmap_get (byPath t1) p \<noteq> None \<longleftrightarrow> p \<in> set (order t1)"
    using Cons.prems(2-4) fresh by (auto simp: t1_def go_map gmap_ok_set)
  moreover have "order t1 = order t @ [Transform_Path rule]" by (simp add: t1_def)
  ultimately show ?case using Cons.IH [of t1] by (metis append_Cons append_Nil append_assoc list.simps(9))
qed simp

lemma NewTransformSet_paths:
  assumes "NewTransformSet env rules = Inr t"
  shows "Paths t = sort (map Transform_Path rules)" "distinct (map Transform_Path rules)"
    "Program t path \<noteq> None \<longleftrightarrow> path \<in> set (map Transform_Path rules)"
proof -
  obtain u where u: "compile_transforms env rules \<lparr>byPath = [], order = []\<rparr> = Inr u" "t = u\<lparr>order := sort (order u)\<rparr>"
    using assms by (auto simp: NewTransformSet_def split: sum.splits option.splits if_splits)
  have "distinct (order u) \<and> (\<forall>p. gmap_get (byPath u) p \<noteq> None \<longleftrightarrow> p \<in> set (order u))
      \<and> order u = map Transform_Path rules"
    using compile_transforms_order [OF u(1)] by auto
  with u(2) show "Paths t = sort (map Transform_Path rules)" "distinct (map Transform_Path rules)"
    "Program t path \<noteq> None \<longleftrightarrow> path \<in> set (map Transform_Path rules)"
    by (auto simp: Paths_def Program_def)
qed

text \<open>
  The check passes just when every transform ran, or is allowed to find nothing and found
  nothing: not skipped, and with no value beneath it.
\<close>

lemma checkAllFired_None:
  "checkAllFired t fired skipped leaves = None \<longleftrightarrow>
     (\<forall>path \<in> set (Paths t). path \<in> set fired \<or>
        gmap_get skipped path = None \<and> toleratesMissing t path
        \<and> (\<forall>leaf \<in> set leaves. \<not> HasPrefix leaf (path @ ''.'')))"
  by (auto simp: checkAllFired_def transform_problem_def countBeneath_def map_filter_def List.member_iff
      filter_empty_conv split: option.splits)

end
