(* ===== verification/Json_Codec.thy ===== *)
theory Json_Codec
  imports Pathutil Go_Decimal
begin

text \<open>
  Package \<open>encoding/json\<close> as the plugin uses it: \<open>Marshal\<close>, \<open>MarshalIndent(_, "", "  ")\<close> and
  a \<open>Decoder\<close> with \<open>UseNumber\<close>. A document is a value of type \<open>json\<close> whose objects keep
  their entries in written order, duplicates included; \<open>as_any\<close> is what decoding into
  \<open>map[string]any\<close> makes of it. Strings are bytes, checked as UTF-8 the way Go does.
\<close>

section \<open>UTF-8\<close>

definition in_range :: "nat \<Rightarrow> nat \<Rightarrow> char \<Rightarrow> bool" where
  "in_range lo hi c \<longleftrightarrow> lo \<le> of_char c \<and> of_char c \<le> hi"

definition ascii :: "char \<Rightarrow> bool" where
  "ascii c \<longleftrightarrow> (of_char c :: nat) < 128"

text \<open>Is the second byte possible after this first one? (\<open>utf8.acceptRanges\<close>)\<close>

definition second_ok :: "char \<Rightarrow> char \<Rightarrow> bool" where
  "second_ok a b =
     (let x = of_char a :: nat in
      if x = 0xE0 then in_range 0xA0 0xBF b
      else if x = 0xED then in_range 0x80 0x9F b
      else if x = 0xF0 then in_range 0x90 0xBF b
      else if x = 0xF4 then in_range 0x80 0x8F b
      else in_range 0x80 0xBF b)"

text \<open>Bytes of the multi-byte rune at the head of the text; 0 when it is not valid UTF-8.\<close>

definition rune_len :: "string \<Rightarrow> nat" where
  "rune_len s =
     (if s = [] then 0
      else if in_range 0xC2 0xDF (s ! 0) then
        (if 2 \<le> length s \<and> second_ok (s ! 0) (s ! 1) then 2 else 0)
      else if in_range 0xE0 0xEF (s ! 0) then
        (if 3 \<le> length s \<and> second_ok (s ! 0) (s ! 1) \<and> in_range 0x80 0xBF (s ! 2) then 3 else 0)
      else if in_range 0xF0 0xF4 (s ! 0) then
        (if 4 \<le> length s \<and> second_ok (s ! 0) (s ! 1) \<and> in_range 0x80 0xBF (s ! 2)
            \<and> in_range 0x80 0xBF (s ! 3) then 4 else 0)
      else 0)"

function utf8_valid :: "string \<Rightarrow> bool" where
  "utf8_valid [] = True"
| "utf8_valid (c # s) =
     (if ascii c then utf8_valid s
      else (case rune_len (c # s) of 0 \<Rightarrow> False | Suc n \<Rightarrow> utf8_valid (drop n s)))"
  by pat_completeness auto
termination by (relation "measure length") auto

lemma rune_len_le: "rune_len s \<le> length s"
  by (auto simp: rune_len_def)

lemma rune_len_prefix:
  assumes "rune_len s = n" "0 < n" "take n t = take n s"
  shows "rune_len t = n"
proof -
  have len: "n \<le> length t"
    using assms rune_len_le [of s] by (metis length_take min.absorb_iff2 min.commute)
  have nth: "t ! i = s ! i" if "i < n" for i
    using that assms(3) by (metis nth_take)
  have "n = 2 \<or> n = 3 \<or> n = 4" using assms(1,2) by (auto simp: rune_len_def split: if_splits)
  then show ?thesis
    using assms(1) len nth [of 0] nth [of 1] nth [of 2] nth [of 3]
    by (elim disjE) (auto simp: rune_len_def split: if_splits)
qed

section \<open>Strings\<close>

definition hex_digit :: "nat \<Rightarrow> char" where
  "hex_digit n = (if n < 10 then char_of (48 + n) else char_of (87 + n))"

definition escape_u :: "nat \<Rightarrow> string" where
  "escape_u n = [CHR 0x5C, CHR ''u''] @ [hex_digit (n div 4096 mod 16), hex_digit (n div 256 mod 16),
     hex_digit (n div 16 mod 16), hex_digit (n mod 16)]"

text \<open>One ASCII byte, with the HTML escaping \<open>Marshal\<close> does by default.\<close>

definition quote_char :: "char \<Rightarrow> string" where
  "quote_char c =
     (let n = of_char c :: nat in
      if n = 34 then [CHR 0x5C, c]
      else if n = 92 then [c, c]
      else if n = 8 then [CHR 0x5C, CHR ''b'']
      else if n = 12 then [CHR 0x5C, CHR ''f'']
      else if n = 10 then [CHR 0x5C, CHR ''n'']
      else if n = 13 then [CHR 0x5C, CHR ''r'']
      else if n = 9 then [CHR 0x5C, CHR ''t'']
      else if n < 32 \<or> n = 60 \<or> n = 62 \<or> n = 38 then escape_u n
      else [c])"

text \<open>U+2028 and U+2029 are escaped too, for JavaScript's sake; a byte that is not UTF-8
  becomes the replacement character.\<close>

function quote_body :: "string \<Rightarrow> string" where
  "quote_body [] = []"
| "quote_body (c # s) =
     (if ascii c then quote_char c @ quote_body s
      else (case rune_len (c # s) of
              0 \<Rightarrow> (CHR 0x5C # ''ufffd'') @ quote_body s
            | Suc n \<Rightarrow>
                (if map of_char (take 3 (c # s)) = [0xE2, 0x80, 0xA8 :: nat] then (CHR 0x5C # ''u2028'')
                 else if map of_char (take 3 (c # s)) = [0xE2, 0x80, 0xA9 :: nat] then (CHR 0x5C # ''u2029'')
                 else c # take n s) @ quote_body (drop n s)))"
  by pat_completeness auto
termination by (relation "measure length") auto

definition quote :: "string \<Rightarrow> string" where
  "quote s = CHR 0x22 # quote_body s @ [CHR 0x22]"

definition hex_value :: "char \<Rightarrow> nat option" where
  "hex_value c = (let n = of_char c :: nat in
     if 48 \<le> n \<and> n \<le> 57 then Some (n - 48)
     else if 97 \<le> n \<and> n \<le> 102 then Some (n - 87)
     else if 65 \<le> n \<and> n \<le> 70 then Some (n - 55)
     else None)"

fun getu4 :: "string \<Rightarrow> nat option" where
  "getu4 (a # b # c # d # s) =
     (case (hex_value a, hex_value b, hex_value c, hex_value d) of
        (Some w, Some x, Some y, Some z) \<Rightarrow> Some (w * 4096 + x * 256 + y * 16 + z)
      | _ \<Rightarrow> None)"
| "getu4 _ = None"

text \<open>\<open>utf8.AppendRune\<close>.\<close>

definition encode_rune :: "nat \<Rightarrow> string" where
  "encode_rune r =
     map char_of
       (if r < 0x80 then [r]
        else if r < 0x800 then [0xC0 + r div 64, 0x80 + r mod 64]
        else if r < 0x10000 then [0xE0 + r div 4096, 0x80 + r div 64 mod 64, 0x80 + r mod 64]
        else [0xF0 + r div 262144, 0x80 + r div 4096 mod 64, 0x80 + r div 64 mod 64, 0x80 + r mod 64])"

definition high_surrogate :: "nat \<Rightarrow> bool" where
  "high_surrogate r \<longleftrightarrow> 0xD800 \<le> r \<and> r < 0xDC00"

definition low_surrogate :: "nat \<Rightarrow> bool" where
  "low_surrogate r \<longleftrightarrow> 0xDC00 \<le> r \<and> r < 0xE000"

text \<open>The escape after a backslash: the decoded bytes and how much text it took.\<close>

definition unescape :: "string \<Rightarrow> (string \<times> nat) option" where
  "unescape s =
     (case s of
        [] \<Rightarrow> None
      | e # r \<Rightarrow>
          (if e = CHR 0x22 \<or> e = CHR 0x5C \<or> e = CHR 0x2F then Some ([e], 1)
           else if e = CHR ''b'' then Some ([CHR 0x08], 1)
           else if e = CHR ''f'' then Some ([CHR 0x0C], 1)
           else if e = CHR ''n'' then Some ([CHR 0x0A], 1)
           else if e = CHR ''r'' then Some ([CHR 0x0D], 1)
           else if e = CHR ''t'' then Some ([CHR 0x09], 1)
           else if e = CHR ''u'' then
             (case getu4 r of
                None \<Rightarrow> None
              | Some hi \<Rightarrow>
                  if high_surrogate hi \<or> low_surrogate hi then
                    (case getu4 (drop 6 r) of
                       Some lo \<Rightarrow>
                         if take 2 (drop 4 r) = [CHR 0x5C, CHR ''u''] \<and> high_surrogate hi \<and> low_surrogate lo
                         then Some (encode_rune ((hi - 0xD800) * 1024 + (lo - 0xDC00) + 0x10000), 11)
                         else Some (encode_rune 0xFFFD, 5)
                     | None \<Rightarrow> Some (encode_rune 0xFFFD, 5))
                  else Some (encode_rune hi, 5))
           else None))"

text \<open>The text after an opening quote: the decoded string and what follows the closing one.\<close>

function unquote :: "string \<Rightarrow> (string \<times> string) option" where
  "unquote [] = None"
| "unquote (c # s) =
     (if c = CHR 0x22 then Some ([], s)
      else if c = CHR 0x5C then
        (case unescape s of
           None \<Rightarrow> None
         | Some (t, n) \<Rightarrow> map_option (apfst ((@) t)) (unquote (drop n s)))
      else if (of_char c :: nat) < 32 then None
      else if ascii c then map_option (apfst ((#) c)) (unquote s)
      else (case rune_len (c # s) of
              0 \<Rightarrow> map_option (apfst ((@) (encode_rune 0xFFFD))) (unquote s)
            | Suc n \<Rightarrow> map_option (apfst ((@) (c # take n s))) (unquote (drop n s))))"
  by pat_completeness auto
termination by (relation "measure length") auto


subsection \<open>Quoting is undone by unquoting\<close>

lemma hex_value_hex_digit: "n < 16 \<Longrightarrow> hex_value (hex_digit n) = Some n"
  by (auto simp: hex_value_def hex_digit_def Let_def)

lemma getu4_escape:
  assumes "n < 65536"
  shows "getu4 (hex_digit (n div 4096 mod 16) # hex_digit (n div 256 mod 16)
     # hex_digit (n div 16 mod 16) # hex_digit (n mod 16) # s) = Some n"
proof -
  define a b c where abc: "a = n div 16" "b = n div 256" "c = n div 4096"
  have d: "b = a div 16" "c = b div 16" by (simp_all add: abc div_mult2_eq [symmetric])
  have sum: "w * 4096 + x * 256 + y * 16 + z = k0"
    if "k1 * 16 + z = k0" "k2 * 16 + y = k1" "w * 16 + x = k2" for w x y z k0 k1 k2 :: nat
    using that by simp
  have "a * 16 + n mod 16 = n" "b * 16 + a mod 16 = a" "c * 16 + b mod 16 = b"
    by (simp_all add: d(2)) (simp_all add: d(1) abc(1))
  then have "c * 4096 + b mod 16 * 256 + a mod 16 * 16 + n mod 16 = n" by (rule sum)
  then have "n div 4096 * 4096 + n div 256 mod 16 * 256 + n div 16 mod 16 * 16 + n mod 16 = n"
    by (simp only: abc)
  moreover have "n div 4096 mod 16 = n div 4096" using assms by simp
  ultimately have "n div 4096 mod 16 * 4096 + n div 256 mod 16 * 256 + n div 16 mod 16 * 16 + n mod 16 = n"
    by simp
  then show ?thesis
    by (simp only: getu4.simps hex_value_hex_digit mod_less_divisor zero_less_numeral option.case prod.case)
qed

lemma char_codes:
  "char_of (34 :: nat) = CHR 0x22" "char_of (92 :: nat) = CHR 0x5C" "char_of (8 :: nat) = CHR 0x08"
  "char_of (12 :: nat) = CHR 0x0C" "char_of (10 :: nat) = CHR 0x0A" "char_of (13 :: nat) = CHR 0x0D"
  "char_of (9 :: nat) = CHR 0x09" "char_of (56 :: nat) = CHR ''8''" "char_of (57 :: nat) = CHR ''9''"
  by code_simp+

lemma append_single: "(@) [x] = (#) x"
  by (rule ext) simp

lemma unquote_escape_u:
  assumes "n < 128"
  shows "unquote (escape_u n @ t) = map_option (apfst ((#) (char_of n))) (unquote t)"
proof -
  have "unescape (CHR ''u'' # hex_digit (n div 4096 mod 16) # hex_digit (n div 256 mod 16)
     # hex_digit (n div 16 mod 16) # hex_digit (n mod 16) # t) = Some ([char_of n], 5)"
    using assms getu4_escape [of n t] unfolding unescape_def
    by (simp add: encode_rune_def high_surrogate_def low_surrogate_def del: getu4.simps)
  then show ?thesis by (simp add: escape_u_def append_single del: unquote.simps(1))
qed

lemma unquote_quote_char:
  assumes "ascii c"
  shows "unquote (quote_char c @ t) = map_option (apfst ((#) c)) (unquote t)"
proof -
  define n :: nat where "n = of_char c"
  have c: "c = char_of n" and n: "n < 128" using assms by (simp_all add: n_def ascii_def)
  consider "n = 34" | "n = 92" | "n = 8" | "n = 12" | "n = 10" | "n = 13" | "n = 9"
    | "n \<notin> {34, 92, 8, 12, 10, 13, 9}" "n < 32 \<or> n = 60 \<or> n = 62 \<or> n = 38"
    | "n \<noteq> 34" "n \<noteq> 92" "32 \<le> n" "n \<noteq> 60" "n \<noteq> 62" "n \<noteq> 38" by force
  then show ?thesis
  proof cases
    case 8
    then have "quote_char c = escape_u n" by (auto simp: quote_char_def n_def)
    then show ?thesis using unquote_escape_u [OF n] by (simp add: c)
  next
    case 9
    then have "quote_char c = [c]" "c \<noteq> CHR 0x22" "c \<noteq> CHR 0x5C" "\<not> (of_char c :: nat) < 32"
      by (auto simp: quote_char_def n_def)
    then show ?thesis using assms by simp
  qed (simp_all add: quote_char_def c unescape_def append_single char_codes)
qed

lemma unquote_rune:
  assumes "\<not> ascii c" "rune_len (c # s) = Suc n"
  shows "unquote ((c # take n s) @ t) = map_option (apfst ((@) (c # take n s))) (unquote t)"
proof -
  have "n \<le> length s" using rune_len_le [of "c # s"] assms(2) by simp
  then have "take (Suc n) (c # take n s @ t) = take (Suc n) (c # s)" by simp
  then have "rune_len (c # take n s @ t) = Suc n"
    by (rule rune_len_prefix [OF assms(2) zero_less_Suc])
  moreover have "c \<noteq> CHR 0x22" "c \<noteq> CHR 0x5C" "\<not> (of_char c :: nat) < 32"
    using assms(1) by (auto simp: ascii_def)
  moreover have "length (take n s) = n" using rune_len_le [of "c # s"] assms(2) by simp
  ultimately show ?thesis using assms(1) by simp
qed

lemma unquote_line_separator:
  assumes "map of_char (take 3 (c # s)) = [0xE2, 0x80, k :: nat]" "k = 0xA8 \<or> k = 0xA9"
  shows "unquote (CHR 0x5C # ''u202'' @ hex_digit (k - 0xA0) # t)
    = map_option (apfst ((@) (c # take 2 s))) (unquote t)"
proof -
  obtain d e s' where s: "s = d # e # s'"
    using assms(1) by (cases s rule: list.exhaust; cases "tl s") auto
  then have "of_char c = (0xE2 :: nat)" "of_char d = (0x80 :: nat)" "of_char e = k"
    using assms(1) by auto
  then have "c = char_of (0xE2 :: nat)" "d = char_of (0x80 :: nat)" "e = char_of k"
    by (metis char_of_char)+
  with s assms(2) show ?thesis
    by (auto simp: unescape_def hex_value_def hex_digit_def high_surrogate_def low_surrogate_def encode_rune_def)
qed

lemma unquote_quote_body:
  "utf8_valid s \<Longrightarrow> unquote (quote_body s @ CHR 0x22 # rest) = Some (s, rest)"
proof (induction s rule: quote_body.induct)
  case (2 c s)
  show ?case
  proof (cases "ascii c")
    case True
    with 2 show ?thesis by (simp add: unquote_quote_char)
  next
    case False
    with 2(4) obtain n where n: "rune_len (c # s) = Suc n" "utf8_valid (drop n s)"
      by (auto split: nat.splits)
    have IH: "unquote (quote_body (drop n s) @ CHR 0x22 # rest) = Some (drop n s, rest)"
      using 2(3) False n by simp
    have two: "n = 2" if "map of_char (take 3 (c # s)) = [0xE2, 0x80, k :: nat]" for k
    proof -
      have "of_char c = (0xE2 :: nat)" using that by simp
      with n(1) show ?thesis by (auto simp: rune_len_def in_range_def split: if_splits)
    qed
    consider "map of_char (take 3 (c # s)) = [0xE2, 0x80, 0xA8 :: nat]"
      | "map of_char (take 3 (c # s)) = [0xE2, 0x80, 0xA9 :: nat]"
      | "map of_char (take 3 (c # s)) \<noteq> [0xE2, 0x80, 0xA8 :: nat]"
        "map of_char (take 3 (c # s)) \<noteq> [0xE2, 0x80, 0xA9 :: nat]"
      by blast
    then show ?thesis
    proof cases
      case 1
      with False n two [OF 1] IH unquote_line_separator [OF 1, of "quote_body (drop 2 s) @ CHR 0x22 # rest"]
      show ?thesis by (simp add: hex_digit_def char_codes del: unquote.simps)
    next
      case 2
      with False n two [OF 2] IH unquote_line_separator [OF 2, of "quote_body (drop 2 s) @ CHR 0x22 # rest"]
      show ?thesis by (simp add: hex_digit_def char_codes del: unquote.simps)
    next
      case 3
      then have "quote_body (c # s) = (c # take n s) @ quote_body (drop n s)"
        using False n(1) by (simp only: quote_body.simps nat.case if_False)
      with IH unquote_rune [OF False n(1), of "quote_body (drop n s) @ CHR 0x22 # rest"]
      show ?thesis by (simp del: unquote.simps quote_body.simps)
    qed
  qed
qed simp


section \<open>Numbers\<close>

definition num_int :: "string \<Rightarrow> string option" where
  "num_int s = (case s of
     [] \<Rightarrow> None
   | c # r \<Rightarrow> if c = CHR ''0'' then Some r
             else if is_digit c then Some (dropWhile is_digit r) else None)"

definition num_digits :: "string \<Rightarrow> string option" where
  "num_digits s = (case s of [] \<Rightarrow> None | c # r \<Rightarrow> if is_digit c then Some (dropWhile is_digit r) else None)"

definition num_frac :: "string \<Rightarrow> string option" where
  "num_frac s = (case s of [] \<Rightarrow> Some [] | c # r \<Rightarrow> if c = CHR ''.'' then num_digits r else Some s)"

definition num_exp :: "string \<Rightarrow> string option" where
  "num_exp s = (case s of
     [] \<Rightarrow> Some []
   | c # r \<Rightarrow> if c = CHR ''e'' \<or> c = CHR ''E''
             then num_digits (case r of d # r' \<Rightarrow> if d = CHR ''+'' \<or> d = CHR ''-'' then r' else r | [] \<Rightarrow> r)
             else Some s)"

text \<open>\<open>isValidNumber\<close>.\<close>

definition valid_number :: "string \<Rightarrow> bool" where
  "valid_number s =
     (Option.bind (Option.bind (num_int (case s of c # r \<Rightarrow> if c = CHR ''-'' then r else s | [] \<Rightarrow> s)) num_frac)
        num_exp = Some [])"

definition num_char :: "char \<Rightarrow> bool" where
  "num_char c \<longleftrightarrow> is_digit c \<or> c = CHR ''-'' \<or> c = CHR ''+'' \<or> c = CHR ''.'' \<or> c = CHR ''e'' \<or> c = CHR ''E''"

definition parse_number :: "string \<Rightarrow> (string \<times> string) option" where
  "parse_number s = (let n = takeWhile num_char s in
     if valid_number n then Some (n, dropWhile num_char s) else None)"

section \<open>Encoding\<close>

text \<open>
  One encoder for both forms: \<open>nl\<close> is the line break at a nesting depth and \<open>col\<close> the text
  between key and value.
\<close>

fun enc :: "(nat \<Rightarrow> string) \<Rightarrow> string \<Rightarrow> nat \<Rightarrow> json \<Rightarrow> string" where
  "enc nl col n JNull = ''null''"
| "enc nl col n (JBool b) = (if b then ''true'' else ''false'')"
| "enc nl col n (JNumber s) = (if s = [] then ''0'' else s)"
| "enc nl col n (JString s) = quote s"
| "enc nl col n (JArray xs) =
     (if xs = [] then ''[]''
      else ''['' @ nl (n + 1) @ Join (map (enc nl col (n + 1)) xs) ('','' @ nl (n + 1)) @ nl n @ '']'')"
| "enc nl col n (JObject m) =
     (if m = [] then ''{}''
      else ''{'' @ nl (n + 1)
        @ Join (map (\<lambda>e. quote (fst e) @ col @ enc nl col (n + 1) (snd e)) m) ('','' @ nl (n + 1))
        @ nl n @ ''}'')"

text \<open>Every number is a number literal; \<open>json.Number("")\<close> prints as 0.\<close>

fun numbers_ok :: "json \<Rightarrow> bool" where
  "numbers_ok (JNumber s) = (s = [] \<or> valid_number s)"
| "numbers_ok (JArray xs) = list_all numbers_ok xs"
| "numbers_ok (JObject m) = list_all (\<lambda>e. numbers_ok (snd e)) m"
| "numbers_ok _ = True"

definition Marshal :: "json \<Rightarrow> error + bytes" where
  "Marshal j = (if numbers_ok j then Inr (enc (\<lambda>n. []) '':'' 0 j)
                else Inl (Errorf ''json: invalid number literal'' []))"

definition newline_indent :: "nat \<Rightarrow> string" where
  "newline_indent n = CHR 0x0A # replicate (2 * n) CHR 0x20"

definition MarshalIndent :: "json \<Rightarrow> error + bytes" where
  "MarshalIndent j = (if numbers_ok j then Inr (enc newline_indent '': '' 0 j)
                      else Inl (Errorf ''json: invalid number literal'' []))"

section \<open>Decoding\<close>

definition is_space :: "char \<Rightarrow> bool" where
  "is_space c \<longleftrightarrow> c = CHR 0x20 \<or> c = CHR 0x09 \<or> c = CHR 0x0A \<or> c = CHR 0x0D"

definition skip_ws :: "string \<Rightarrow> string" where
  "skip_ws s = dropWhile is_space s"

text \<open>Items separated by commas up to a closing bracket. An item always takes text.\<close>

function parse_items ::
  "(string \<Rightarrow> ('a \<times> string) option) \<Rightarrow> char \<Rightarrow> string \<Rightarrow> ('a list \<times> string) option" where
  "parse_items p close s =
     (case p s of
        None \<Rightarrow> None
      | Some (x, r) \<Rightarrow>
          (case skip_ws r of
             [] \<Rightarrow> None
           | c # r' \<Rightarrow>
               if c = close then Some ([x], r')
               else if c = CHR '','' \<and> length r' < length s
               then map_option (apfst ((#) x)) (parse_items p close r')
               else None))"
  by pat_completeness auto
termination by (relation "measure (\<lambda>(_, _, s). length s)") auto

text \<open>A bracketed sequence after its opening bracket.\<close>

definition parse_seq ::
  "(string \<Rightarrow> ('a \<times> string) option) \<Rightarrow> char \<Rightarrow> string \<Rightarrow> ('a list \<times> string) option" where
  "parse_seq p close s =
     (case skip_ws s of
        [] \<Rightarrow> None
      | c # r \<Rightarrow> if c = close then Some ([], r) else parse_items p close s)"

definition parse_member ::
  "(string \<Rightarrow> (json \<times> string) option) \<Rightarrow> string \<Rightarrow> ((string \<times> json) \<times> string) option" where
  "parse_member p s =
     (case skip_ws s of
        [] \<Rightarrow> None
      | c # r \<Rightarrow>
          if c \<noteq> CHR 0x22 then None
          else (case unquote r of
                  None \<Rightarrow> None
                | Some (k, r1) \<Rightarrow>
                    (case skip_ws r1 of
                       [] \<Rightarrow> None
                     | d # r2 \<Rightarrow> if d = CHR '':'' then map_option (apfst (Pair k)) (p r2) else None)))"

text \<open>One value. The argument is the parser for the values inside it, absent when the nesting
  limit of the scanner is reached.\<close>

definition parse_step ::
  "(string \<Rightarrow> (json \<times> string) option) option \<Rightarrow> string \<Rightarrow> (json \<times> string) option" where
  "parse_step inner s =
     (case skip_ws s of
        [] \<Rightarrow> None
      | c # r \<Rightarrow>
          (if c = CHR 0x22 then map_option (apfst JString) (unquote r)
           else if c = CHR ''['' then
             Option.bind inner (\<lambda>p. map_option (apfst JArray) (parse_seq p CHR '']'' r))
           else if c = CHR ''{'' then
             Option.bind inner (\<lambda>p. map_option (apfst JObject) (parse_seq (parse_member p) CHR ''}'' r))
           else if HasPrefix (c # r) ''null'' then Some (JNull, drop 3 r)
           else if HasPrefix (c # r) ''true'' then Some (JBool True, drop 3 r)
           else if HasPrefix (c # r) ''false'' then Some (JBool False, drop 4 r)
           else map_option (apfst JNumber) (parse_number (c # r))))"

primrec parse_value :: "nat \<Rightarrow> string \<Rightarrow> (json \<times> string) option" where
  "parse_value 0 = parse_step None"
| "parse_value (Suc d) = parse_step (Some (parse_value d))"

text \<open>\<open>maxNestingDepth\<close> of the scanner.\<close>

definition max_nesting_depth :: nat where
  "max_nesting_depth = 10000"

text \<open>\<open>Decoder.Decode\<close> reads one value and leaves the text after it alone.\<close>

definition parse_document :: "bytes \<Rightarrow> error + json" where
  "parse_document raw =
     (case parse_value max_nesting_depth raw of
        None \<Rightarrow> Inl (Errorf ''invalid JSON'' [])
      | Some (j, rest) \<Rightarrow> Inr j)"

text \<open>\<open>json.Unmarshal\<close> wants nothing but white space after it.\<close>

definition parse_whole :: "bytes \<Rightarrow> error + json" where
  "parse_whole raw =
     (case parse_value max_nesting_depth raw of
        None \<Rightarrow> Inl (Errorf ''invalid JSON'' [])
      | Some (j, rest) \<Rightarrow>
          if skip_ws rest = [] then Inr j else Inl (Errorf ''invalid character after top-level value'' []))"

text \<open>Decoding into \<open>any\<close>: objects become maps, the last of duplicate keys counts.\<close>

fun as_any :: "json \<Rightarrow> json" where
  "as_any (JArray xs) = JArray (map as_any xs)"
| "as_any (JObject m) = JObject (gmap_of (map (\<lambda>e. (fst e, as_any (snd e))) m))"
| "as_any j = j"

text \<open>\<open>pathutil.FromJSON\<close>: an object, or \<open>null\<close> for the nil map.\<close>

definition FromJSON :: "bytes \<Rightarrow> error + obj" where
  "FromJSON raw =
     (case parse_document raw of
        Inl e \<Rightarrow> Inl e
      | Inr j \<Rightarrow>
          (case as_any j of
             JObject m \<Rightarrow> Inr m
           | JNull \<Rightarrow> Inr []
           | _ \<Rightarrow> Inl (Errorf ''json: cannot unmarshal into map'' [])))"


section \<open>Decoding undoes encoding\<close>

subsection \<open>Number literals\<close>

lemma is_digit_num_char: "is_digit c \<Longrightarrow> num_char c"
  by (simp add: num_char_def)

lemma dropWhile_digits: "\<exists>p. s = p @ dropWhile is_digit s \<and> list_all num_char p"
proof (intro exI conjI)
  show "s = takeWhile is_digit s @ dropWhile is_digit s" by simp
  show "list_all num_char (takeWhile is_digit s)"
    by (auto simp: list_all_iff dest: set_takeWhileD is_digit_num_char)
qed

lemma num_digits_Some: "num_digits s = Some r \<Longrightarrow> \<exists>p. s = p @ r \<and> list_all num_char p"
proof -
  assume "num_digits s = Some r"
  then obtain c t where s: "s = c # t" "is_digit c" "r = dropWhile is_digit t"
    by (auto simp: num_digits_def split: list.splits if_splits)
  obtain p where "t = p @ r" "list_all num_char p" using dropWhile_digits [of t] s(3) by auto
  then show ?thesis using s by (intro exI [of _ "c # p"]) (simp add: is_digit_num_char)
qed

lemma num_int_Some: "num_int s = Some r \<Longrightarrow> \<exists>p. s = p @ r \<and> p \<noteq> [] \<and> list_all num_char p"
proof -
  assume a: "num_int s = Some r"
  then obtain c t where s: "s = c # t" by (auto simp: num_int_def split: list.splits)
  with a consider "c = CHR ''0''" "r = t" | "is_digit c" "r = dropWhile is_digit t"
    by (auto simp: num_int_def split: if_splits)
  then show ?thesis
  proof cases
    case 1
    then show ?thesis using s by (intro exI [of _ "[c]"]) (simp add: num_char_def is_digit_def)
  next
    case 2
    obtain p where "t = p @ r" "list_all num_char p" using dropWhile_digits [of t] 2(2) by auto
    then show ?thesis using s 2(1) by (intro exI [of _ "c # p"]) (simp add: is_digit_num_char)
  qed
qed

lemma num_frac_Some: "num_frac s = Some r \<Longrightarrow> \<exists>p. s = p @ r \<and> list_all num_char p"
proof -
  assume a: "num_frac s = Some r"
  show ?thesis
  proof (cases "\<exists>t. s = CHR ''.'' # t")
    case True
    then obtain t where t: "s = CHR ''.'' # t" by auto
    with a obtain p where "t = p @ r" "list_all num_char p"
      using num_digits_Some [of t r] by (auto simp: num_frac_def)
    with t show ?thesis by (intro exI [of _ "CHR ''.'' # p"]) (simp add: num_char_def)
  next
    case False
    then have "r = s" using a by (auto simp: num_frac_def split: list.splits if_splits)
    then show ?thesis by auto
  qed
qed

lemma num_exp_Nil: "num_exp s = Some [] \<Longrightarrow> list_all num_char s"
proof -
  assume a: "num_exp s = Some []"
  show ?thesis
  proof (cases s)
    case (Cons c r)
    then have c: "c = CHR ''e'' \<or> c = CHR ''E''" using a by (auto simp: num_exp_def split: if_splits)
    have d: "list_all num_char t" if "num_digits t = Some []" for t
      using num_digits_Some [OF that] by auto
    have "list_all num_char r"
    proof (cases r)
      case (Cons d r')
      with a c \<open>s = c # r\<close> show ?thesis
        using d [of r] d [of r'] by (auto simp: num_exp_def num_char_def split: if_splits)
    qed simp
    with c Cons show ?thesis by (auto simp: num_char_def)
  qed simp
qed

lemma valid_number_chars: "valid_number s \<Longrightarrow> list_all num_char s \<and> s \<noteq> []"
proof -
  assume v: "valid_number s"
  define t where "t = (case s of c # r \<Rightarrow> if c = CHR ''-'' then r else s | [] \<Rightarrow> s)"
  have st: "s = t \<or> s = CHR ''-'' # t" by (auto simp: t_def split: list.splits)
  from v obtain r1 r2 where r: "num_int t = Some r1" "num_frac r1 = Some r2" "num_exp r2 = Some []"
    unfolding valid_number_def t_def [symmetric] by (auto simp: bind_eq_Some_conv)
  obtain p1 where p1: "t = p1 @ r1" "p1 \<noteq> []" "list_all num_char p1" using num_int_Some [OF r(1)] by auto
  obtain p2 where p2: "r1 = p2 @ r2" "list_all num_char p2" using num_frac_Some [OF r(2)] by auto
  have "list_all num_char t" "t \<noteq> []" using p1 p2 num_exp_Nil [OF r(3)] by auto
  then show ?thesis using st by (auto simp: num_char_def)
qed

lemma FormatUint_leading_zero: "FormatUint n = CHR ''0'' # cs \<Longrightarrow> cs = []"
proof (induction n arbitrary: cs rule: FormatUint.induct)
  case (1 n)
  show ?case
  proof (cases "n < 10")
    case False
    then have n: "FormatUint n = FormatUint (n div 10) @ [digit n]" by (simp add: FormatUint.simps [of n])
    obtain c ds where ds: "FormatUint (n div 10) = c # ds" by (cases "FormatUint (n div 10)") auto
    with n "1.prems" have "c = CHR ''0''" by simp
    with ds False "1.IH" have "FormatUint (n div 10) = ''0''" by simp
    then have "n div 10 = undigits ''0''" by (metis undigits_FormatUint)
    also have "undigits ''0'' = 0" by code_simp
    finally show ?thesis using False by simp
  qed (use "1.prems" in \<open>simp add: FormatUint.simps [of n]\<close>)
qed

lemma valid_number_FormatInt: "valid_number (FormatInt i)"
proof -
  have digits: "dropWhile is_digit cs = []" if "list_all is_digit cs" for cs
    using that by (simp add: list_all_iff)
  have "num_int (FormatUint n) = Some []" for n
  proof (cases "FormatUint n")
    case (Cons c cs)
    then have "is_digit c" "list_all is_digit cs" using FormatUint_is_digits [of n] by simp_all
    with Cons digits FormatUint_leading_zero [of n cs] show ?thesis by (auto simp: num_int_def)
  qed simp
  moreover have "(case FormatUint n of c # r \<Rightarrow> if c = CHR ''-'' then r else FormatUint n | [] \<Rightarrow> FormatUint n) = FormatUint n" for n
    using FormatUint_no_sign [of n] by (auto split: list.splits)
  ultimately show ?thesis
    by (simp add: valid_number_def FormatInt_def num_frac_def num_exp_def)
qed

text \<open>Text at which a number ends.\<close>

definition stops :: "string \<Rightarrow> bool" where
  "stops s \<longleftrightarrow> s = [] \<or> \<not> num_char (hd s)"

lemma parse_number_append:
  assumes "valid_number s" "stops rest"
  shows "parse_number (s @ rest) = Some (s, rest)"
proof -
  have all: "\<forall>c\<in>set s. num_char c" using valid_number_chars [OF assms(1)] by (simp add: list_all_iff)
  then have "takeWhile num_char (s @ rest) = s" "dropWhile num_char (s @ rest) = rest"
    using assms(2) by (cases rest; simp add: stops_def)+
  with assms(1) show ?thesis by (simp add: parse_number_def)
qed


subsection \<open>Documents\<close>

text \<open>The documents that print faithfully: valid UTF-8 and written-out numbers.\<close>

fun printable :: "json \<Rightarrow> bool" where
  "printable (JNumber s) = valid_number s"
| "printable (JString s) = utf8_valid s"
| "printable (JArray xs) = list_all printable xs"
| "printable (JObject m) = list_all (\<lambda>e. utf8_valid (fst e) \<and> printable (snd e)) m"
| "printable _ = True"

fun nesting :: "json \<Rightarrow> nat" where
  "nesting (JArray xs) = Suc (Max (insert 0 (set (map nesting xs))))"
| "nesting (JObject m) = Suc (Max (insert 0 (set (map (\<lambda>e. nesting (snd e)) m))))"
| "nesting _ = 0"

lemma nesting_object_le: "nesting (JObject m) \<le> Suc n \<longleftrightarrow> (\<forall>e \<in> set m. nesting (snd e) \<le> n)"
  by (auto simp: Max_le_iff)

lemma nesting_array_le: "nesting (JArray xs) \<le> Suc n \<longleftrightarrow> (\<forall>x \<in> set xs. nesting x \<le> n)"
  by (auto simp: Max_le_iff)

definition blank :: "string \<Rightarrow> bool" where
  "blank s \<longleftrightarrow> list_all is_space s"

lemma printable_numbers_ok: "printable j \<Longrightarrow> numbers_ok j"
  by (induction j) (auto simp: list_all_iff)

lemma skip_ws_blank: "blank w \<Longrightarrow> skip_ws (w @ s) = skip_ws s"
  by (induction w) (auto simp: blank_def skip_ws_def)

lemma skip_ws_Cons: "\<not> is_space c \<Longrightarrow> skip_ws (c # s) = c # s"
  by (simp add: skip_ws_def)

lemma stops_blank:
  assumes "blank w" "\<not> num_char c" shows "stops (w @ c # s)"
proof (cases w)
  case (Cons d t)
  then have "is_space d" using assms(1) by (simp add: blank_def)
  then have "\<not> num_char d" by (auto simp: is_space_def num_char_def is_digit_def)
  then show ?thesis by (simp add: Cons stops_def)
qed (simp add: stops_def assms)

lemma parse_items_Join:
  assumes "xs \<noteq> []" "blank w" "blank w'" "\<not> num_char close" "\<not> is_space close" "close \<noteq> CHR '',''"
    and item: "\<And>x v r. x \<in> set xs \<Longrightarrow> blank v \<Longrightarrow> stops r \<Longrightarrow> p (v @ e x @ r) = Some (x, r)"
    and "blank v"
  shows "parse_items p close (v @ Join (map e xs) ('','' @ w) @ w' @ close # rest) = Some (xs, rest)"
  using assms(1) item \<open>blank v\<close>
proof (induction xs arbitrary: v rule: list_nonempty_induct)
  case (single x)
  have "p (v @ e x @ w' @ close # rest) = Some (x, w' @ close # rest)"
    using single assms by (intro single.prems) (auto intro: stops_blank)
  then show ?case using assms by (simp add: skip_ws_blank skip_ws_Cons)
next
  case (cons x xs)
  let ?r = "w @ Join (map e xs) ('','' @ w) @ w' @ close # rest"
  have comma: "stops (CHR '','' # ?r)" by (simp add: stops_def num_char_def is_digit_def)
  have split: "v @ Join (map e (x # xs)) ('','' @ w) @ w' @ close # rest = v @ e x @ CHR '','' # ?r"
    using cons.hyps by (simp add: Join_Cons)
  have "p (v @ e x @ CHR '','' # ?r) = Some (x, CHR '','' # ?r)"
    using cons.prems comma by (intro cons.prems) auto
  moreover have "skip_ws (CHR '','' # ?r) = CHR '','' # ?r"
    by (simp add: skip_ws_def is_space_def)
  moreover have "parse_items p close ?r = Some (xs, rest)"
    using cons.prems assms(2) by (intro cons.IH) auto
  ultimately show ?case using assms(6) unfolding split by simp
qed


lemma parse_seq_Join:
  assumes "xs \<noteq> []" "blank w" "blank w'" "\<not> num_char close" "\<not> is_space close" "close \<noteq> CHR '',''"
    and item: "\<And>x v r. x \<in> set xs \<Longrightarrow> blank v \<Longrightarrow> stops r \<Longrightarrow> p (v @ e x @ r) = Some (x, r)"
    and head: "\<And>x. x \<in> set xs \<Longrightarrow> \<exists>c t. e x = c # t \<and> \<not> is_space c \<and> c \<noteq> close"
  shows "parse_seq p close (w @ Join (map e xs) ('','' @ w) @ w' @ close # rest) = Some (xs, rest)"
proof -
  obtain x ys where xs: "xs = x # ys" using assms(1) by (cases xs) auto
  obtain c t where c: "e x = c # t" "\<not> is_space c" "c \<noteq> close" using head [of x] xs by auto
  have "\<exists>u. Join (map e xs) ('','' @ w) = c # u" using c(1) xs by (cases ys) auto
  then obtain u where u: "Join (map e xs) ('','' @ w) = c # u" ..
  have "parse_items p close (w @ Join (map e xs) ('','' @ w) @ w' @ close # rest) = Some (xs, rest)"
    using assms by (intro parse_items_Join) auto
  then show ?thesis using u c assms(2)
    by (simp add: parse_seq_def skip_ws_blank skip_ws_Cons del: parse_items.simps)
qed

lemma num_char_not:
  assumes "num_char c"
  shows "\<not> is_space c" "c \<noteq> CHR '']''" "c \<noteq> CHR ''}''" "c \<noteq> CHR 0x22" "c \<noteq> CHR ''[''" "c \<noteq> CHR ''{''"
    "c \<noteq> CHR ''n''" "c \<noteq> CHR ''t''" "c \<noteq> CHR ''f''"
  using assms by (auto simp: num_char_def is_digit_def is_space_def)

lemma enc_head:
  assumes "printable j"
  shows "\<exists>c t. enc nl col n j = c # t \<and> \<not> is_space c \<and> c \<noteq> CHR '']''"
proof (cases j)
  case (JNumber s)
  then obtain c t where s: "s = c # t" "num_char c"
    using assms valid_number_chars [of s] by (cases s) auto
  with JNumber num_char_not [of c] show ?thesis by simp
qed (auto simp: quote_def is_space_def)

lemma parse_value_blank: "blank v \<Longrightarrow> parse_value d (v @ s) = parse_value d s"
  by (cases d) (simp_all add: parse_step_def skip_ws_blank)

lemma parse_member_quote:
  assumes "utf8_valid k" "blank v" "blank cw" "p r = Some (j, rest)" "\<And>u s. blank u \<Longrightarrow> p (u @ s) = p s"
  shows "parse_member p (v @ quote k @ ('':'' @ cw) @ r) = Some ((k, j), rest)"
  using assms
  by (simp add: parse_member_def skip_ws_blank quote_def skip_ws_Cons is_space_def unquote_quote_body
      del: unquote.simps)

lemma parse_value_scalar:
  assumes "printable j" "nesting j = 0" "stops rest"
  shows "parse_value d (enc nl col n j @ rest) = Some (j, rest)"
proof -
  have "parse_step q (enc nl col n j @ rest) = Some (j, rest)" for q
  proof (cases j)
    case (JNumber s)
    then obtain c t where s: "s = c # t" "num_char c"
      using assms valid_number_chars [of s] by (cases s) auto
    have "parse_number ((c # t) @ rest) = Some (c # t, rest)"
      using JNumber assms s(1) by (intro parse_number_append) auto
    with JNumber s num_char_not [of c] show ?thesis
      by (simp add: parse_step_def skip_ws_Cons HasPrefix_def)
  qed (use assms in \<open>auto simp: parse_step_def skip_ws_def is_space_def HasPrefix_def quote_def unquote_quote_body
         simp del: unquote.simps\<close>)
  then show ?thesis by (cases d) simp_all
qed

theorem parse_value_enc:
  assumes nl: "\<And>n. blank (nl n)" and cw: "blank cw"
  shows "printable j \<Longrightarrow> nesting j \<le> d \<Longrightarrow> stops rest
    \<Longrightarrow> parse_value d (enc nl ('':'' @ cw) n j @ rest) = Some (j, rest)"
proof (induction j arbitrary: d n rest)
  case (JArray xs)
  show ?case
  proof (cases "xs = []")
    case True
    with JArray obtain d' where "d = Suc d'" by (cases d) auto
    with True show ?thesis by (simp add: parse_step_def skip_ws_def is_space_def parse_seq_def)
  next
    case False
    obtain d' where d: "d = Suc d'" using JArray.prems by (cases d) auto
    have nest: "nesting x \<le> d'" if "x \<in> set xs" for x using JArray.prems that d by auto
    have head: "\<exists>c t. enc nl ('':'' @ cw) (n + 1) x = c # t \<and> \<not> is_space c \<and> c \<noteq> CHR '']''"
      if "x \<in> set xs" for x using JArray.prems that by (intro enc_head) (simp add: list_all_iff)
    have "parse_seq (parse_value d') CHR '']'' (nl (n + 1) @
        Join (map (enc nl ('':'' @ cw) (n + 1)) xs) ('','' @ nl (n + 1)) @ nl n @ CHR '']'' # rest) = Some (xs, rest)"
      using JArray False nl nest
      by (intro parse_seq_Join [OF _ _ _ _ _ _ _ head])
        (auto simp: list_all_iff parse_value_blank num_char_def is_digit_def is_space_def)
    with False d show ?thesis by (simp add: parse_step_def skip_ws_def is_space_def)
  qed
next
  case (JObject m)
  show ?case
  proof (cases "m = []")
    case True
    with JObject obtain d' where "d = Suc d'" by (cases d) auto
    with True show ?thesis by (simp add: parse_step_def skip_ws_def is_space_def parse_seq_def)
  next
    case False
    obtain d' where d: "d = Suc d'" using JObject.prems by (cases d) auto
    let ?e = "\<lambda>e. quote (fst e) @ ('':'' @ cw) @ enc nl ('':'' @ cw) (n + 1) (snd e)"
    have nest: "nesting (snd x) \<le> d'" if "x \<in> set m" for x using JObject.prems that d by auto
    have item: "parse_member (parse_value d') (v @ ?e x @ r) = Some (x, r)"
      if x: "x \<in> set m" and v: "blank v" and r: "stops r" for x v r
    proof -
      have "parse_value d' (enc nl ('':'' @ cw) (n + 1) (snd x) @ r) = Some (snd x, r)"
        using JObject.prems nest [OF x] x r by (intro JObject.IH [of x]) (auto simp: list_all_iff snds.simps)
      then have "parse_member (parse_value d') (v @ quote (fst x) @ ('':'' @ cw)
          @ (enc nl ('':'' @ cw) (n + 1) (snd x) @ r)) = Some ((fst x, snd x), r)"
        using JObject.prems x v cw
        by (intro parse_member_quote) (auto simp: list_all_iff parse_value_blank)
      then show ?thesis by simp
    qed
    have "parse_seq (parse_member (parse_value d')) CHR ''}'' (nl (n + 1) @
        Join (map ?e m) ('','' @ nl (n + 1)) @ nl n @ CHR ''}'' # rest) = Some (m, rest)"
      using item False nl
      by (intro parse_seq_Join) (auto simp: num_char_def is_digit_def is_space_def quote_def)
    with False d show ?thesis by (simp add: parse_step_def skip_ws_def is_space_def)
  qed
qed (simp_all add: parse_value_scalar del: enc.simps append.simps)


text \<open>Every document survives being written and read back, in both layouts.\<close>

lemma parse_value_Marshal:
  assumes "Marshal j = Inr raw" "printable j" "nesting j \<le> max_nesting_depth"
  shows "parse_value max_nesting_depth raw = Some (j, [])"
proof -
  have "parse_value max_nesting_depth (enc (\<lambda>n. []) ('':'' @ []) 0 j @ []) = Some (j, [])"
    using assms by (intro parse_value_enc) (auto simp: blank_def stops_def)
  with assms(1) show ?thesis by (auto simp: Marshal_def split: if_splits)
qed

lemma parse_document_Marshal:
  assumes "Marshal j = Inr raw" "printable j" "nesting j \<le> max_nesting_depth"
  shows "parse_document raw = Inr j"
  by (simp add: parse_document_def parse_value_Marshal [OF assms])

lemma parse_whole_Marshal:
  assumes "Marshal j = Inr raw" "printable j" "nesting j \<le> max_nesting_depth"
  shows "parse_whole raw = Inr j"
  by (simp add: parse_whole_def parse_value_Marshal [OF assms] skip_ws_def)

lemma parse_document_MarshalIndent:
  assumes "MarshalIndent j = Inr raw" "printable j" "nesting j \<le> max_nesting_depth"
  shows "parse_document raw = Inr j"
proof -
  have "parse_value max_nesting_depth (enc newline_indent ('':'' @ '' '') 0 j @ []) = Some (j, [])"
    using assms
    by (intro parse_value_enc) (auto simp: blank_def stops_def newline_indent_def is_space_def list_all_iff)
  with assms(1) show ?thesis by (auto simp: parse_document_def MarshalIndent_def split: if_splits)
qed

lemma Marshal_printable: "printable j \<Longrightarrow> \<exists>raw. Marshal j = Inr raw"
  by (simp add: Marshal_def printable_numbers_ok)

lemma MarshalIndent_printable: "printable j \<Longrightarrow> \<exists>raw. MarshalIndent j = Inr raw"
  by (simp add: MarshalIndent_def printable_numbers_ok)

text \<open>So the canonical encoding tells different documents apart.\<close>

lemma Marshal_inject:
  assumes "Marshal j = Inr raw" "Marshal j' = Inr raw" "printable j" "printable j'"
    "nesting j \<le> max_nesting_depth" "nesting j' \<le> max_nesting_depth"
  shows "j = j'"
  using parse_document_Marshal [OF assms(1)] parse_document_Marshal [OF assms(2)] assms by simp

lemma as_any_id: "json_ok j \<Longrightarrow> as_any j = j"
proof (induction j)
  case (JObject m)
  have "map (\<lambda>e. (fst e, as_any (snd e))) m = m"
    using JObject by (intro map_idI) (auto simp: list_all_iff snds.simps)
  with JObject show ?case by (simp add: gmap_of_id)
qed (auto simp: list_all_iff intro: map_idI)

lemma FromJSON_Marshal:
  assumes "Marshal (JObject m) = Inr raw" "obj_ok m" "printable (JObject m)"
    "nesting (JObject m) \<le> max_nesting_depth"
  shows "FromJSON raw = Inr m"
  using parse_document_Marshal [OF assms(1,3,4)] as_any_id [OF assms(2)] by (simp add: FromJSON_def)


section \<open>Properties that pass to parts\<close>

text \<open>
  A property of documents that holds of an object just when it holds of its entries: reading a
  part keeps it, and so do writing a part that has it and deleting.
\<close>

locale hereditary =
  fixes P :: "json \<Rightarrow> bool" and K :: "string \<Rightarrow> bool"
  assumes P_object: "P (JObject m) \<longleftrightarrow> (\<forall>e \<in> set m. K (fst e) \<and> P (snd e))"
    and P_array: "P (JArray xs) \<longleftrightarrow> (\<forall>x \<in> set xs. P x)"
begin

lemma P_entry: "P (JObject m) \<Longrightarrow> gmap_get m k = Some v \<Longrightarrow> P v"
  by (force simp: P_object dest: gmap_get_in_set)

lemma P_get_from: "P v \<Longrightarrow> get_from v p = Some w \<Longrightarrow> P w"
  by (induction v p rule: get_from.induct) (auto split: option.splits dest: P_entry)

lemma P_get: "P (JObject m) \<Longrightarrow> GetSegments m p = Some v \<Longrightarrow> P v"
  using P_get_from [of "JObject m" p v] by (auto simp: GetSegments_def split: if_splits)

lemma P_set_entry: "P (JObject m) \<Longrightarrow> K k \<Longrightarrow> P v \<Longrightarrow> P (JObject (gmap_set m k v))"
  using set_gmap_set [of m k v] by (auto simp: P_object)

lemma P_filter: "P (JObject m) \<Longrightarrow> P (JObject (filter Q m))"
  by (auto simp: P_object)

lemma P_delete_entry: "P (JObject m) \<Longrightarrow> P (JObject (gmap_delete m k))"
  by (simp add: gmap_delete_def P_filter)

lemma P_set:
  "P (JObject m) \<Longrightarrow> P v \<Longrightarrow> list_all K p \<Longrightarrow> P (JObject (fst (SetSegments m p v)))"
proof (induction m p v rule: SetSegments.induct)
  case (3 m s s2 ss v)
  have empty: "P (JObject [])" by (simp add: P_object)
  show ?case
  proof (cases "gmap_get m s")
    case None
    with 3 empty show ?thesis by (simp add: P_set_entry case_prod_beta)
  next
    case (Some x)
    with 3 empty P_entry [of m s x] show ?thesis by (cases x) (simp_all add: P_set_entry case_prod_beta)
  qed
qed (auto intro: P_set_entry)

lemma P_delete: "P (JObject m) \<Longrightarrow> P (JObject (deleteSegments m p))"
proof (induction m p rule: deleteSegments.induct)
  case (3 m s s2 ss)
  show ?case
  proof (cases "\<exists>n. gmap_get m s = Some (JObject n)")
    case True
    then obtain n where n: "gmap_get m s = Some (JObject n)" by auto
    then have "K s" using 3 by (force simp: P_object dest: gmap_get_in_set)
    with 3 n P_entry [OF "3.prems" n] show ?thesis by (simp add: Let_def P_set_entry P_delete_entry)
  next
    case False
    then have "deleteSegments m (s # s2 # ss) = m" by (auto split: option.splits json.splits)
    with 3 show ?thesis by simp
  qed
qed (auto intro: P_delete_entry)

end

interpretation num: hereditary numbers_ok "\<lambda>_. True"
  by unfold_locales (simp_all add: list_all_iff)

interpretation pr: hereditary printable utf8_valid
  by unfold_locales (simp_all add: list_all_iff)


declare utf8_valid.simps [simp del] quote_body.simps [simp del] unquote.simps [simp del]
  parse_items.simps [simp del]

end
