(* ===== verification/Go_Time.thy ===== *)
theory Go_Time
  imports Go_Calendar
begin

text \<open>
  The two printed forms of a time the plugin uses, over the calendar: the compact UTC timestamp
  of object keys and RFC 3339 for JSON. The compact one parses back to the second it was printed
  from, and compares as a string the way it compares as a moment, through year 9999; the JSON
  one keeps the nanoseconds.
\<close>

section \<open>The compact timestamp of object keys\<close>

text \<open>\<open>t.UTC().Format("20060102T150405Z")\<close>; the sign of a year does not count for its width.\<close>

definition append_int :: "nat \<Rightarrow> int \<Rightarrow> string" where
  "append_int w i = (if i < 0 then CHR ''-'' # pad_to w (FormatUint (nat (- i))) else pad_int w i)"

fun format_clock :: "clock \<Rightarrow> string" where
  "format_clock (y, m, d, hh, mi, ss) =
     append_int 4 y @ pad_int 2 m @ pad_int 2 d @ ''T'' @ pad_int 2 hh @ pad_int 2 mi @ pad_int 2 ss @ ''Z''"

definition FormatTimestamp :: "time \<Rightarrow> string" where
  "FormatTimestamp t = format_clock (clock_of_seconds (t div nanos_per_second))"

text \<open>\<open>time.Parse\<close> of the same layout; out-of-range fields are refused.\<close>

definition ParseTimestamp :: "string \<Rightarrow> error + time" where
  "ParseTimestamp s =
     (let num = (\<lambda>i n. int (undigits (take n (drop i s))));
          c = (num 0 4, num 4 2, num 6 2, num 9 2, num 11 2, num 13 2)
      in if length s = 16 \<and> list_all is_digit (take 8 s) \<and> s ! 8 = CHR ''T''
            \<and> list_all is_digit (take 6 (drop 9 s)) \<and> s ! 15 = CHR ''Z''
         then (if valid_clock c then Inr (seconds_of_clock c * nanos_per_second)
               else Inl (Errorf ''out of range'' [s]))
         else Inl (Errorf ''cannot parse'' [s]))"

fun clock_printable :: "clock \<Rightarrow> bool" where
  "clock_printable (y, m, d, hh, mi, ss) = (valid_clock (y, m, d, hh, mi, ss) \<and> 0 \<le> y \<and> y \<le> 9999)"

lemma days_in_month_le: "days_before_month y (m + 1) - days_before_month y m \<le> 31"
  by (auto simp: days_before_month_def)

lemma format_clock_digits:
  assumes "clock_printable (y, m, d, hh, mi, ss)"
  shows "format_clock (y, m, d, hh, mi, ss) =
    digits 4 (nat y) @ digits 2 (nat m) @ digits 2 (nat d) @ ''T'' @ digits 2 (nat hh)
      @ digits 2 (nat mi) @ digits 2 (nat ss) @ ''Z''"
proof -
  have "d \<le> 31" using assms days_in_month_le [of y m] by (auto simp: valid_date_def)
  with assms show ?thesis by (auto simp: append_int_def pad_int_digits valid_date_def)
qed

lemma format_clock_less:
  assumes "clock_printable a" "clock_printable b"
  shows "format_clock a < format_clock b \<longleftrightarrow> clock_less a b"
proof -
  obtain y m d hh mi ss where a: "a = (y, m, d, hh, mi, ss)" by (cases a) auto
  obtain y' m' d' hh' mi' ss' where b: "b = (y', m', d', hh', mi', ss')" by (cases b) auto
  have "d \<le> 31" "d' \<le> 31"
    using assms days_in_month_le [of y m] days_in_month_le [of y' m'] by (auto simp: a b valid_date_def)
  then have bounds: "0 \<le> y" "y < 10 ^ 4" "0 \<le> y'" "y' < 10 ^ 4" "0 \<le> m" "m < 10 ^ 2" "0 \<le> m'" "m' < 10 ^ 2"
    "0 \<le> d" "d < 10 ^ 2" "0 \<le> d'" "d' < 10 ^ 2" "0 \<le> hh" "hh < 10 ^ 2" "0 \<le> hh'" "hh' < 10 ^ 2"
    "0 \<le> mi" "mi < 10 ^ 2" "0 \<le> mi'" "mi' < 10 ^ 2" "0 \<le> ss" "ss < 10 ^ 2" "0 \<le> ss'" "ss' < 10 ^ 2"
    using assms by (simp_all add: a b valid_date_def)
  have cmp: "digits w (nat i) < digits w (nat j) \<longleftrightarrow> i < j" "digits w (nat i) = digits w (nat j) \<longleftrightarrow> i = j"
    if "0 \<le> i" "i < 10 ^ w" "0 \<le> j" "j < 10 ^ w" for i j :: int and w
    using that digits_less [of "nat i" w "nat j"] digits_eq [of "nat i" w "nat j"]
    by (auto simp: nat_less_iff)
  note cmps = cmp [OF bounds(1-4)] cmp [OF bounds(5-8)] cmp [OF bounds(9-12)] cmp [OF bounds(13-16)]
    cmp [OF bounds(17-20)] cmp [OF bounds(21-24)]
  show ?thesis
    unfolding a b format_clock_digits [OF assms(1) [unfolded a]] format_clock_digits [OF assms(2) [unfolded b]]
    by (simp only: append_less_append length_digits cmps append_Cons append_Nil Cons_less_Cons clock_less.simps)
      auto
qed

lemma clock_of_seconds_printable:
  "four_digit_year t \<Longrightarrow> clock_printable (clock_of_seconds (t div nanos_per_second))"
  using four_digit_year_year [of t] clock_of_seconds_correct [of "t div nanos_per_second"]
  by (cases "clock_of_seconds (t div nanos_per_second)") fastforce

text \<open>Timestamps sort as strings in the order of the seconds they name.\<close>

lemma FormatTimestamp_less:
  assumes "four_digit_year s" "four_digit_year t"
  shows "FormatTimestamp s < FormatTimestamp t \<longleftrightarrow> s div nanos_per_second < t div nanos_per_second"
  by (simp add: FormatTimestamp_def format_clock_less clock_of_seconds_printable assms clock_less_iff)

lemma FormatTimestamp_eq:
  assumes "four_digit_year s" "four_digit_year t"
  shows "FormatTimestamp s = FormatTimestamp t \<longleftrightarrow> s div nanos_per_second = t div nanos_per_second"
  using FormatTimestamp_less [OF assms] FormatTimestamp_less [OF assms(2,1)]
  by (metis FormatTimestamp_def less_irrefl linorder_neqE_linordered_idom)

lemma length_FormatTimestamp: "four_digit_year t \<Longrightarrow> length (FormatTimestamp t) = 16"
  using clock_of_seconds_printable [of t]
  by (cases "clock_of_seconds (t div nanos_per_second)")
    (simp add: FormatTimestamp_def format_clock_digits del: format_clock.simps clock_printable.simps)


lemma digits_all [simp]: "list_all is_digit (digits w n)"
  by (auto simp: list_all_iff dest: digits_are_digits)

lemma undigits_pad: "0 \<le> i \<Longrightarrow> i < 10 ^ w \<Longrightarrow> int (undigits (digits w (nat i))) = i"
  by (simp add: undigits_digits nat_less_iff)

lemma clock_printable_bounds:
  assumes "clock_printable (y, m, d, hh, mi, ss)"
  shows "0 \<le> y" "y < 10 ^ 4" "0 \<le> m" "m < 10 ^ 2" "0 \<le> d" "d < 10 ^ 2" "0 \<le> hh" "hh < 10 ^ 2"
    "0 \<le> mi" "mi < 10 ^ 2" "0 \<le> ss" "ss < 10 ^ 2"
proof -
  have "d \<le> 31" using assms days_in_month_le [of y m] by (auto simp: valid_date_def)
  then show "0 \<le> y" "y < 10 ^ 4" "0 \<le> m" "m < 10 ^ 2" "0 \<le> d" "d < 10 ^ 2" "0 \<le> hh" "hh < 10 ^ 2"
    "0 \<le> mi" "mi < 10 ^ 2" "0 \<le> ss" "ss < 10 ^ 2"
    using assms by (auto simp: valid_date_def)
qed

lemma ParseTimestamp_FormatTimestamp:
  assumes "four_digit_year t"
  shows "ParseTimestamp (FormatTimestamp t) = Inr (t div nanos_per_second * nanos_per_second)"
proof -
  obtain y m d hh mi ss where c: "clock_of_seconds (t div nanos_per_second) = (y, m, d, hh, mi, ss)"
    by (cases "clock_of_seconds (t div nanos_per_second)") auto
  have p: "clock_printable (y, m, d, hh, mi, ss)" using clock_of_seconds_printable [OF assms] c by simp
  note b = clock_printable_bounds [OF p]
  note u = undigits_pad [OF b(1,2)] undigits_pad [OF b(3,4)] undigits_pad [OF b(5,6)]
    undigits_pad [OF b(7,8)] undigits_pad [OF b(9,10)] undigits_pad [OF b(11,12)]
  have s: "seconds_of_clock (y, m, d, hh, mi, ss) = t div nanos_per_second"
    using clock_of_seconds_correct [of "t div nanos_per_second"] c by simp
  have v: "valid_clock (y, m, d, hh, mi, ss)" using p by simp
  have f: "FormatTimestamp t = digits 4 (nat y) @ digits 2 (nat m) @ digits 2 (nat d) @ ''T'' @ digits 2 (nat hh)
      @ digits 2 (nat mi) @ digits 2 (nat ss) @ ''Z''"
    unfolding FormatTimestamp_def c by (rule format_clock_digits [OF p])
  have i: "FormatTimestamp t ! 8 = CHR ''T''" "FormatTimestamp t ! 15 = CHR ''Z''"
    unfolding f by (simp_all add: nth_append)
  have t: "take 4 (drop 0 (FormatTimestamp t)) = digits 4 (nat y)"
    "take 2 (drop 4 (FormatTimestamp t)) = digits 2 (nat m)"
    "take 2 (drop 6 (FormatTimestamp t)) = digits 2 (nat d)"
    "take 2 (drop 9 (FormatTimestamp t)) = digits 2 (nat hh)"
    "take 2 (drop 11 (FormatTimestamp t)) = digits 2 (nat mi)"
    "take 2 (drop 13 (FormatTimestamp t)) = digits 2 (nat ss)"
    "take 8 (FormatTimestamp t) = digits 4 (nat y) @ digits 2 (nat m) @ digits 2 (nat d)"
    "take 6 (drop 9 (FormatTimestamp t)) = digits 2 (nat hh) @ digits 2 (nat mi) @ digits 2 (nat ss)"
    unfolding f by simp_all
  show ?thesis
    unfolding ParseTimestamp_def Let_def t u i s length_FormatTimestamp [OF assms]
    using v by simp
qed

section \<open>RFC 3339, the JSON form of a time\<close>

definition format_frac :: "int \<Rightarrow> string" where
  "format_frac ns = (if ns = 0 then ''''
     else CHR ''.'' # rev (dropWhile (\<lambda>c. c = CHR ''0'') (rev (digits 9 (nat ns)))))"

fun format_rfc3339 :: "clock \<Rightarrow> int \<Rightarrow> string" where
  "format_rfc3339 (y, m, d, hh, mi, ss) ns =
     append_int 4 y @ ''-'' @ pad_int 2 m @ ''-'' @ pad_int 2 d @ ''T'' @ pad_int 2 hh @ '':'' @ pad_int 2 mi
       @ '':'' @ pad_int 2 ss @ format_frac ns @ ''Z''"

text \<open>\<open>Time.MarshalJSON\<close> of a UTC time, without the quotes: years beyond four digits are refused.\<close>

definition FormatRFC3339Nano :: "time \<Rightarrow> error + string" where
  "FormatRFC3339Nano t =
     (let c = clock_of_seconds (t div nanos_per_second)
      in if 0 \<le> fst c \<and> fst c \<le> 9999 then Inr (format_rfc3339 c (t mod nanos_per_second))
         else Inl (Errorf ''Time.MarshalJSON: year outside of range [0,9999]'' []))"

text \<open>The fraction after the seconds: nanoseconds, further digits dropped, and the rest.\<close>

definition parse_frac :: "string \<Rightarrow> int \<times> string" where
  "parse_frac s =
     (if 2 \<le> length s \<and> s ! 0 = CHR ''.'' \<and> is_digit (s ! 1)
      then (let ds = takeWhile is_digit (drop 1 s); kept = take 9 ds
            in (int (undigits kept * 10 ^ (9 - length kept)), drop (length ds) (drop 1 s)))
      else (0, s))"

text \<open>The zone: seconds east of UTC.\<close>

definition parse_zone :: "string \<Rightarrow> int option" where
  "parse_zone s =
     (if s = ''Z'' then Some 0
      else if length s = 6 \<and> (s ! 0 = CHR ''+'' \<or> s ! 0 = CHR ''-'') \<and> s ! 3 = CHR '':''
           \<and> list_all is_digit (take 2 (drop 1 s)) \<and> list_all is_digit (drop 4 s)
           \<and> undigits (take 2 (drop 1 s)) \<le> 24 \<and> undigits (drop 4 s) < 60
      then (let offset = int (undigits (take 2 (drop 1 s)) * 3600 + undigits (drop 4 s) * 60)
            in Some (if s ! 0 = CHR ''-'' then - offset else offset))
      else None)"

definition ParseRFC3339 :: "string \<Rightarrow> error + time" where
  "ParseRFC3339 s =
     (let num = (\<lambda>i n. int (undigits (take n (drop i s))));
          c = (num 0 4, num 5 2, num 8 2, num 11 2, num 14 2, num 17 2);
          (ns, z) = parse_frac (drop 19 s)
      in if 19 \<le> length s \<and> list_all is_digit (take 4 s) \<and> s ! 4 = CHR ''-''
            \<and> list_all is_digit (take 2 (drop 5 s)) \<and> s ! 7 = CHR ''-''
            \<and> list_all is_digit (take 2 (drop 8 s)) \<and> s ! 10 = CHR ''T''
            \<and> list_all is_digit (take 2 (drop 11 s)) \<and> s ! 13 = CHR '':''
            \<and> list_all is_digit (take 2 (drop 14 s)) \<and> s ! 16 = CHR '':''
            \<and> list_all is_digit (take 2 (drop 17 s)) \<and> valid_clock c
         then (case parse_zone z of
                 Some offset \<Rightarrow> Inr ((seconds_of_clock c - offset) * nanos_per_second + ns)
               | None \<Rightarrow> Inl (Errorf ''cannot parse'' [s]))
         else Inl (Errorf ''cannot parse'' [s]))"

lemma undigits_append_zeros: "undigits (s @ replicate k CHR ''0'') = undigits s * 10 ^ k"
proof (induction k)
  case (Suc k)
  have "s @ replicate (Suc k) CHR ''0'' = (s @ replicate k CHR ''0'') @ [CHR ''0'']"
    by (simp add: replicate_append_same)
  with Suc show ?case by (simp only: undigits_snoc) (simp add: digit_value_def)
qed simp

lemma trim_zeros: "\<exists>k. s = rev (dropWhile (\<lambda>c. c = x) (rev s)) @ replicate k x"
proof -
  have "rev s = takeWhile (\<lambda>c. c = x) (rev s) @ dropWhile (\<lambda>c. c = x) (rev s)" by simp
  moreover have "takeWhile (\<lambda>c. c = x) (rev s) = replicate (length (takeWhile (\<lambda>c. c = x) (rev s))) x"
    by (metis (mono_tags, lifting) replicate_length_same set_takeWhileD)
  ultimately have "s = rev (dropWhile (\<lambda>c. c = x) (rev s)) @ rev (replicate (length (takeWhile (\<lambda>c. c = x) (rev s))) x)"
    by (metis rev_append rev_rev_ident)
  then show ?thesis unfolding rev_replicate by blast
qed

lemma parse_frac_format:
  assumes "0 \<le> ns" "ns < nanos_per_second"
  shows "parse_frac (format_frac ns @ ''Z'') = (ns, ''Z'')"
proof (cases "ns = 0")
  case False
  define ds where "ds = rev (dropWhile (\<lambda>c. c = CHR ''0'') (rev (digits 9 (nat ns))))"
  obtain k where k: "digits 9 (nat ns) = ds @ replicate k CHR ''0''"
    unfolding ds_def using trim_zeros [of "digits 9 (nat ns)" "CHR ''0''"] by (elim exE)
  have len: "length ds + k = 9" using arg_cong [OF k, of length] by simp
  have und: "undigits ds * 10 ^ k = nat ns"
    using undigits_append_zeros [of ds k] undigits_digits [of 9 "nat ns"] assms
    by (simp add: k nanos_per_second_def nat_less_iff)
  then have ne: "ds \<noteq> []" using False assms by (cases ds) auto
  have dig: "\<forall>c\<in>set ds. is_digit c"
    using digits_all [of 9 "nat ns"] by (simp add: k list_all_iff)
  have "is_digit (ds ! 0)" using ne dig by (cases ds) auto
  moreover have "takeWhile is_digit (ds @ ''Z'') = ds"
    using dig by (simp add: takeWhile_append2 is_digit_def)
  moreover have "take 9 ds = ds" "k = 9 - length ds" using len by simp_all
  moreover have "int (undigits ds * 10 ^ k) = ns" using und assms by simp
  moreover have "(ds @ ''Z'') ! 0 = ds ! 0" using ne by (cases ds) auto
  ultimately show ?thesis
    using False ne by (simp add: parse_frac_def format_frac_def ds_def [symmetric] Let_def)
qed (simp add: format_frac_def parse_frac_def is_digit_def)


lemma ParseRFC3339_FormatRFC3339Nano:
  assumes "four_digit_year t"
  shows "\<exists>s. FormatRFC3339Nano t = Inr s \<and> ParseRFC3339 s = Inr t \<and> list_all (\<lambda>c. CHR '' '' < c \<and> c < CHR ''a'') s"
proof -
  obtain y m d hh mi ss where c: "clock_of_seconds (t div nanos_per_second) = (y, m, d, hh, mi, ss)"
    by (cases "clock_of_seconds (t div nanos_per_second)") auto
  have p: "clock_printable (y, m, d, hh, mi, ss)" using clock_of_seconds_printable [OF assms] c by simp
  note b = clock_printable_bounds [OF p]
  note u = undigits_pad [OF b(1,2)] undigits_pad [OF b(3,4)] undigits_pad [OF b(5,6)]
    undigits_pad [OF b(7,8)] undigits_pad [OF b(9,10)] undigits_pad [OF b(11,12)]
  have sec: "seconds_of_clock (y, m, d, hh, mi, ss) = t div nanos_per_second"
    using clock_of_seconds_correct [of "t div nanos_per_second"] c by simp
  have v: "valid_clock (y, m, d, hh, mi, ss)" using p by simp
  define ns where "ns = t mod nanos_per_second"
  have ns: "0 \<le> ns" "ns < nanos_per_second" by (simp_all add: ns_def nanos_per_second_def)
  define s where "s = digits 4 (nat y) @ ''-'' @ digits 2 (nat m) @ ''-'' @ digits 2 (nat d) @ ''T''
    @ digits 2 (nat hh) @ '':'' @ digits 2 (nat mi) @ '':'' @ digits 2 (nat ss) @ format_frac ns @ ''Z''"
  have f: "FormatRFC3339Nano t = Inr s"
    using b p by (simp add: FormatRFC3339Nano_def c s_def ns_def [symmetric] append_int_def pad_int_digits)
  have t: "take 4 (drop 0 s) = digits 4 (nat y)" "take 2 (drop 5 s) = digits 2 (nat m)"
    "take 2 (drop 8 s) = digits 2 (nat d)" "take 2 (drop 11 s) = digits 2 (nat hh)"
    "take 2 (drop 14 s) = digits 2 (nat mi)" "take 2 (drop 17 s) = digits 2 (nat ss)"
    "drop 19 s = format_frac ns @ ''Z''" "take 4 s = digits 4 (nat y)"
    unfolding s_def by simp_all
  have i: "s ! 4 = CHR ''-''" "s ! 7 = CHR ''-''" "s ! 10 = CHR ''T''" "s ! 13 = CHR '':''" "s ! 16 = CHR '':''"
    "19 \<le> length s"
    unfolding s_def by (simp_all add: nth_append)
  have "ParseRFC3339 s = Inr (t div nanos_per_second * nanos_per_second + ns)"
    unfolding ParseRFC3339_def Let_def t u i sec parse_frac_format [OF ns] using v i(6)
    by (simp add: parse_zone_def)
  then have "ParseRFC3339 s = Inr t" by (simp add: ns_def)
  moreover have "list_all (\<lambda>c. CHR '' '' < c \<and> c < CHR ''a'') s"
  proof -
    have dig: "CHR '' '' < x \<and> x < CHR ''a''" if "is_digit x" for x
      using that unfolding is_digit_def by (simp add: char_le_iff char_less_iff)
    have "x \<in> set (format_frac ns) \<Longrightarrow> is_digit x \<or> x = CHR ''.''" for x
      by (auto simp: format_frac_def split: if_splits dest!: set_dropWhileD dest: digits_are_digits)
    then have "list_all (\<lambda>c. CHR '' '' < c \<and> c < CHR ''a'') (format_frac ns)"
      using dig by (fastforce simp: list_all_iff)
    moreover have "list_all (\<lambda>c. CHR '' '' < c \<and> c < CHR ''a'') (digits w n)" for w n
      using dig by (auto simp: list_all_iff dest: digits_are_digits)
    ultimately show ?thesis unfolding s_def by simp
  qed
  ultimately show ?thesis using f by blast
qed


text \<open>\<open>Format(time.RFC3339)\<close>, used in messages.\<close>

definition FormatRFC3339 :: "time \<Rightarrow> string" where
  "FormatRFC3339 t = format_rfc3339 (clock_of_seconds (t div nanos_per_second)) 0"

end
