(* ===== verification/Snapshot.thy ===== *)
theory Snapshot
  imports Capture_Rules Json_Codec Go_Time "HOL-Library.Multiset"
begin

text \<open>
  Package \<open>internal/snapshot\<close>: the snapshot document (\<open>types.go\<close>), its canonical encoding and
  digests (\<open>canonical.go\<close>) and the capture itself (\<open>extract.go\<close>).

  SHA-256 is the parameter \<open>sha\<close>, from bytes to the hexadecimal digest; nothing is assumed of it
  here. A Cluster is what the code reads of the CloudNativePG type, with the result of
  \<open>pathutil.ToMap\<close> on it as one field.
\<close>

section \<open>Documents\<close>

definition APIVersion_const :: string where
  "APIVersion_const = ''chronicle.sharifmshaker.github.io/v1''"

definition Kind_const :: string where
  "Kind_const = ''ClusterMetadataSnapshot''"

record ClusterRef =
  Ref_Name :: string
  Ref_Namespace :: string
  Ref_UID :: string

record SourceInfo =
  PluginVersion :: string
  ImageName :: string

type_synonym strmap = "(string, string) gmap"

record Content =
  Spec :: obj
  Labels :: strmap
  Annotations :: strmap

record Snapshot =
  APIVersion :: string
  Kind :: string
  CapturedAt :: time
  Generation :: int
  Cluster :: ClusterRef
  Source :: SourceInfo
  CapturedGroups :: "string list"
  CaptureRules :: string
  ContentOf :: Content
  Checksum_of :: string

text \<open>What the plugin reads of an \<open>apiv1.Cluster\<close>.\<close>

record PluginRef =
  Plugin_Name :: string
  Plugin_Enabled :: "bool option"
  Plugin_Parameters :: strmap

record PluginStatus =
  PluginStatus_Name :: string
  PluginStatus_Status :: string

record Cluster =
  Cluster_Name :: string
  Cluster_Namespace :: string
  Cluster_UID :: string
  Cluster_Generation :: int
  Cluster_Labels :: strmap
  Cluster_Annotations :: strmap
  Status_Image :: string
  Cluster_Plugins :: "PluginRef list"
  Cluster_PluginStatus :: "PluginStatus list"
  Cluster_ToMap :: "error + obj"

section \<open>Canonical encoding and digests\<close>

definition strmap_json :: "strmap \<Rightarrow> json" where
  "strmap_json m = JObject (map (\<lambda>(k, v). (k, JString v)) m)"

text \<open>A nil slice is \<open>null\<close>.\<close>

definition strings_json :: "string list \<Rightarrow> json" where
  "strings_json xs = (if xs = [] then JNull else JArray (map JString xs))"

text \<open>\<open>omitempty\<close>.\<close>

definition omit_empty :: "string \<Rightarrow> ('a list \<Rightarrow> json) \<Rightarrow> 'a list \<Rightarrow> (string \<times> json) list" where
  "omit_empty name render xs = (if xs = [] then [] else [(name, render xs)])"

definition content_fields :: "Content \<Rightarrow> (string \<times> json) list" where
  "content_fields c =
     omit_empty ''spec'' JObject (Spec c) @ omit_empty ''labels'' strmap_json (Labels c)
       @ omit_empty ''annotations'' strmap_json (Annotations c)"

definition Canonical :: "Content \<Rightarrow> error + bytes" where
  "Canonical content = Marshal (JObject (content_fields content))"

definition digest :: "(bytes \<Rightarrow> string) \<Rightarrow> bytes \<Rightarrow> string" where
  "digest sha encoded = ''sha256:'' @ sha encoded"

definition Checksum :: "(bytes \<Rightarrow> string) \<Rightarrow> Content \<Rightarrow> error + string" where
  "Checksum sha content =
     (case Canonical content of Inl err \<Rightarrow> Inl err | Inr encoded \<Rightarrow> Inr (digest sha encoded))"

definition MetadataFingerprint ::
  "(bytes \<Rightarrow> string) \<Rightarrow> strmap \<Rightarrow> strmap \<Rightarrow> string list \<Rightarrow> string \<Rightarrow> error + string" where
  "MetadataFingerprint sha labels annotations groups captureRules =
     (let (labels, annotations) =
            (if List.member groups MetadataGroupName then (labels, annotations) else ([], []));
          content = \<lparr>Spec = [], Labels = FilterMetadata labels, Annotations = FilterMetadata annotations\<rparr>;
          fingerprint = content_fields content
            @ omit_empty ''captureGroups'' strings_json (sort groups)
            @ omit_empty ''captureRules'' JString captureRules
      in (case Marshal (JObject fingerprint) of
            Inl err \<Rightarrow> Inl err
          | Inr encoded \<Rightarrow> Inr (digest sha encoded)))"

definition group_paths_map :: "string list \<Rightarrow> (string, string list) gmap" where
  "group_paths_map selected =
     fold (\<lambda>name paths. gmap_set paths name
         (case LookupGroup name of Some grp \<Rightarrow> Group_Paths grp | None \<Rightarrow> [])) selected []"

text \<open>Every field is made of strings, so the encoding cannot fail.\<close>

definition CaptureRulesDigest :: "cnpg \<Rightarrow> (bytes \<Rightarrow> string) \<Rightarrow> string list \<Rightarrow> string" where
  "CaptureRulesDigest C sha groups =
     (let selected = sort groups;
          paths = group_paths_map selected;
          rules = JObject [
            (''groups'', JObject (map (\<lambda>(name, ps). (name, strings_json ps)) paths)),
            (''deniedPaths'', strings_json DeniedPaths),
            (''deniedMetadataDomains'', strings_json deniedMetadataDomains),
            (''deniedMetadataKeys'', strings_json deniedMetadataKeys),
            (''fixedParameters'', strings_json (sort (remdups (FixedConfigurationParameters C)))),
            (''managedLibraries'', strings_json (managedLibraries C))]
      in (case Marshal rules of Inl _ \<Rightarrow> digest sha [] | Inr encoded \<Rightarrow> digest sha encoded))"

section \<open>Capture\<close>

record ExtractOptions =
  Opt_Groups :: "string list"
  Opt_PluginVersion :: string
  Opt_Now :: time

definition ExtractOptions_groups :: "ExtractOptions \<Rightarrow> string list" where
  "ExtractOptions_groups opts = (if Opt_Groups opts = [] then DefaultGroupNames else Opt_Groups opts)"

text \<open>The wall clock is read only when no time is given.\<close>

definition ExtractOptions_now :: "time \<Rightarrow> ExtractOptions \<Rightarrow> time" where
  "ExtractOptions_now wall opts = (if Opt_Now opts = 0 then wall else Opt_Now opts)"

fun extract_paths :: "obj \<Rightarrow> string \<Rightarrow> string list \<Rightarrow> obj \<Rightarrow> error + obj" where
  "extract_paths source name [] captured = Inr captured"
| "extract_paths source name (path # paths) captured =
     (if IsDeniedPath path then Inl (Errorf ''capture group names denied path'' [name, path])
      else (case Get source path of
              None \<Rightarrow> extract_paths source name paths captured
            | Some value \<Rightarrow> extract_paths source name paths (fst (Set captured path value))))"

fun extract_groups :: "obj \<Rightarrow> string list \<Rightarrow> obj \<Rightarrow> bool \<Rightarrow> error + obj \<times> bool" where
  "extract_groups source [] captured metadataEnabled = Inr (captured, metadataEnabled)"
| "extract_groups source (name # names) captured metadataEnabled =
     (case LookupGroup name of
        None \<Rightarrow> Inl (Errorf ''unknown capture group'' (name # GroupNames))
      | Some grp \<Rightarrow>
          (case extract_paths source (Group_Name grp) (Group_Paths grp) captured of
             Inl err \<Rightarrow> Inl err
           | Inr captured' \<Rightarrow>
               extract_groups source names captured'
                 (if Group_Name grp = MetadataGroupName then True else metadataEnabled)))"

definition sanitizePostgresConfiguration :: "cnpg \<Rightarrow> obj \<Rightarrow> obj" where
  "sanitizePostgresConfiguration C captured =
     (let captured1 =
            (case Get captured ''spec.postgresql.parameters'' of
               Some (JObject asMap) \<Rightarrow>
                 (let filtered = FilterGUCs C asMap in
                  if filtered \<noteq> [] then fst (Set captured ''spec.postgresql.parameters'' (JObject filtered))
                  else Delete captured ''spec.postgresql.parameters'')
             | _ \<Rightarrow> captured)
      in (case Get captured1 ''spec.postgresql.shared_preload_libraries'' of
            Some (JArray asSlice) \<Rightarrow>
              (let filtered = FilterSharedPreloadLibraries C asSlice in
               if filtered \<noteq> []
               then fst (Set captured1 ''spec.postgresql.shared_preload_libraries'' (JArray filtered))
               else Delete captured1 ''spec.postgresql.shared_preload_libraries'')
          | _ \<Rightarrow> captured1))"

definition Extract ::
  "cnpg \<Rightarrow> (bytes \<Rightarrow> string) \<Rightarrow> time \<Rightarrow> Cluster option \<Rightarrow> ExtractOptions \<Rightarrow> error + Snapshot" where
  "Extract C sha wall cluster options =
     (case cluster of
        None \<Rightarrow> Inl (Errorf ''cannot extract from a nil cluster'' [])
      | Some cluster \<Rightarrow>
     (case Cluster_ToMap cluster of
        Inl err \<Rightarrow> Inl (Wrapped ''while serializing cluster'' [] err)
      | Inr source \<Rightarrow>
     (let enabled = ExtractOptions_groups options in
      case extract_groups source enabled [] False of
        Inl err \<Rightarrow> Inl err
      | Inr (captured, metadataEnabled) \<Rightarrow>
          (let captured = sanitizePostgresConfiguration C (ApplyDenylist captured);
               content = \<lparr>
                 Spec = (case gmap_get captured ''spec'' of Some (JObject spec) \<Rightarrow> spec | _ \<Rightarrow> []),
                 Labels = (if metadataEnabled then FilterMetadata (Cluster_Labels cluster) else []),
                 Annotations = (if metadataEnabled then FilterMetadata (Cluster_Annotations cluster) else [])\<rparr>
           in (case Checksum sha content of
                 Inl err \<Rightarrow> Inl (Wrapped ''while checksumming snapshot'' [] err)
               | Inr checksum \<Rightarrow> Inr \<lparr>
                   APIVersion = APIVersion_const,
                   Kind = Kind_const,
                   CapturedAt = ExtractOptions_now wall options,
                   Generation = Cluster_Generation cluster,
                   Cluster = \<lparr>Ref_Name = Cluster_Name cluster, Ref_Namespace = Cluster_Namespace cluster,
                     Ref_UID = Cluster_UID cluster\<rparr>,
                   Source = \<lparr>PluginVersion = Opt_PluginVersion options, ImageName = Status_Image cluster\<rparr>,
                   CapturedGroups = enabled,
                   CaptureRules = CaptureRulesDigest C sha enabled,
                   ContentOf = content,
                   Checksum_of = checksum\<rparr>)))))"


section \<open>What a capture contains\<close>

text \<open>The paths the enabled groups claim, and the fields of \<open>spec\<close> they name.\<close>

definition captured_paths :: "string list \<Rightarrow> string list" where
  "captured_paths names =
     concat (map (\<lambda>name. case LookupGroup name of Some g \<Rightarrow> Group_Paths g | None \<Rightarrow> []) names)"

definition claimed :: "string list \<Rightarrow> string \<Rightarrow> bool" where
  "claimed names f \<longleftrightarrow> List.member (captured_paths names) (''spec.'' @ f)"

text \<open>An object with nothing but a \<open>spec\<close>, absent when empty: the shape of every capture.\<close>

definition spec_only :: "obj \<Rightarrow> obj" where
  "spec_only fs = (if fs = [] then [] else [(''spec'', JObject fs)])"

definition take_field :: "obj \<Rightarrow> string \<Rightarrow> obj \<Rightarrow> obj" where
  "take_field source path fs =
     (case Get source path of None \<Rightarrow> fs | Some v \<Rightarrow> gmap_set fs (last (Split path)) v)"

lemma captured_paths_in_group:
  assumes "path \<in> set (captured_paths names)"
  shows "\<exists>g \<in> set Groups. path \<in> set (Group_Paths g)"
proof -
  obtain n where "path \<in> set (case LookupGroup n of Some g \<Rightarrow> Group_Paths g | None \<Rightarrow> [])"
    using assms by (auto simp: captured_paths_def)
  then show ?thesis using LookupGroup_in [of n] by (cases "LookupGroup n") auto
qed

lemma captured_paths_shape:
  assumes "path \<in> set (captured_paths names)"
  shows "\<exists>f. Split path = [''spec'', f] \<and> path = ''spec.'' @ f"
proof -
  obtain f where f: "Split path = [''spec'', f]"
    using captured_paths_in_group [OF assms] group_path_shape by blast
  with Join_Split [of path] show ?thesis by simp
qed

lemma claimed_not_denied: "claimed names f \<Longrightarrow> \<not> IsDeniedPath (''spec.'' @ f)"
  using captured_paths_in_group groups_not_denied by (fastforce simp: claimed_def List.member_iff)

lemma claimed_no_dot:
  assumes "claimed names f" shows "CHR ''.'' \<notin> set f \<and> Split (''spec.'' @ f) = [''spec'', f]"
proof -
  obtain g where g: "Split (''spec.'' @ f) = [''spec'', g]" "''spec.'' @ f = ''spec.'' @ g"
    using captured_paths_shape [of "''spec.'' @ f" names] assms unfolding claimed_def List.member_iff by blast
  then have "g = f" by simp
  with g(1) split_on_parts [of f "CHR ''.''" "''spec.'' @ f"] show ?thesis by (simp add: Split_def)
qed



lemma Set_spec_only:
  "Split path = [''spec'', f] \<Longrightarrow> Set (spec_only fs) path v = (spec_only (gmap_set fs f v), True)"
  by (simp add: Set_def spec_only_def)

lemma extract_paths_spec_only:
  assumes "\<forall>path \<in> set paths. \<not> IsDeniedPath path \<and> (\<exists>f. Split path = [''spec'', f])"
  shows "extract_paths source name paths (spec_only fs) = Inr (spec_only (fold (take_field source) paths fs))"
  using assms
proof (induction paths arbitrary: fs)
  case (Cons path paths)
  then obtain f where "Split path = [''spec'', f]" by auto
  with Cons Set_spec_only [of path f fs] show ?case by (simp add: take_field_def split: option.splits)
qed simp

lemma extract_groups_spec_only:
  "extract_groups source names (spec_only fs) m =
     (case find (\<lambda>n. LookupGroup n = None) names of
        Some n \<Rightarrow> Inl (Errorf ''unknown capture group'' (n # GroupNames))
      | None \<Rightarrow> Inr (spec_only (fold (take_field source) (captured_paths names) fs),
                  m \<or> MetadataGroupName \<in> set names))"
proof (induction names arbitrary: fs m)
  case (Cons n names)
  show ?case
  proof (cases "LookupGroup n")
    case (Some g)
    then have g: "g \<in> set Groups" "Group_Name g = n" by (auto dest: LookupGroup_in)
    have "extract_paths source (Group_Name g) (Group_Paths g) (spec_only fs)
        = Inr (spec_only (fold (take_field source) (Group_Paths g) fs))"
      using g groups_not_denied group_path_shape by (intro extract_paths_spec_only) blast
    with Some g Cons.IH [of "fold (take_field source) (Group_Paths g) fs"] show ?thesis
      by (auto simp: captured_paths_def split: option.splits)
  qed simp
qed (simp add: captured_paths_def)

text \<open>After the walk, a field of \<open>spec\<close> is there just when a group claims it and the source has it.\<close>

lemma fold_take_field_get:
  assumes "\<forall>path \<in> set paths. \<exists>g. Split path = [''spec'', g] \<and> path = ''spec.'' @ g"
  shows "gmap_get (fold (take_field source) paths fs) f =
    (if ''spec.'' @ f \<in> set paths \<and> GetSegments source [''spec'', f] \<noteq> None
     then GetSegments source [''spec'', f] else gmap_get fs f)"
  using assms
proof (induction paths arbitrary: fs)
  case (Cons path paths)
  then obtain g where g: "Split path = [''spec'', g]" "path = ''spec.'' @ g" by auto
  then have "gmap_get (take_field source path fs) f =
      (if g = f \<and> GetSegments source [''spec'', f] \<noteq> None then GetSegments source [''spec'', f] else gmap_get fs f)"
    by (auto simp: take_field_def Get_def go_map split: option.splits)
  with Cons g(2) show ?case by auto
qed simp

lemma fold_take_field_ok:
  "obj_ok source \<Longrightarrow> obj_ok fs \<Longrightarrow> obj_ok (fold (take_field source) paths fs)"
proof (induction paths arbitrary: fs)
  case (Cons path paths)
  have "json_ok v" if "Get source path = Some v" for v
    using GetSegments_ok [OF Cons.prems(1)] that by (simp add: Get_def)
  with Cons have "obj_ok (take_field source path fs)"
    by (auto simp: take_field_def intro: obj_ok_set split: option.splits simp del: json_ok.simps)
  with Cons show ?case by simp
qed simp


text \<open>The denylist pass over a capture removes nothing: the allowlist already kept it out.\<close>

lemma DeniedPaths_shape:
  "d \<in> set DeniedPaths \<Longrightarrow> hd (Split d) = ''spec'' \<and> (\<exists>y. Split d = [''spec'', y] \<and> d = ''spec.'' @ y)
     \<or> hd (Split d) \<noteq> ''spec'' \<and> d \<noteq> ''''"
proof -
  assume d: "d \<in> set DeniedPaths"
  have "list_all (\<lambda>d. d \<noteq> '''' \<and> (hd (Split d) = ''spec'' \<longrightarrow> length (Split d) = 2)) DeniedPaths" by code_simp
  with d have l: "d \<noteq> ''''" "hd (Split d) = ''spec'' \<longrightarrow> length (Split d) = 2" by (auto simp: list_all_iff)
  then have "hd (Split d) = ''spec'' \<Longrightarrow> \<exists>y. Split d = [''spec'', y]"
    by (auto simp: length_Suc_conv numeral_2_eq_2)
  moreover have "Split d = [''spec'', y] \<Longrightarrow> d = ''spec.'' @ y" for y using Join_Split [of d] by simp
  ultimately show ?thesis using l(1) by blast
qed

lemma delete_foreign: "hd p \<noteq> ''spec'' \<Longrightarrow> p \<noteq> [] \<Longrightarrow> deleteSegments (spec_only fs) p = spec_only fs"
  by (induction "spec_only fs" p rule: deleteSegments.induct)
    (auto simp: spec_only_def gmap_delete_def)

lemma Delete_denied_spec_only:
  assumes "d \<in> set DeniedPaths" "obj_ok fs" "\<And>f. gmap_get fs f \<noteq> None \<Longrightarrow> claimed names f"
  shows "Delete (spec_only fs) d = spec_only fs"
  using DeniedPaths_shape [OF assms(1)]
proof (elim disjE conjE exE)
  fix y assume y: "Split d = [''spec'', y]" "d = ''spec.'' @ y"
  have "IsDeniedPath (''spec.'' @ y)" using assms(1) y(2) by (auto simp: IsDeniedPath_iff)
  then have "gmap_get fs y = None" using assms(3) claimed_not_denied by blast
  then have "gmap_delete fs y = fs" using gm.del_absent assms(2) by auto
  with y(1) show ?thesis by (auto simp: Delete_def spec_only_def gmap_delete_def)
qed (simp add: Delete_def delete_foreign)

lemma ApplyDenylist_spec_only:
  assumes "obj_ok fs" "\<And>f. gmap_get fs f \<noteq> None \<Longrightarrow> claimed names f"
  shows "ApplyDenylist (spec_only fs) = spec_only fs"
proof -
  have "set ds \<subseteq> set DeniedPaths \<Longrightarrow> fold (\<lambda>path current. Delete current path) ds (spec_only fs) = spec_only fs"
    for ds
  proof (induction ds)
    case (Cons d ds)
    then have "Delete (spec_only fs) d = spec_only fs" using assms by (intro Delete_denied_spec_only) auto
    with Cons show ?case by simp
  qed simp
  then show ?thesis by (simp add: ApplyDenylist_def)
qed


subsection \<open>Stripping what the operator owns\<close>

definition params_path :: "string list" where
  "params_path = [''spec'', ''postgresql'', ''parameters'']"

definition libs_path :: "string list" where
  "libs_path = [''spec'', ''postgresql'', ''shared_preload_libraries'']"

lemma Split_sanitized [simp]:
  "Split ''spec.postgresql.parameters'' = params_path"
  "Split ''spec.postgresql.shared_preload_libraries'' = libs_path"
  by (code_simp, code_simp)

lemma paths_nonempty [simp]: "params_path \<noteq> []" "libs_path \<noteq> []"
  by (simp_all add: params_path_def libs_path_def)

lemma paths_parallel: "parallel libs_path (params_path @ r)" "parallel params_path (libs_path @ r)"
  by (auto simp: params_path_def libs_path_def parallel_def)

lemma SetSegments_overwrites: "GetSegments m p = Some w \<Longrightarrow> snd (SetSegments m p v)"
proof (induction m p v rule: SetSegments.induct)
  case (3 m s s2 ss v)
  then show ?case by (auto simp: GetSegments_Cons split: option.splits json.splits prod.splits)
qed auto

definition strip_parameters :: "cnpg \<Rightarrow> obj \<Rightarrow> obj" where
  "strip_parameters C m =
     (case GetSegments m params_path of
        Some (JObject asMap) \<Rightarrow>
          (if FilterGUCs C asMap \<noteq> [] then fst (SetSegments m params_path (JObject (FilterGUCs C asMap)))
           else deleteSegments m params_path)
      | _ \<Rightarrow> m)"

definition strip_libraries :: "cnpg \<Rightarrow> obj \<Rightarrow> obj" where
  "strip_libraries C m =
     (case GetSegments m libs_path of
        Some (JArray xs) \<Rightarrow>
          (if FilterSharedPreloadLibraries C xs \<noteq> []
           then fst (SetSegments m libs_path (JArray (FilterSharedPreloadLibraries C xs)))
           else deleteSegments m libs_path)
      | _ \<Rightarrow> m)"

lemma sanitize_two_steps: "sanitizePostgresConfiguration C m = strip_libraries C (strip_parameters C m)"
  by (simp add: sanitizePostgresConfiguration_def strip_parameters_def strip_libraries_def Get_def Set_def
      Delete_def Let_def split: option.splits json.splits)

lemma strip_parameters_frame: "parallel params_path q \<Longrightarrow> GetSegments (strip_parameters C m) q = GetSegments m q"
  by (simp add: strip_parameters_def SetSegments_frame deleteSegments_frame split: option.splits json.splits)

lemma strip_libraries_frame: "parallel libs_path q \<Longrightarrow> GetSegments (strip_libraries C m) q = GetSegments m q"
  by (simp add: strip_libraries_def SetSegments_frame deleteSegments_frame split: option.splits json.splits)

lemma GetSegments_append:
  "p \<noteq> [] \<Longrightarrow> GetSegments m (p @ r) = (case GetSegments m p of None \<Rightarrow> None | Some v \<Rightarrow> get_from v r)"
  by (simp add: GetSegments_def get_from_append)

lemma strip_parameters_get:
  assumes "obj_ok m"
  shows "GetSegments (strip_parameters C m) (params_path @ k # r) =
    (if k \<in> set (FixedConfigurationParameters C) then
       (case GetSegments m params_path of Some (JObject _) \<Rightarrow> None | _ \<Rightarrow> GetSegments m (params_path @ k # r))
     else GetSegments m (params_path @ k # r))"
proof (cases "\<exists>asMap. GetSegments m params_path = Some (JObject asMap)")
  case True
  then obtain asMap where a: "GetSegments m params_path = Some (JObject asMap)" by auto
  then have ok: "gmap_ok asMap" using GetSegments_ok [OF assms] by fastforce
  have filt: "gmap_get (FilterGUCs C asMap) k =
      (if k \<in> set (FixedConfigurationParameters C) then None else gmap_get asMap k)"
    using ok by (simp add: FilterGUCs_def gmap_get_filter List.member_iff split: option.splits)
  have old: "GetSegments m (params_path @ k # r) = get_from (JObject asMap) (k # r)"
    using a by (simp add: GetSegments_append)
  show ?thesis
  proof (cases "FilterGUCs C asMap = []")
    case True
    with a filt old show ?thesis
      by (auto simp: strip_parameters_def deleteSegments_gone split: if_splits option.splits)
  next
    case False
    with a filt old SetSegments_overwrites [OF a] show ?thesis
      by (simp add: strip_parameters_def SetSegments_below split: option.splits)
  qed
next
  case False
  then have "strip_parameters C m = m" by (auto simp: strip_parameters_def split: option.splits json.splits)
  with False show ?thesis by (auto split: option.splits json.splits)
qed

lemma strip_libraries_get:
  "GetSegments (strip_libraries C m) libs_path =
     (case GetSegments m libs_path of
        Some (JArray xs) \<Rightarrow>
          (if FilterSharedPreloadLibraries C xs = [] then None
           else Some (JArray (FilterSharedPreloadLibraries C xs)))
      | other \<Rightarrow> other)"
proof (cases "\<exists>xs. GetSegments m libs_path = Some (JArray xs)")
  case True
  then obtain xs where a: "GetSegments m libs_path = Some (JArray xs)" by auto
  show ?thesis
  proof (cases "FilterSharedPreloadLibraries C xs = []")
    case True
    with a show ?thesis using deleteSegments_gone [of libs_path m "[]"] by (simp add: strip_libraries_def)
  next
    case False
    with a SetSegments_get_same [OF SetSegments_overwrites [OF a]] show ?thesis
      by (simp add: strip_libraries_def)
  qed
next
  case False
  then have "strip_libraries C m = m" by (auto simp: strip_libraries_def split: option.splits json.splits)
  with False show ?thesis by (auto split: option.splits json.splits)
qed

lemma strip_parameters_ok: "obj_ok m \<Longrightarrow> obj_ok (strip_parameters C m)"
proof -
  assume ok: "obj_ok m"
  have "obj_ok (FilterGUCs C a)" if "GetSegments m params_path = Some (JObject a)" for a
    using GetSegments_ok [OF ok that] by (simp add: FilterGUCs_def obj_ok_filter del: json_ok.simps)
  with ok show ?thesis
    by (auto simp: strip_parameters_def SetSegments_ok deleteSegments_ok
        simp del: json_ok.simps split: option.splits json.splits)
qed


lemma Set_under_spec:
  "\<exists>fs'. fst (SetSegments (spec_only fs) (''spec'' # s # ss) v) = spec_only fs'"
proof (cases "fs = []")
  case True
  obtain n b where n: "SetSegments [] (s # ss) v = (n, b)" by (cases "SetSegments [] (s # ss) v") auto
  have "n \<noteq> []"
  proof
    assume "n = []"
    moreover have "GetSegments n (s # ss) = Some v"
      using SetSegments_get_same [of "[]" "s # ss" v] SetSegments_fresh [of "s # ss" v] n by simp
    ultimately show False by simp
  qed
  with True n show ?thesis by (auto simp: spec_only_def)
next
  case False
  obtain n b where n: "SetSegments fs (s # ss) v = (n, b)" by (cases "SetSegments fs (s # ss) v") auto
  have "n \<noteq> []"
  proof
    assume "n = []"
    then show False
      using SetSegments_get_same [of fs "s # ss" v] n False
      by (cases ss) (auto split: option.splits json.splits prod.splits)
  qed
  with False n show ?thesis by (auto simp: spec_only_def)
qed

lemma Delete_under_spec: "\<exists>fs'. deleteSegments (spec_only fs) (''spec'' # s # ss) = spec_only fs'"
  by (cases "deleteSegments fs (s # ss) = []") (auto simp: spec_only_def Let_def gmap_delete_def)

lemma sanitize_spec_only: "\<exists>fs'. sanitizePostgresConfiguration C (spec_only fs) = spec_only fs'"
proof -
  have "\<exists>fs'. strip_parameters C (spec_only gs) = spec_only fs'" for gs
    using Set_under_spec [of gs "''postgresql''" "[''parameters'']"]
      Delete_under_spec [of gs "''postgresql''" "[''parameters'']"]
    by (auto simp: strip_parameters_def params_path_def split: option.splits json.splits)
  moreover have "\<exists>fs'. strip_libraries C (spec_only gs) = spec_only fs'" for gs
    using Set_under_spec [of gs "''postgresql''" "[''shared_preload_libraries'']"]
      Delete_under_spec [of gs "''postgresql''" "[''shared_preload_libraries'']"]
    by (auto simp: strip_libraries_def libs_path_def split: option.splits json.splits)
  ultimately show ?thesis unfolding sanitize_two_steps by metis
qed

lemma GetSegments_spec_only: "q \<noteq> [] \<Longrightarrow> GetSegments (spec_only fs) (''spec'' # q) = GetSegments fs q"
  by (simp add: spec_only_def GetSegments_Cons)

subsection \<open>The shape of a capture\<close>

text \<open>What a successful capture is made of.\<close>

definition captured_fields :: "obj \<Rightarrow> string list \<Rightarrow> obj" where
  "captured_fields source names = fold (take_field source) (captured_paths names) []"

lemma captured_fields_get:
  "gmap_get (captured_fields source names) f =
     (if claimed names f then GetSegments source [''spec'', f] else None)"
  using fold_take_field_get [of "captured_paths names" source "[]" f] captured_paths_shape [of _ names]
  by (auto simp: captured_fields_def claimed_def List.member_iff)

lemma captured_fields_ok: "obj_ok source \<Longrightarrow> obj_ok (captured_fields source names)"
  unfolding captured_fields_def by (intro fold_take_field_ok) auto

lemma Extract_content:
  assumes "Extract C sha wall (Some cluster) opts = Inr snap" "Cluster_ToMap cluster = Inr source"
    and "obj_ok source"
  shows "spec_only (Spec (ContentOf snap)) =
      sanitizePostgresConfiguration C (spec_only (captured_fields source (ExtractOptions_groups opts)))"
proof -
  let ?names = "ExtractOptions_groups opts"
  let ?fs = "captured_fields source ?names"
  have start: "[] = spec_only []" by (simp add: spec_only_def)
  obtain captured m where g: "extract_groups source ?names [] False = Inr (captured, m)"
    using assms(1,2) by (auto simp: Extract_def Let_def split: sum.splits)
  then have cap: "captured = spec_only ?fs"
    using extract_groups_spec_only [of source ?names "[]" False] start
    by (simp add: captured_fields_def split: option.splits)
  have "ApplyDenylist captured = captured"
    unfolding cap
    by (rule ApplyDenylist_spec_only [OF captured_fields_ok [OF assms(3)], where names = ?names])
      (auto simp: captured_fields_get split: if_splits)
  moreover obtain fs' where s: "sanitizePostgresConfiguration C (spec_only ?fs) = spec_only fs'"
    using sanitize_spec_only by blast
  ultimately have "Spec (ContentOf snap) = fs'"
    using assms(1,2) g by (auto simp: Extract_def Let_def cap spec_only_def split: sum.splits if_splits)
  with s show ?thesis by simp
qed

lemma claimed_lookup:
  assumes "\<And>f. gmap_get fs f = (if claimed names f then GetSegments source [''spec'', f] else None)"
  shows "GetSegments fs (f # r) = (if claimed names f then GetSegments source (''spec'' # f # r) else None)"
proof (cases "r = []")
  case False
  have "GetSegments source ([''spec'', f] @ r) =
      (case GetSegments source [''spec'', f] of None \<Rightarrow> None | Some v \<Rightarrow> get_from v r)"
    by (rule GetSegments_append) simp
  moreover have "GetSegments fs ([f] @ r) = (case GetSegments fs [f] of None \<Rightarrow> None | Some v \<Rightarrow> get_from v r)"
    by (rule GetSegments_append) simp
  ultimately show ?thesis using assms [of f] by simp
qed (simp add: assms)


lemma spec_only_ok: "obj_ok fs \<Longrightarrow> obj_ok (spec_only fs)"
  by (auto simp: spec_only_def gmap_ok_def)

lemma Extract_lookup:
  assumes "Extract C sha wall (Some cluster) opts = Inr snap" "Cluster_ToMap cluster = Inr source"
    and "obj_ok source"
  shows "\<exists>m. obj_ok m
    \<and> (\<forall>q. q \<noteq> [] \<longrightarrow>
        GetSegments (Spec (ContentOf snap)) q = GetSegments (sanitizePostgresConfiguration C m) (''spec'' # q))
    \<and> (\<forall>f r. GetSegments m (''spec'' # f # r) =
        (if claimed (ExtractOptions_groups opts) f then GetSegments source (''spec'' # f # r) else None))"
proof -
  let ?fs = "captured_fields source (ExtractOptions_groups opts)"
  have "obj_ok (spec_only ?fs)" by (rule spec_only_ok [OF captured_fields_ok [OF assms(3)]])
  moreover have "q \<noteq> [] \<Longrightarrow> GetSegments (Spec (ContentOf snap)) q
      = GetSegments (sanitizePostgresConfiguration C (spec_only ?fs)) (''spec'' # q)" for q
    using Extract_content [OF assms] GetSegments_spec_only [of q "Spec (ContentOf snap)"] by simp
  moreover have "GetSegments (spec_only ?fs) (''spec'' # f # r) =
      (if claimed (ExtractOptions_groups opts) f then GetSegments source (''spec'' # f # r) else None)" for f r
    using claimed_lookup [OF captured_fields_get] by (simp add: GetSegments_spec_only)
  ultimately show ?thesis by blast
qed

lemma sanitize_frame:
  "parallel params_path q \<Longrightarrow> parallel libs_path q \<Longrightarrow>
     GetSegments (sanitizePostgresConfiguration C m) q = GetSegments m q"
  by (simp add: sanitize_two_steps strip_libraries_frame strip_parameters_frame)

lemma sanitize_parameters:
  assumes "obj_ok m"
  shows "GetSegments (sanitizePostgresConfiguration C m) (params_path @ [k]) =
    (if k \<in> set (FixedConfigurationParameters C) then None else GetSegments m (params_path @ [k]))"
proof -
  have "GetSegments m (params_path @ [k]) = None" if "\<nexists>a. GetSegments m params_path = Some (JObject a)"
    using that by (auto simp: GetSegments_append split: option.splits dest: get_from_scalar elim: is_object.elims)
      (metis get_from.simps(3-7) json.exhaust option.distinct(1))
  then show ?thesis
    using strip_parameters_get [OF assms, of C k "[]"] paths_parallel(1) [of "[k]"]
    by (auto simp: sanitize_two_steps strip_libraries_frame split: option.splits json.splits)
qed

lemma sanitize_libraries:
  "GetSegments (sanitizePostgresConfiguration C m) libs_path =
     (case GetSegments m libs_path of
        Some (JArray xs) \<Rightarrow>
          (if FilterSharedPreloadLibraries C xs = [] then None
           else Some (JArray (FilterSharedPreloadLibraries C xs)))
      | other \<Rightarrow> other)"
  using strip_parameters_frame [OF paths_parallel(2) [of "[]"]]
  by (simp add: sanitize_two_steps strip_libraries_get)

text \<open>
  Without the two filtered settings in the way, a value is in the capture exactly when a group
  claims its field, and then as the cluster has it.
\<close>

lemma Extract_exact:
  assumes "Extract C sha wall (Some cluster) opts = Inr snap" "Cluster_ToMap cluster = Inr source"
    and "obj_ok source" "parallel params_path (''spec'' # f # r)" "parallel libs_path (''spec'' # f # r)"
  shows "GetSegments (Spec (ContentOf snap)) (f # r) =
    (if claimed (ExtractOptions_groups opts) f then GetSegments source (''spec'' # f # r) else None)"
  using Extract_lookup [OF assms(1-3)] sanitize_frame [OF assms(4,5)] by (elim exE conjE) simp

lemma Extract_unclaimed:
  assumes "Extract C sha wall (Some cluster) opts = Inr snap" "Cluster_ToMap cluster = Inr source"
    and "obj_ok source" "\<not> claimed (ExtractOptions_groups opts) f"
  shows "GetSegments (Spec (ContentOf snap)) (f # r) = None"
  using Extract_lookup [OF assms(1-3)]
proof (elim exE conjE)
  fix m
  assume q: "\<forall>q. q \<noteq> [] \<longrightarrow>
      GetSegments (Spec (ContentOf snap)) q = GetSegments (sanitizePostgresConfiguration C m) (''spec'' # q)"
    and "\<forall>f r. GetSegments m (''spec'' # f # r) =
      (if claimed (ExtractOptions_groups opts) f then GetSegments source (''spec'' # f # r) else None)"
  then have m: "GetSegments m (''spec'' # f # r) = None" for r using assms(4) by simp
  have "sanitizePostgresConfiguration C m = m" if "f = ''postgresql''"
    using m that
    by (simp add: sanitize_two_steps strip_libraries_def strip_parameters_def params_path_def libs_path_def)
  moreover have "parallel params_path (''spec'' # f # r)" "parallel libs_path (''spec'' # f # r)"
    if "f \<noteq> ''postgresql''" using that by (auto simp: parallel_def params_path_def libs_path_def)
  ultimately have "GetSegments (sanitizePostgresConfiguration C m) (''spec'' # f # r) = None"
    using m sanitize_frame [of "''spec'' # f # r" C m] by (cases "f = ''postgresql''") auto
  with q show ?thesis by simp
qed

lemma Extract_parameters:
  assumes "Extract C sha wall (Some cluster) opts = Inr snap" "Cluster_ToMap cluster = Inr source"
    and "obj_ok source"
  shows "GetSegments (Spec (ContentOf snap)) [''postgresql'', ''parameters'', k] =
    (if claimed (ExtractOptions_groups opts) ''postgresql'' \<and> k \<notin> set (FixedConfigurationParameters C)
     then GetSegments source [''spec'', ''postgresql'', ''parameters'', k] else None)"
  using Extract_lookup [OF assms(1-3)]
proof (elim exE conjE)
  fix m
  assume ok: "obj_ok m" and q: "\<forall>q. q \<noteq> [] \<longrightarrow>
      GetSegments (Spec (ContentOf snap)) q = GetSegments (sanitizePostgresConfiguration C m) (''spec'' # q)"
    and c: "\<forall>f r. GetSegments m (''spec'' # f # r) =
      (if claimed (ExtractOptions_groups opts) f then GetSegments source (''spec'' # f # r) else None)"
  show ?thesis
    using sanitize_parameters [OF ok, of C k] q [rule_format, of "[''postgresql'', ''parameters'', k]"] c
    by (simp add: params_path_def)
qed

lemma Extract_libraries:
  assumes "Extract C sha wall (Some cluster) opts = Inr snap" "Cluster_ToMap cluster = Inr source"
    and "obj_ok source"
  shows "GetSegments (Spec (ContentOf snap)) [''postgresql'', ''shared_preload_libraries''] =
    (case (if claimed (ExtractOptions_groups opts) ''postgresql''
           then GetSegments source [''spec'', ''postgresql'', ''shared_preload_libraries''] else None) of
       Some (JArray xs) \<Rightarrow>
         (if FilterSharedPreloadLibraries C xs = [] then None
          else Some (JArray (FilterSharedPreloadLibraries C xs)))
     | other \<Rightarrow> other)"
  using Extract_lookup [OF assms(1-3)]
proof (elim exE conjE)
  fix m
  assume q: "\<forall>q. q \<noteq> [] \<longrightarrow>
      GetSegments (Spec (ContentOf snap)) q = GetSegments (sanitizePostgresConfiguration C m) (''spec'' # q)"
    and c: "\<forall>f r. GetSegments m (''spec'' # f # r) =
      (if claimed (ExtractOptions_groups opts) f then GetSegments source (''spec'' # f # r) else None)"
  show ?thesis
    using sanitize_libraries [of C m] q [rule_format, of "[''postgresql'', ''shared_preload_libraries'']"] c
    by (simp add: libs_path_def)
qed


subsection \<open>A capture is a good document\<close>

context hereditary
begin

lemma P_strip_parameters:
  assumes "P (JObject m)" "list_all K params_path"
  shows "P (JObject (strip_parameters C m))"
proof -
  have "P (JObject (FilterGUCs C a))" if "GetSegments m params_path = Some (JObject a)" for a
    using P_get [OF assms(1) that] by (simp add: FilterGUCs_def P_filter)
  with assms show ?thesis
    by (auto simp: strip_parameters_def intro!: P_delete P_set split: option.splits json.splits)
qed

lemma P_strip_libraries: "P (JObject m) \<Longrightarrow> list_all K libs_path \<Longrightarrow> P (JObject (strip_libraries C m))"
  by (auto simp: strip_libraries_def FilterSharedPreloadLibraries_def P_array
      split: option.splits json.splits dest: P_get intro!: P_delete P_set)

lemma P_fold_take_field:
  assumes "P (JObject source)" "\<forall>path \<in> set paths. \<exists>f. Split path = [''spec'', f]"
  shows "P (JObject fs) \<Longrightarrow> P (JObject (fold (take_field source) paths fs))"
  using assms(2)
proof (induction paths arbitrary: fs)
  case (Cons path paths)
  then obtain f where f: "Split path = [''spec'', f]" by auto
  have "P (JObject (take_field source path fs))"
  proof (cases "Get source path")
    case (Some v)
    then obtain n where n: "gmap_get source ''spec'' = Some (JObject n)" "gmap_get n f = Some v"
      using f by (auto simp: Get_def GetSegments_Cons split: option.splits json.splits)
    then have "K f" using P_entry [OF assms(1) n(1)] by (force simp: P_object dest: gmap_get_in_set)
    then show ?thesis using Some f Cons.prems(1) P_get [OF assms(1)]
      by (auto simp: take_field_def Get_def intro!: P_set_entry)
  qed (use Cons in \<open>simp add: take_field_def\<close>)
  with Cons show ?case by simp
qed simp

text \<open>So a capture has every such property its source has.\<close>

lemma P_Extract:
  assumes "Extract C sha wall (Some cluster) opts = Inr snap" "Cluster_ToMap cluster = Inr source"
    and "P (JObject source)" "obj_ok source" "list_all K params_path" "list_all K libs_path"
  shows "P (JObject (Spec (ContentOf snap)))"
proof -
  let ?fs = "captured_fields source (ExtractOptions_groups opts)"
  have "P (JObject ?fs)"
    unfolding captured_fields_def
    by (rule P_fold_take_field [OF assms(3)]) (use captured_paths_shape in \<open>blast, simp add: P_object\<close>)
  then have "P (JObject (spec_only ?fs))"
    using assms(5) by (auto simp: spec_only_def P_object params_path_def)
  then have "P (JObject (spec_only (Spec (ContentOf snap))))"
    unfolding Extract_content [OF assms(1,2,4)] sanitize_two_steps
    using assms(5,6) by (intro P_strip_libraries P_strip_parameters)
  then show ?thesis by (auto simp: spec_only_def P_object split: if_splits)
qed

end

lemma strip_libraries_ok: "obj_ok m \<Longrightarrow> obj_ok (strip_libraries C m)"
proof -
  assume ok: "obj_ok m"
  have "json_ok (JArray (FilterSharedPreloadLibraries C xs))" if "GetSegments m libs_path = Some (JArray xs)" for xs
    using GetSegments_ok [OF ok that] by (auto simp: FilterSharedPreloadLibraries_def list_all_iff)
  with ok show ?thesis
    by (auto simp: strip_libraries_def SetSegments_ok deleteSegments_ok
        simp del: json_ok.simps split: option.splits json.splits)
qed

lemma Extract_spec_ok:
  assumes "Extract C sha wall (Some cluster) opts = Inr snap" "Cluster_ToMap cluster = Inr source"
    and "obj_ok source"
  shows "obj_ok (Spec (ContentOf snap))"
proof -
  have "obj_ok (spec_only (Spec (ContentOf snap)))"
    unfolding Extract_content [OF assms] sanitize_two_steps
    by (intro strip_libraries_ok strip_parameters_ok spec_only_ok captured_fields_ok assms(3))
  then show ?thesis by (auto simp: spec_only_def split: if_splits)
qed


subsection \<open>Nothing denied is captured\<close>

lemma sep_unique: "x \<notin> set a \<Longrightarrow> x \<notin> set b \<Longrightarrow> a @ x # s = b @ x # t \<Longrightarrow> a = b"
  by (induction a arbitrary: b) (auto simp: Cons_eq_append_conv append_eq_Cons_conv)

text \<open>Beneath a claimed field every path is allowed.\<close>

lemma claimed_beneath_not_denied:
  assumes "claimed names f"
  shows "\<not> IsDeniedPath (Join (''spec'' # f # r) ''.'')"
proof
  assume "IsDeniedPath (Join (''spec'' # f # r) ''.'')"
  then obtain d where d: "d \<in> set DeniedPaths"
    "Join (''spec'' # f # r) ''.'' = d \<or> HasPrefix (Join (''spec'' # f # r) ''.'') (d @ ''.'')"
    by (auto simp: IsDeniedPath_iff)
  have f: "CHR ''.'' \<notin> set f" using claimed_no_dot [OF assms] by simp
  obtain rest where j: "Join (''spec'' # f # r) ''.'' @ ''.'' = ''spec.'' @ f @ ''.'' @ rest"
    by (cases "r = []") (auto simp: Join_Cons)
  then have p: "prefix (d @ ''.'') (''spec.'' @ f @ ''.'' @ rest)"
    using d(2) prefix_prefix [of "d @ ''.''" "Join (''spec'' # f # r) ''.''" "''.''"]
    unfolding j [symmetric] HasPrefix_def by blast
  show False
    using DeniedPaths_shape [OF d(1)]
  proof (elim disjE conjE exE)
    fix y assume y: "Split d = [''spec'', y]" "d = ''spec.'' @ y"
    have "CHR ''.'' \<notin> set y"
      using y split_on_parts [of y "CHR ''.''" d] DeniedPaths_nonempty [OF d(1)] by (simp add: Split_def)
    moreover obtain z where "y @ CHR ''.'' # z = f @ CHR ''.'' # rest"
      using p y(2) by (auto simp: prefix_def)
    ultimately have "y = f" using f by (blast intro: sep_unique)
    then have "IsDeniedPath (''spec.'' @ f)" using d(1) y(2) by (auto simp: IsDeniedPath_iff)
    then show False using claimed_not_denied [OF assms] by simp
  next
    assume h: "hd (Split d) \<noteq> ''spec''"
    obtain t where "d @ CHR ''.'' # t = ''spec'' @ CHR ''.'' # f @ ''.'' @ rest"
      using p by (auto simp: prefix_def)
    then have "split_on CHR ''.'' (d @ CHR ''.'' # t) = ''spec'' # split_on CHR ''.'' (f @ ''.'' @ rest)"
      by (simp only: split_on_append) (simp add: split_on_append)
    moreover have "hd (split_on CHR ''.'' (d @ CHR ''.'' # t)) = hd (split_on CHR ''.'' d)"
      by (induction d) (auto split: list.splits)
    ultimately show False using h DeniedPaths_nonempty [OF d(1)] by (simp add: Split_def)
  qed
qed

lemma Extract_no_denied_leaf:
  assumes "Extract C sha wall (Some cluster) opts = Inr snap" "Cluster_ToMap cluster = Inr source"
    and "obj_ok source" "l \<in> set (WalkLeaves (spec_only (Spec (ContentOf snap))))"
  shows "\<not> IsDeniedPath (Leaf_Path l)"
proof -
  have ok: "obj_ok (spec_only (Spec (ContentOf snap)))"
    by (rule spec_only_ok [OF Extract_spec_ok [OF assms(1-3)]])
  have g: "GetSegments (spec_only (Spec (ContentOf snap))) (Segments l) = Some (LeafValue l)"
    and t: "terminal (LeafValue l)"
    using assms(4) WalkLeaves_iff [OF ok] by auto
  obtain s q where s: "Segments l = s # q" using g by (cases "Segments l") auto
  have ss: "s = ''spec''" using g s by (cases q) (auto simp: spec_only_def GetSegments_Cons split: if_splits)
  have "q \<noteq> []"
  proof
    assume "q = []"
    then have "Spec (ContentOf snap) \<noteq> []" "LeafValue l = JObject (Spec (ContentOf snap))"
      using g s ss by (auto simp: spec_only_def split: if_splits)
    then show False using t by (cases "Spec (ContentOf snap)") auto
  qed
  then obtain f r where q: "q = f # r" by (cases q) auto
  then have "GetSegments (Spec (ContentOf snap)) (f # r) \<noteq> None"
    using g s ss GetSegments_spec_only [of "f # r"] by simp
  then have "claimed (ExtractOptions_groups opts) f" using Extract_unclaimed [OF assms(1-3), of f r] by (cases "claimed (ExtractOptions_groups opts) f") auto
  then show ?thesis unfolding Leaf_Path_def s ss q by (rule claimed_beneath_not_denied)
qed

lemma Extract_metadata:
  assumes "Extract C sha wall (Some cluster) opts = Inr snap" "Cluster_ToMap cluster = Inr source"
  shows "Labels (ContentOf snap) = (if MetadataGroupName \<in> set (ExtractOptions_groups opts)
      then FilterMetadata (Cluster_Labels cluster) else [])"
    and "Annotations (ContentOf snap) = (if MetadataGroupName \<in> set (ExtractOptions_groups opts)
      then FilterMetadata (Cluster_Annotations cluster) else [])"
    and "CapturedGroups snap = ExtractOptions_groups opts"
    and "CaptureRules snap = CaptureRulesDigest C sha (ExtractOptions_groups opts)"
    and "Checksum sha (ContentOf snap) = Inr (Checksum_of snap)"
    and "Generation snap = Cluster_Generation cluster"
    and "CapturedAt snap = ExtractOptions_now wall opts"
    and "APIVersion snap = APIVersion_const" "Kind snap = Kind_const"
  using assms extract_groups_spec_only [of source "ExtractOptions_groups opts" "[]" False]
  by (auto simp: Extract_def Let_def spec_only_def split: sum.splits option.splits)


subsection \<open>A capture with known groups always succeeds\<close>

lemma strmap_numbers_ok: "numbers_ok (strmap_json m)"
  by (auto simp: strmap_json_def list_all_iff)

lemma strings_numbers_ok: "numbers_ok (strings_json xs)"
  by (auto simp: strings_json_def list_all_iff)

lemma content_numbers_ok:
  "numbers_ok (JObject (content_fields c)) \<longleftrightarrow> numbers_ok (JObject (Spec c))"
  by (auto simp: content_fields_def omit_empty_def strmap_numbers_ok)

lemma extract_numbers_ok:
  assumes "numbers_ok (JObject source)"
  shows "numbers_ok (JObject (sanitizePostgresConfiguration C
    (spec_only (captured_fields source names))))"
proof -
  have "numbers_ok (JObject (captured_fields source names))"
    unfolding captured_fields_def
    by (rule num.P_fold_take_field [OF assms]) (use captured_paths_shape in \<open>blast, simp\<close>)
  then have "numbers_ok (JObject (spec_only (captured_fields source names)))" by (simp add: spec_only_def)
  then show ?thesis
    unfolding sanitize_two_steps
    by (intro num.P_strip_libraries num.P_strip_parameters) (simp_all add: list_all_iff)
qed

lemma spec_of_spec_only:
  "(case gmap_get (spec_only fs) ''spec'' of Some (JObject spec) \<Rightarrow> spec | _ \<Rightarrow> []) = fs"
  by (simp add: spec_only_def)

lemma Extract_total:
  assumes "Cluster_ToMap cluster = Inr source" "obj_ok source" "numbers_ok (JObject source)"
    and "set (ExtractOptions_groups opts) \<subseteq> set GroupNames"
  shows "\<exists>snap. Extract C sha wall (Some cluster) opts = Inr snap"
proof -
  let ?names = "ExtractOptions_groups opts"
  let ?fs = "captured_fields source ?names"
  have "find (\<lambda>n. LookupGroup n = None) ?names = None"
    using assms(4) LookupGroup_known by (auto simp: find_None_iff)
  then have g: "extract_groups source ?names [] False = Inr (spec_only ?fs, MetadataGroupName \<in> set ?names)"
    using extract_groups_spec_only [of source ?names "[]" False] by (simp add: spec_only_def captured_fields_def)
  have d: "ApplyDenylist (spec_only ?fs) = spec_only ?fs"
    by (rule ApplyDenylist_spec_only [OF captured_fields_ok [OF assms(2)], where names = ?names])
      (auto simp: captured_fields_get split: if_splits)
  obtain fs' where s: "sanitizePostgresConfiguration C (spec_only ?fs) = spec_only fs'"
    using sanitize_spec_only by blast
  have "numbers_ok (JObject fs')"
    using extract_numbers_ok [OF assms(3), of C ?names] s by (auto simp: spec_only_def split: if_splits)
  then have "numbers_ok (JObject (content_fields \<lparr>Spec = fs', Labels = ls, Annotations = as\<rparr>))" for ls as
    using content_numbers_ok [of "\<lparr>Spec = fs', Labels = ls, Annotations = as\<rparr>"] by simp
  then show ?thesis
    using assms(1) g d s
    by (simp add: Extract_def Checksum_def Canonical_def Marshal_def Let_def spec_of_spec_only del: numbers_ok.simps)
qed

lemma Extract_unknown_group:
  assumes "Cluster_ToMap cluster = Inr source" "\<not> set (ExtractOptions_groups opts) \<subseteq> set GroupNames"
  shows "\<exists>n. n \<notin> set GroupNames \<and>
    Extract C sha wall (Some cluster) opts = Inl (Errorf ''unknown capture group'' (n # GroupNames))"
proof -
  let ?names = "ExtractOptions_groups opts"
  obtain n where n: "find (\<lambda>n. LookupGroup n = None) ?names = Some n"
    using assms(2) LookupGroup_known by (cases "find (\<lambda>n. LookupGroup n = None) ?names") (auto simp: find_None_iff)
  then have "LookupGroup n = None" by (auto simp: find_Some_iff)
  then have "n \<notin> set GroupNames" using LookupGroup_known by blast
  moreover have "extract_groups source ?names [] False = Inl (Errorf ''unknown capture group'' (n # GroupNames))"
    using extract_groups_spec_only [of source ?names "[]" False] n by (simp add: spec_only_def)
  ultimately show ?thesis using assms(1) by (simp add: Extract_def)
qed

section \<open>Fingerprints\<close>

text \<open>
  The fingerprint a capture's own snapshot gives is the one the cluster had: the watermark a
  write leaves behind is the watermark the next reconcile computes.
\<close>

lemma MetadataFingerprint_converges:
  assumes "Extract C sha wall (Some cluster) opts = Inr snap" "Cluster_ToMap cluster = Inr source"
  shows "MetadataFingerprint sha (Labels (ContentOf snap)) (Annotations (ContentOf snap))
      (CapturedGroups snap) (CaptureRules snap)
    = MetadataFingerprint sha (Cluster_Labels cluster) (Cluster_Annotations cluster)
      (ExtractOptions_groups opts) (CaptureRulesDigest C sha (ExtractOptions_groups opts))"
  unfolding Extract_metadata(1-4) [OF assms] by (simp add: MetadataFingerprint_def List.member_iff)

lemma MetadataFingerprint_total: "\<exists>fp. MetadataFingerprint sha ls as gs rules = Inr fp"
  by (auto simp: MetadataFingerprint_def Marshal_def content_fields_def omit_empty_def Let_def
      strmap_numbers_ok strings_numbers_ok)

text \<open>Reordering the groups in a spec is not a change.\<close>

lemma MetadataFingerprint_order:
  "mset gs = mset gs' \<Longrightarrow> MetadataFingerprint sha ls as gs rules = MetadataFingerprint sha ls as gs' rules"
  using mset_eq_setD [of gs gs'] properties_for_sort [of "sort gs'" gs]
  by (simp add: MetadataFingerprint_def List.member_iff)


section \<open>Well-formed content\<close>

definition content_ok :: "Content \<Rightarrow> bool" where
  "content_ok c \<longleftrightarrow> obj_ok (Spec c) \<and> gmap_ok (Labels c) \<and> gmap_ok (Annotations c)"

lemma Extract_content_ok:
  assumes "Extract C sha wall (Some cluster) opts = Inr snap" "Cluster_ToMap cluster = Inr source"
    and "obj_ok source" "gmap_ok (Cluster_Labels cluster)" "gmap_ok (Cluster_Annotations cluster)"
  shows "content_ok (ContentOf snap)"
  unfolding content_ok_def Extract_metadata(1,2) [OF assms(1,2)]
  using Extract_spec_ok [OF assms(1-3)] assms(4,5) by simp


section \<open>What a fingerprint tells apart\<close>

definition fingerprint_json :: "strmap \<Rightarrow> strmap \<Rightarrow> string list \<Rightarrow> string \<Rightarrow> json" where
  "fingerprint_json ls as gs rules =
     JObject (content_fields \<lparr>Spec = [], Labels = ls, Annotations = as\<rparr>
       @ omit_empty ''captureGroups'' strings_json gs @ omit_empty ''captureRules'' JString rules)"

definition texts_valid :: "strmap \<Rightarrow> bool" where
  "texts_valid m \<longleftrightarrow> list_all (\<lambda>(k, v). utf8_valid k \<and> utf8_valid v) m"

lemma strmap_json_inj: "strmap_json m = strmap_json m' \<Longrightarrow> m = m'"
proof -
  have "inj (\<lambda>(k, v). (k, JString v))" by (auto intro: injI)
  then show "strmap_json m = strmap_json m' \<Longrightarrow> m = m'" by (auto simp: strmap_json_def dest: map_injective)
qed

lemma strings_json_inj: "strings_json xs = strings_json ys \<Longrightarrow> xs = ys"
  by (auto simp: strings_json_def inj_map_eq_map inj_def split: if_splits)

lemma map_of_omit_empty:
  "map_of (omit_empty n f xs @ r) k = (if k = n \<and> xs \<noteq> [] then Some (f xs) else map_of r k)"
  by (simp add: omit_empty_def)

lemma map_of_single_omit_empty:
  "map_of (omit_empty n f xs) k = (if k = n \<and> xs \<noteq> [] then Some (f xs) else None)"
  by (simp add: omit_empty_def)

lemma fingerprint_json_inj:
  assumes "fingerprint_json ls as gs r = fingerprint_json ls' as' gs' r'"
  shows "ls = ls' \<and> as = as' \<and> gs = gs' \<and> r = r'"
proof -
  define m where "m = (\<lambda>ls as gs r. map_of (content_fields \<lparr>Spec = [], Labels = ls, Annotations = as\<rparr>
       @ omit_empty ''captureGroups'' strings_json gs @ omit_empty ''captureRules'' JString r))"
  have "content_fields \<lparr>Spec = [], Labels = ls, Annotations = as\<rparr>
       @ omit_empty ''captureGroups'' strings_json gs @ omit_empty ''captureRules'' JString r
    = content_fields \<lparr>Spec = [], Labels = ls', Annotations = as'\<rparr>
       @ omit_empty ''captureGroups'' strings_json gs' @ omit_empty ''captureRules'' JString r'"
    using assms by (simp add: fingerprint_json_def)
  then have eq: "m ls as gs r = m ls' as' gs' r'" by (simp only: m_def)
  have m: "m ls as gs r ''labels'' = (if ls = [] then None else Some (strmap_json ls))"
    "m ls as gs r ''annotations'' = (if as = [] then None else Some (strmap_json as))"
    "m ls as gs r ''captureGroups'' = (if gs = [] then None else Some (strings_json gs))"
    "m ls as gs r ''captureRules'' = (if r = [] then None else Some (JString r))" for ls as gs r
    by (simp_all add: m_def content_fields_def map_of_omit_empty map_of_single_omit_empty del: map_of_append)
  show ?thesis
    using fun_cong [OF eq, of "''labels''"] fun_cong [OF eq, of "''annotations''"]
      fun_cong [OF eq, of "''captureGroups''"] fun_cong [OF eq, of "''captureRules''"]
    unfolding m by (auto split: if_splits dest: strmap_json_inj strings_json_inj)
qed

lemma nesting_flat: "nesting (strmap_json m) \<le> Suc 0" "nesting (strings_json xs) \<le> Suc 0"
  unfolding strmap_json_def strings_json_def nesting_object_le
  by (auto simp: nesting_array_le simp del: nesting.simps(1))

lemma printable_flat:
  "texts_valid m \<Longrightarrow> printable (strmap_json m)" "list_all utf8_valid xs \<Longrightarrow> printable (strings_json xs)"
  by (auto simp: strmap_json_def strings_json_def texts_valid_def list_all_iff)

lemma fingerprint_json_good:
  assumes "texts_valid ls" "texts_valid as" "list_all utf8_valid gs" "utf8_valid rules"
  shows "printable (fingerprint_json ls as gs rules)" "nesting (fingerprint_json ls as gs rules) \<le> max_nesting_depth"
proof -
  have names: "utf8_valid ''labels''" "utf8_valid ''annotations''" "utf8_valid ''captureGroups''" "utf8_valid ''captureRules''"
    by code_simp+
  show "printable (fingerprint_json ls as gs rules)"
    using assms names printable_flat by (auto simp: fingerprint_json_def content_fields_def omit_empty_def)
  have "nesting (fingerprint_json ls as gs rules) \<le> Suc (Suc 0)"
    unfolding fingerprint_json_def nesting_object_le
    by (auto simp: content_fields_def omit_empty_def nesting_flat simp del: nesting.simps(1,2))
  then show "nesting (fingerprint_json ls as gs rules) \<le> max_nesting_depth" by (simp add: max_nesting_depth_def)
qed

lemma MetadataFingerprint_eq:
  "MetadataFingerprint sha ls as gs rules = map_sum id (digest sha)
     (Marshal (fingerprint_json
       (if MetadataGroupName \<in> set gs then FilterMetadata ls else [])
       (if MetadataGroupName \<in> set gs then FilterMetadata as else []) (sort gs) rules))"
  by (auto simp: MetadataFingerprint_def fingerprint_json_def List.member_iff FilterMetadata_def Let_def
      split: sum.splits)

lemma texts_valid_filter: "texts_valid m \<Longrightarrow> texts_valid (FilterMetadata m)"
  by (auto simp: texts_valid_def FilterMetadata_def list_all_iff)

lemma MetadataFingerprint_detects:
  assumes "MetadataFingerprint sha ls as gs rules = MetadataFingerprint sha ls' as' gs' rules'" "inj sha"
    and "texts_valid ls" "texts_valid as" "list_all utf8_valid gs" "utf8_valid rules"
    and "texts_valid ls'" "texts_valid as'" "list_all utf8_valid gs'" "utf8_valid rules'"
  shows "mset gs = mset gs' \<and> rules = rules' \<and>
    (MetadataGroupName \<in> set gs \<longrightarrow> FilterMetadata ls = FilterMetadata ls' \<and> FilterMetadata as = FilterMetadata as')"
proof -
  let ?f = "\<lambda>ls as gs rules. fingerprint_json (if MetadataGroupName \<in> set gs then FilterMetadata ls else [])
      (if MetadataGroupName \<in> set gs then FilterMetadata as else []) (sort gs) rules"
  have e: "texts_valid []" by (simp add: texts_valid_def)
  have v: "list_all utf8_valid (sort gs)" "list_all utf8_valid (sort gs')"
    using assms(5,9) by (simp_all add: list_all_iff)
  have g: "printable (?f ls as gs rules)" "nesting (?f ls as gs rules) \<le> max_nesting_depth"
    "printable (?f ls' as' gs' rules')" "nesting (?f ls' as' gs' rules') \<le> max_nesting_depth"
    using assms v e by (auto intro!: fingerprint_json_good texts_valid_filter)
  obtain a where a: "Marshal (?f ls as gs rules) = Inr a" using Marshal_printable [OF g(1)] ..
  obtain b where b: "Marshal (?f ls' as' gs' rules') = Inr b" using Marshal_printable [OF g(3)] ..
  have "digest sha a = digest sha b" using assms(1) a b by (simp add: MetadataFingerprint_eq)
  then have "a = b" using assms(2) by (simp add: digest_def inj_eq)
  then have "?f ls as gs rules = ?f ls' as' gs' rules'" using Marshal_inject [OF a _ g(1,3,2,4)] b by simp
  from fingerprint_json_inj [OF this] show ?thesis by (metis mset_sort set_mset_mset)
qed

end
