(* ===== verification/Restore_Plan.thy ===== *)
theory Restore_Plan
  imports Restore_Rules Snapshot
begin

text \<open>
  \<open>internal/restore/plan.go\<close>: from a snapshot and compiled rules to a list of edits, and the
  edits onto a Cluster in generic form. Changes with the same rendered path are kept in walk
  order by the model's sort; they never touch each other's values, so the order of such ties does
  not matter.
\<close>

section \<open>The plan\<close>

record Change =
  Change_Path :: string
  segments :: "string list"
  Change_Value :: json
  transformed :: bool

record Exclusion =
  Exclusion_Path :: string
  Exclusion_Reason :: string

record Plan =
  Changes :: "Change list"
  Exclusions :: "Exclusion list"

definition toAnyMap :: "strmap \<Rightarrow> obj" where
  "toAnyMap m = map (\<lambda>(k, v). (k, JString v)) m"

definition restorableTree :: "Content \<Rightarrow> obj" where
  "restorableTree snap =
     (let restorable = (if Spec snap \<noteq> [] then gmap_set [] ''spec'' (JObject (Spec snap)) else [])
      in if Labels snap \<noteq> [] \<or> Annotations snap \<noteq> [] then
           (let metadata = (if Labels snap \<noteq> [] then gmap_set [] ''labels'' (JObject (toAnyMap (Labels snap))) else []);
                metadata = (if Annotations snap \<noteq> []
                  then gmap_set metadata ''annotations'' (JObject (toAnyMap (Annotations snap))) else metadata)
            in gmap_set restorable ''metadata'' (JObject metadata))
         else restorable)"

definition isDeniedMetadataLeaf :: "string list \<Rightarrow> bool" where
  "isDeniedMetadataLeaf segs \<longleftrightarrow>
     length segs = 3 \<and> segs ! 0 = ''metadata'' \<and> (segs ! 1 = ''labels'' \<or> segs ! 1 = ''annotations'')
     \<and> IsDeniedMetadataKey (segs ! 2)"

text \<open>\<open>None\<close> is the nil error.\<close>

fun validateRuleCoherence :: "SkipSet \<Rightarrow> string list \<Rightarrow> error option" where
  "validateRuleCoherence skips [] = None"
| "validateRuleCoherence skips (path # paths) =
     (case Skips skips path of
        Some why \<Rightarrow> Some (Errorf ''is both transformed and skipped'' [path, why])
      | None \<Rightarrow> validateRuleCoherence skips paths)"

fun first_error :: "('a \<Rightarrow> error option) \<Rightarrow> 'a list \<Rightarrow> error option" where
  "first_error f [] = None"
| "first_error f (x # xs) = (case f x of Some err \<Rightarrow> Some err | None \<Rightarrow> first_error f xs)"

definition validateRulePaths :: "cnpg \<Rightarrow> SkipRule list \<Rightarrow> TransformRule list \<Rightarrow> error option" where
  "validateRulePaths C skips transforms =
     (case first_error (\<lambda>rule. if Skip_Path rule = '''' then None
               else map_option (Wrapped ''skip rule names an unusable path'' []) (ValidateRulePath C (Skip_Path rule))) skips of
        Some err \<Rightarrow> Some err
      | None \<Rightarrow>
          first_error (\<lambda>rule. map_option (Wrapped ''transform rule names an unusable path'' [])
            (ValidateRulePath C (Transform_Path rule))) transforms)"

definition CompileRules ::
  "cnpg \<Rightarrow> 'p celenv \<Rightarrow> SkipRule list \<Rightarrow> TransformRule list \<Rightarrow> error + SkipSet \<times> 'p TransformSet" where
  "CompileRules C env skips transforms =
     (case NewSkipSet C skips of
        Inl err \<Rightarrow> Inl err
      | Inr skipSet \<Rightarrow>
     (case NewTransformSet env transforms of
        Inl err \<Rightarrow> Inl err
      | Inr transformSet \<Rightarrow>
     (case validateRuleCoherence skipSet (Paths transformSet) of
        Some err \<Rightarrow> Inl err
      | None \<Rightarrow>
     (case validateRulePaths C skips transforms of
        Some err \<Rightarrow> Inl err
      | None \<Rightarrow> Inr (skipSet, transformSet)))))"

record progress =
  plan :: Plan
  fired :: "string list"
  skippedPaths :: "(string, string) gmap"
  leaves :: "string list"

definition exclude :: "string \<Rightarrow> string \<Rightarrow> progress \<Rightarrow> progress" where
  "exclude path why s =
     s\<lparr>plan := (plan s)\<lparr>Exclusions := Exclusions (plan s) @ [\<lparr>Exclusion_Path = path, Exclusion_Reason = why\<rparr>]\<rparr>\<rparr>"

definition add_change :: "Leaf \<Rightarrow> json \<Rightarrow> progress \<Rightarrow> progress" where
  "add_change leaf v s =
     s\<lparr>plan := (plan s)\<lparr>Changes := Changes (plan s) @
        [\<lparr>Change_Path = Leaf_Path leaf, segments = Segments leaf, Change_Value = v,
          transformed = List.member (fired s) (Leaf_Path leaf)\<rparr>]\<rparr>\<rparr>"

text \<open>One leaf of the snapshot.\<close>

definition plan_leaf ::
  "cnpg \<Rightarrow> 'p celenv \<Rightarrow> SkipSet \<Rightarrow> 'p TransformSet \<Rightarrow> Leaf \<Rightarrow> progress \<Rightarrow> error + progress" where
  "plan_leaf C env skips transforms leaf s =
     (let path = Leaf_Path leaf;
          s = s\<lparr>leaves := leaves s @ [path]\<rparr>
      in if IsDeniedPath path \<or> isDeniedMetadataLeaf (Segments leaf)
         then Inr (exclude path ''denied: never restored'' s)
         else (case Skips skips path of
                 Some why \<Rightarrow>
                   Inr (exclude path why (s\<lparr>skippedPaths := gmap_set (skippedPaths s) path why\<rparr>))
               | None \<Rightarrow>
                   (case TransformSet_Apply C env transforms leaf of
                      None \<Rightarrow> Inr (add_change leaf (LeafValue leaf) s)
                    | Some (Inl err) \<Rightarrow> Inl err
                    | Some (Inr result) \<Rightarrow> Inr (add_change leaf result (s\<lparr>fired := path # fired s\<rparr>)))))"

fun plan_leaves ::
  "cnpg \<Rightarrow> 'p celenv \<Rightarrow> SkipSet \<Rightarrow> 'p TransformSet \<Rightarrow> Leaf list \<Rightarrow> progress \<Rightarrow> error + progress" where
  "plan_leaves C env skips transforms [] s = Inr s"
| "plan_leaves C env skips transforms (leaf # ls) s =
     (case plan_leaf C env skips transforms leaf s of
        Inl err \<Rightarrow> Inl err
      | Inr s' \<Rightarrow> plan_leaves C env skips transforms ls s')"

definition no_progress :: progress where
  "no_progress = \<lparr>plan = \<lparr>Changes = [], Exclusions = []\<rparr>, fired = [], skippedPaths = [], leaves = []\<rparr>"

definition BuildPlan ::
  "cnpg \<Rightarrow> 'p celenv \<Rightarrow> Snapshot option \<Rightarrow> SkipSet \<Rightarrow> 'p TransformSet \<Rightarrow> error + Plan" where
  "BuildPlan C env snap skips transforms =
     (case snap of
        None \<Rightarrow> Inl (Errorf ''cannot build a plan from a nil snapshot'' [])
      | Some snap \<Rightarrow>
          (case plan_leaves C env skips transforms (WalkLeaves (restorableTree (ContentOf snap))) no_progress of
             Inl err \<Rightarrow> Inl err
           | Inr s \<Rightarrow>
               (case checkAllFired transforms (fired s) (skippedPaths s) (leaves s) of
                  Some err \<Rightarrow> Inl err
                | None \<Rightarrow> Inr \<lparr>Changes = sort_key Change_Path (Changes (plan s)),
                              Exclusions = sort_key Exclusion_Path (Exclusions (plan s))\<rparr>)))"

fun apply_changes :: "Change list \<Rightarrow> obj \<Rightarrow> error + obj" where
  "apply_changes [] cluster = Inr cluster"
| "apply_changes (change # changes) cluster =
     (case SetSegments cluster (segments change) (Change_Value change) of
        (cluster', ok) \<Rightarrow>
          if \<not> ok then Inl (Errorf ''cannot restore: the target Cluster has a conflicting non-object value on that path''
                            [Change_Path change])
          else apply_changes changes cluster')"

definition Plan_Apply :: "Plan \<Rightarrow> obj \<Rightarrow> error + obj" where
  "Plan_Apply p cluster = apply_changes (Changes p) cluster"

definition TransformedPaths :: "Plan \<Rightarrow> string list" where
  "TransformedPaths p = map Change_Path (filter transformed (Changes p))"

section \<open>The tree a snapshot restores\<close>



lemma toAnyMap_ok: "gmap_ok m \<Longrightarrow> obj_ok (toAnyMap m)"
proof -
  assume "gmap_ok m"
  then have "gmap_ok (toAnyMap m)" using gmap_ok_map_vals [of "\<lambda>k v. JString v" m] by (simp add: toAnyMap_def)
  then show ?thesis by (auto simp: toAnyMap_def list_all_iff)
qed

lemma toAnyMap_get: "gmap_get (toAnyMap m) k = map_option JString (gmap_get m k)"
  by (induction m) (auto simp: toAnyMap_def)

lemma toAnyMap_empty [simp]: "toAnyMap m = [] \<longleftrightarrow> m = []"
  by (simp add: toAnyMap_def)

lemma restorableTree_ok: "content_ok c \<Longrightarrow> obj_ok (restorableTree c)"
proof -
  assume c: "content_ok c"
  have e: "obj_ok []" by simp
  show ?thesis
    using c e by (auto simp: restorableTree_def content_ok_def Let_def simp del: json_ok.simps gmap_set.simps
        intro!: obj_ok_set toAnyMap_ok)
qed

definition metadataTree :: "Content \<Rightarrow> obj" where
  "metadataTree c =
     (if Annotations c = [] then [] else [(''annotations'', JObject (toAnyMap (Annotations c)))])
     @ (if Labels c = [] then [] else [(''labels'', JObject (toAnyMap (Labels c)))])"

lemma restorableTree_get:
  "gmap_get (restorableTree c) k =
     (if k = ''spec'' then (if Spec c = [] then None else Some (JObject (Spec c)))
      else if k = ''metadata'' then (if metadataTree c = [] then None else Some (JObject (metadataTree c)))
      else None)"
  by (auto simp: restorableTree_def metadataTree_def Let_def)

lemma metadataTree_get:
  "gmap_get (metadataTree c) k =
     (if k = ''labels'' \<and> Labels c \<noteq> [] then Some (JObject (toAnyMap (Labels c)))
      else if k = ''annotations'' \<and> Annotations c \<noteq> [] then Some (JObject (toAnyMap (Annotations c)))
      else None)"
  by (auto simp: metadataTree_def)

lemma terminal_JObject: "terminal (JObject m) \<longleftrightarrow> m = []"
  by (cases m) auto

lemma metadata_leaf:
  assumes "GetSegments (metadataTree c) q = Some v" "terminal v"
  shows "\<exists>k x. q = [''labels'', k] \<and> gmap_get (Labels c) k = Some x \<and> v = JString x \<or>
    q = [''annotations'', k] \<and> gmap_get (Annotations c) k = Some x \<and> v = JString x"
proof -
  obtain s q' where q: "q = s # q'" using assms(1) by (cases q) auto
  have "q' \<noteq> []"
    using assms q by (auto simp: metadataTree_get terminal_JObject split: if_splits)
  then obtain k r where q': "q' = k # r" by (cases q') auto
  consider "s = ''labels''" "GetSegments (toAnyMap (Labels c)) q' = Some v"
    | "s = ''annotations''" "GetSegments (toAnyMap (Annotations c)) q' = Some v"
    using assms(1) q \<open>q' \<noteq> []\<close> by (auto simp: GetSegments_Cons metadataTree_get split: if_splits)
  moreover have "r = [] \<and> (\<exists>x. gmap_get m k = Some x \<and> v = JString x)"
    if "GetSegments (toAnyMap m) (k # r) = Some v" for m
    using that by (cases "r = []") (auto simp: GetSegments_Cons toAnyMap_get split: option.splits)
  ultimately show ?thesis using q q' by cases (blast, blast)
qed

text \<open>Every leaf lies beneath \<open>spec\<close>, or is one label or annotation.\<close>

lemma restorable_leaf:
  assumes "content_ok c" "l \<in> set (WalkLeaves (restorableTree c))"
  shows "(\<exists>f r. Segments l = ''spec'' # f # r \<and> GetSegments (Spec c) (f # r) = Some (LeafValue l)) \<or>
    (\<exists>k x. Segments l = [''metadata'', ''labels'', k] \<and> gmap_get (Labels c) k = Some x \<and> LeafValue l = JString x) \<or>
    (\<exists>k x. Segments l = [''metadata'', ''annotations'', k] \<and> gmap_get (Annotations c) k = Some x \<and> LeafValue l = JString x)"
proof -
  have g: "GetSegments (restorableTree c) (Segments l) = Some (LeafValue l)" and t: "terminal (LeafValue l)"
    using assms WalkLeaves_iff [OF restorableTree_ok] by auto
  obtain s q where q: "Segments l = s # q" using g by (cases "Segments l") auto
  have "q \<noteq> []"
    using g t q terminal_JObject [of "Spec c"] terminal_JObject [of "metadataTree c"]
    by (auto simp: restorableTree_get split: if_splits)
  then consider "s = ''spec''" "GetSegments (Spec c) q = Some (LeafValue l)"
    | "s = ''metadata''" "GetSegments (metadataTree c) q = Some (LeafValue l)"
    using g q by (auto simp: GetSegments_Cons restorableTree_get split: if_splits)
  then show ?thesis
  proof cases
    case 1
    then show ?thesis using q \<open>q \<noteq> []\<close> by (cases q) auto
  next
    case 2
    then show ?thesis using q metadata_leaf [OF 2(2) t] by auto
  qed
qed


section \<open>What the plan says of each leaf\<close>

text \<open>The verdict on a leaf, read off the rules.\<close>

definition denied :: "Leaf \<Rightarrow> bool" where
  "denied l \<longleftrightarrow> IsDeniedPath (Leaf_Path l) \<or> isDeniedMetadataLeaf (Segments l)"

definition restored :: "SkipSet \<Rightarrow> Leaf \<Rightarrow> bool" where
  "restored skips l \<longleftrightarrow> \<not> denied l \<and> Skips skips (Leaf_Path l) = None"

definition restored_value :: "cnpg \<Rightarrow> 'p celenv \<Rightarrow> 'p TransformSet \<Rightarrow> Leaf \<Rightarrow> error + json" where
  "restored_value C env t l =
     (case TransformSet_Apply C env t l of None \<Rightarrow> Inr (LeafValue l) | Some r \<Rightarrow> r)"

definition change_of :: "'p TransformSet \<Rightarrow> Leaf \<Rightarrow> json \<Rightarrow> Change" where
  "change_of t l v = \<lparr>Change_Path = Leaf_Path l, segments = Segments l, Change_Value = v,
     transformed = (Program t (Leaf_Path l) \<noteq> None)\<rparr>"

lemma Apply_Some_iff: "TransformSet_Apply C env t l \<noteq> None \<longleftrightarrow> Program t (Leaf_Path l) \<noteq> None"
  by (simp add: TransformSet_Apply_def split: option.splits)

text \<open>One step of the walk.\<close>

definition skipped_leaf :: "SkipSet \<Rightarrow> Leaf \<Rightarrow> bool" where
  "skipped_leaf skips l \<longleftrightarrow> \<not> denied l \<and> Skips skips (Leaf_Path l) \<noteq> None"

lemma plan_leaf_restored:
  assumes "plan_leaf C env skips t l s = Inr s'" "restored skips l"
    and "\<forall>p \<in> set (fired s). Program t p \<noteq> None"
  shows "\<exists>v. restored_value C env t l = Inr v \<and> Changes (plan s') = Changes (plan s) @ [change_of t l v]
    \<and> Exclusions (plan s') = Exclusions (plan s)
    \<and> set (fired s') = set (fired s) \<union> (if Program t (Leaf_Path l) \<noteq> None then {Leaf_Path l} else {})
    \<and> leaves s' = leaves s @ [Leaf_Path l] \<and> skippedPaths s' = skippedPaths s"
proof (cases "TransformSet_Apply C env t l")
  case None
  then have "Program t (Leaf_Path l) = None" using Apply_Some_iff [of C env t l] by simp
  moreover from this have "Leaf_Path l \<notin> set (fired s)" using assms(3) by auto
  ultimately show ?thesis
    using assms(1,2) None
    by (auto simp: plan_leaf_def Let_def restored_def denied_def restored_value_def add_change_def change_of_def
        List.member_iff)
next
  case (Some r)
  then have p: "Program t (Leaf_Path l) \<noteq> None" using Apply_Some_iff [of C env t l] by simp
  obtain v where "r = Inr v"
    using assms(1,2) Some by (cases r) (auto simp: plan_leaf_def Let_def restored_def denied_def)
  with assms(1,2) Some p show ?thesis
    by (auto simp: plan_leaf_def Let_def restored_def denied_def restored_value_def add_change_def change_of_def
        List.member_iff)
qed

lemma plan_leaf_excluded:
  assumes "plan_leaf C env skips t l s = Inr s'" "\<not> restored skips l"
  shows "Changes (plan s') = Changes (plan s)
    \<and> map Exclusion_Path (Exclusions (plan s')) = map Exclusion_Path (Exclusions (plan s)) @ [Leaf_Path l]
    \<and> fired s' = fired s \<and> leaves s' = leaves s @ [Leaf_Path l]
    \<and> (\<forall>p. gmap_get (skippedPaths s') p \<noteq> None \<longleftrightarrow> gmap_get (skippedPaths s) p \<noteq> None \<or> skipped_leaf skips l \<and> p = Leaf_Path l)"
  using assms
  by (auto simp: plan_leaf_def Let_def restored_def denied_def exclude_def skipped_leaf_def go_map
      split: option.splits if_splits sum.splits)

text \<open>The whole walk: the changes are the restored leaves in order, each with its value.\<close>

lemma plan_leaves_Inr:
  assumes "plan_leaves C env skips t ls s = Inr s'"
    and "\<forall>p \<in> set (fired s). Program t p \<noteq> None"
  shows "(\<exists>cs. Changes (plan s') = Changes (plan s) @ cs
        \<and> list_all2 (\<lambda>l c. \<exists>v. restored_value C env t l = Inr v \<and> c = change_of t l v) (filter (restored skips) ls) cs)
    \<and> map Exclusion_Path (Exclusions (plan s'))
        = map Exclusion_Path (Exclusions (plan s)) @ map Leaf_Path (filter (\<lambda>l. \<not> restored skips l) ls)
    \<and> set (fired s') = set (fired s) \<union> {Leaf_Path l |l. l \<in> set ls \<and> restored skips l \<and> Program t (Leaf_Path l) \<noteq> None}
    \<and> leaves s' = leaves s @ map Leaf_Path ls
    \<and> (\<forall>p. gmap_get (skippedPaths s') p \<noteq> None \<longleftrightarrow>
        gmap_get (skippedPaths s) p \<noteq> None \<or> (\<exists>l \<in> set ls. skipped_leaf skips l \<and> p = Leaf_Path l))"
  using assms
proof (induction ls arbitrary: s)
  case (Cons l ls)
  then obtain s1 where s1: "plan_leaf C env skips t l s = Inr s1" "plan_leaves C env skips t ls s1 = Inr s'"
    by (auto split: sum.splits)
  show ?case
  proof (cases "restored skips l")
    case True
    obtain v where v: "restored_value C env t l = Inr v" "Changes (plan s1) = Changes (plan s) @ [change_of t l v]"
      "Exclusions (plan s1) = Exclusions (plan s)"
      "set (fired s1) = set (fired s) \<union> (if Program t (Leaf_Path l) \<noteq> None then {Leaf_Path l} else {})"
      "leaves s1 = leaves s @ [Leaf_Path l]" "skippedPaths s1 = skippedPaths s"
      using plan_leaf_restored [OF s1(1) True Cons.prems(2)] by blast
    have inv: "\<forall>p \<in> set (fired s1). Program t p \<noteq> None"
      using v(4) Cons.prems(2) by (auto split: if_splits)
    have not: "\<not> skipped_leaf skips l" using True by (simp add: restored_def skipped_leaf_def)
    show ?thesis
      using Cons.IH [OF s1(2) inv] True v not by (auto split: if_splits)
  next
    case False
    note e = plan_leaf_excluded [OF s1(1) False]
    have inv: "\<forall>p \<in> set (fired s1). Program t p \<noteq> None" using e Cons.prems(2) by simp
    show ?thesis using Cons.IH [OF s1(2) inv] False e by auto
  qed
qed auto


section \<open>What a plan contains\<close>

lemma BuildPlan_walk:
  assumes "BuildPlan C env (Some snap) skips t = Inr p"
  obtains s where "plan_leaves C env skips t (WalkLeaves (restorableTree (ContentOf snap))) no_progress = Inr s"
    "checkAllFired t (fired s) (skippedPaths s) (leaves s) = None"
    "Changes p = sort_key Change_Path (Changes (plan s))" "Exclusions p = sort_key Exclusion_Path (Exclusions (plan s))"
  using assms by (auto simp: BuildPlan_def split: sum.splits option.splits)

text \<open>The changes are exactly the leaves that are neither denied nor skipped, each once.\<close>

lemma BuildPlan_changes:
  assumes "BuildPlan C env (Some snap) skips t = Inr p"
  shows "c \<in> set (Changes p) \<longleftrightarrow> (\<exists>l v. l \<in> set (WalkLeaves (restorableTree (ContentOf snap)))
      \<and> restored skips l \<and> restored_value C env t l = Inr v \<and> c = change_of t l v)"
    and "l \<in> set (WalkLeaves (restorableTree (ContentOf snap))) \<Longrightarrow> restored skips l \<Longrightarrow>
      \<exists>v. restored_value C env t l = Inr v \<and> change_of t l v \<in> set (Changes p)"
    and "content_ok (ContentOf snap) \<Longrightarrow> distinct (map segments (Changes p))"
proof -
  let ?ls = "WalkLeaves (restorableTree (ContentOf snap))"
  obtain s where s: "plan_leaves C env skips t ?ls no_progress = Inr s"
    "Changes p = sort_key Change_Path (Changes (plan s))"
    using BuildPlan_walk [OF assms] by metis
  obtain cs where cs: "Changes (plan s) = cs"
    "list_all2 (\<lambda>l c. \<exists>v. restored_value C env t l = Inr v \<and> c = change_of t l v) (filter (restored skips) ?ls) cs"
    using plan_leaves_Inr [OF s(1)] by (auto simp: no_progress_def)
  have p: "set (Changes p) = set cs" "mset (Changes p) = mset cs" using s(2) cs(1) by simp_all
  have fwd: "\<exists>l v. l \<in> set ?ls \<and> restored skips l \<and> restored_value C env t l = Inr v \<and> c = change_of t l v"
    if c: "c \<in> set cs" for c
  proof -
    obtain i where i: "i < length cs" "c = cs ! i" using c by (metis in_set_conv_nth)
    have "i < length (filter (restored skips) ?ls)" using i(1) list_all2_lengthD [OF cs(2)] by simp
    then have "filter (restored skips) ?ls ! i \<in> set (filter (restored skips) ?ls)" by (rule nth_mem)
    then show ?thesis using list_all2_nthD2 [OF cs(2) i(1)] i(2) by auto
  qed
  have bwd: "\<exists>v. restored_value C env t l = Inr v \<and> change_of t l v \<in> set cs"
    if l: "l \<in> set ?ls" "restored skips l" for l
  proof -
    obtain i where i: "i < length (filter (restored skips) ?ls)" "l = filter (restored skips) ?ls ! i"
      using in_set_conv_nth [of l "filter (restored skips) ?ls"] l by auto
    then have "cs ! i \<in> set cs" using list_all2_lengthD [OF cs(2)] by simp
    then show ?thesis using list_all2_nthD [OF cs(2) i(1)] i(2) by auto
  qed
  show "c \<in> set (Changes p) \<longleftrightarrow> (\<exists>l v. l \<in> set ?ls \<and> restored skips l \<and> restored_value C env t l = Inr v \<and> c = change_of t l v)"
    using fwd bwd p(1) by fastforce
  show "l \<in> set ?ls \<Longrightarrow> restored skips l \<Longrightarrow> \<exists>v. restored_value C env t l = Inr v \<and> change_of t l v \<in> set (Changes p)"
    using bwd p(1) by simp
  show "distinct (map segments (Changes p))" if "content_ok (ContentOf snap)"
  proof -
    have "map segments cs = map Segments (filter (restored skips) ?ls)"
      using cs(2) by (induction rule: list_all2_induct) (auto simp: change_of_def)
    moreover have "distinct (map Segments (filter (restored skips) ?ls))"
      using WalkLeaves_distinct [OF restorableTree_ok [OF that]] by (simp add: distinct_map_filter)
    ultimately have "distinct (map segments cs)" by simp
    then show ?thesis using p(2) by (metis mset_eq_imp_distinct_iff mset_map)
  qed
qed

lemma BuildPlan_exclusions:
  assumes "BuildPlan C env (Some snap) skips t = Inr p"
  shows "set (map Exclusion_Path (Exclusions p)) =
    Leaf_Path ` {l \<in> set (WalkLeaves (restorableTree (ContentOf snap))). \<not> restored skips l}"
proof -
  obtain s where s: "plan_leaves C env skips t (WalkLeaves (restorableTree (ContentOf snap))) no_progress = Inr s"
    "Exclusions p = sort_key Exclusion_Path (Exclusions (plan s))"
    using BuildPlan_walk [OF assms] by metis
  then have "set (map Exclusion_Path (Exclusions p)) = set (map Exclusion_Path (Exclusions (plan s)))" by simp
  also have "\<dots> = set (map Leaf_Path (filter (\<lambda>l. \<not> restored skips l) (WalkLeaves (restorableTree (ContentOf snap)))))"
    using plan_leaves_Inr [OF s(1)] by (simp add: no_progress_def)
  finally show ?thesis by auto
qed

text \<open>Every transform of an accepted plan ran, or may find nothing and did find nothing.\<close>

lemma BuildPlan_transforms:
  assumes "BuildPlan C env (Some snap) skips t = Inr p" "path \<in> set (Paths t)" "Program t path \<noteq> None"
  shows "(\<exists>c \<in> set (Changes p). Change_Path c = path \<and> transformed c)
    \<or> toleratesMissing t path \<and> (\<forall>l \<in> set (WalkLeaves (restorableTree (ContentOf snap))).
        Leaf_Path l = path \<longrightarrow> denied l) \<and>
      (\<forall>l \<in> set (WalkLeaves (restorableTree (ContentOf snap))). \<not> HasPrefix (Leaf_Path l) (path @ ''.''))"
proof -
  let ?ls = "WalkLeaves (restorableTree (ContentOf snap))"
  obtain s where s: "plan_leaves C env skips t ?ls no_progress = Inr s"
    "checkAllFired t (fired s) (skippedPaths s) (leaves s) = None"
    using BuildPlan_walk [OF assms(1)] by metis
  have w: "set (fired s) = {Leaf_Path l |l. l \<in> set ?ls \<and> restored skips l \<and> Program t (Leaf_Path l) \<noteq> None}"
    "leaves s = map Leaf_Path ?ls"
    "\<And>p. gmap_get (skippedPaths s) p \<noteq> None \<longleftrightarrow> (\<exists>l \<in> set ?ls. skipped_leaf skips l \<and> p = Leaf_Path l)"
    using plan_leaves_Inr [OF s(1)] by (simp_all add: no_progress_def)
  consider "path \<in> set (fired s)"
    | "gmap_get (skippedPaths s) path = None" "toleratesMissing t path" "path \<notin> set (fired s)"
      "\<forall>leaf \<in> set (leaves s). \<not> HasPrefix leaf (path @ ''.'')"
    using bspec [OF s(2) [unfolded checkAllFired_None] assms(2)] by argo
  then show ?thesis
  proof cases
    case 1
    then obtain l where l: "l \<in> set ?ls" "restored skips l" "path = Leaf_Path l" using w(1) by auto
    then obtain v where "change_of t l v \<in> set (Changes p)" using BuildPlan_changes(2) [OF assms(1)] by blast
    then show ?thesis using l(3) assms(3) by (intro disjI1 bexI [of _ "change_of t l v"]) (simp_all add: change_of_def)
  next
    case 2
    have "denied l" if "l \<in> set ?ls" "Leaf_Path l = path" for l
    proof (rule ccontr)
      assume "\<not> denied l"
      then have "restored skips l \<or> skipped_leaf skips l"
        by (cases "Skips skips (Leaf_Path l)") (simp_all add: restored_def skipped_leaf_def)
      then show False
      proof
        assume "restored skips l"
        then have "path \<in> set (fired s)" using w(1) that assms(3) by auto
        then show False using 2(3) by simp
      next
        assume "skipped_leaf skips l"
        then have "gmap_get (skippedPaths s) path \<noteq> None" using w(3) that by blast
        then show False using 2(1) by simp
      qed
    qed
    then show ?thesis using 2(2,4) w(2) by auto
  qed
qed


section \<open>Applying a plan\<close>

definition independent :: "Change list \<Rightarrow> bool" where
  "independent cs \<longleftrightarrow> (\<forall>c \<in> set cs. \<forall>c' \<in> set cs. c \<noteq> c' \<longrightarrow> parallel (segments c) (segments c'))"

lemma apply_changes_frame:
  "apply_changes cs m = Inr m' \<Longrightarrow> \<forall>c \<in> set cs. parallel (segments c) q \<Longrightarrow> GetSegments m' q = GetSegments m q"
proof (induction cs arbitrary: m)
  case (Cons c cs)
  then show ?case
    by (auto simp: SetSegments_frame split: prod.splits if_splits) (metis SetSegments_frame fst_conv)
qed simp

lemma apply_changes_effect:
  "apply_changes cs m = Inr m' \<Longrightarrow> distinct cs \<Longrightarrow> independent cs \<Longrightarrow> c \<in> set cs \<Longrightarrow>
     GetSegments m' (segments c @ r) = get_from (Change_Value c) r"
proof (induction cs arbitrary: m)
  case (Cons d cs)
  obtain m1 where m1: "SetSegments m (segments d) (Change_Value d) = (m1, True)" "apply_changes cs m1 = Inr m'"
    using Cons.prems(1) by (auto split: prod.splits if_splits)
  have ind: "independent cs" using Cons.prems(3) by (simp add: independent_def)
  show ?case
  proof (cases "c = d")
    case True
    have "parallel (segments c') (segments d @ r)" if "c' \<in> set cs" for c'
    proof -
      have "parallel (segments c') (segments d)" using that Cons.prems(2,3) by (auto simp: independent_def)
      then show ?thesis using parallel_append [of "segments c'" "segments d" "[]" r] by simp
    qed
    then have "GetSegments m' (segments d @ r) = GetSegments m1 (segments d @ r)"
      using apply_changes_frame [OF m1(2)] by blast
    also have "\<dots> = get_from (Change_Value d) r"
      using SetSegments_below [of m "segments d" "Change_Value d" r] m1(1) by simp
    finally show ?thesis using True by simp
  next
    case False
    then show ?thesis using Cons.IH [OF m1(2) _ ind] Cons.prems(2,4) by simp
  qed
qed simp

lemma apply_changes_ok:
  "apply_changes cs m = Inr m' \<Longrightarrow> obj_ok m \<Longrightarrow> \<forall>c \<in> set cs. json_ok (Change_Value c) \<Longrightarrow> obj_ok m'"
proof (induction cs arbitrary: m)
  case (Cons c cs)
  obtain m1 where m1: "SetSegments m (segments c) (Change_Value c) = (m1, True)" "apply_changes cs m1 = Inr m'"
    using Cons.prems(1) by (auto split: prod.splits if_splits)
  have "obj_ok m1" using SetSegments_ok [of m "Change_Value c" "segments c"] Cons.prems m1(1) by auto
  with Cons m1(2) show ?case by auto
qed simp

lemma BuildPlan_independent:
  assumes "BuildPlan C env (Some snap) skips t = Inr p" "content_ok (ContentOf snap)"
  shows "independent (Changes p)" "distinct (Changes p)"
proof -
  have d: "distinct (map segments (Changes p))" by (rule BuildPlan_changes(3) [OF assms])
  then show "distinct (Changes p)" by (simp add: distinct_map)
  have "parallel (segments c) (segments c')" if c: "c \<in> set (Changes p)" "c' \<in> set (Changes p)" "c \<noteq> c'" for c c'
  proof -
    obtain l where l: "l \<in> set (WalkLeaves (restorableTree (ContentOf snap)))" "segments c = Segments l"
      using c(1) BuildPlan_changes(1) [OF assms(1)] by (auto simp: change_of_def)
    obtain l' where l': "l' \<in> set (WalkLeaves (restorableTree (ContentOf snap)))" "segments c' = Segments l'"
      using c(2) BuildPlan_changes(1) [OF assms(1)] by (auto simp: change_of_def)
    have "segments c \<noteq> segments c'" using d c by (auto simp: distinct_map dest: inj_onD)
    then show ?thesis
      using WalkLeaves_parallel [OF restorableTree_ok [OF assms(2)] l(1) l'(1)] l(2) l'(2) by simp
  qed
  then show "independent (Changes p)" by (auto simp: independent_def)
qed


section \<open>Nothing denied is ever written\<close>

lemma DeniedPaths_short: "d \<in> set DeniedPaths \<Longrightarrow> length (Split d) \<le> 2"
proof -
  have "list_all (\<lambda>d. length (Split d) \<le> 2) DeniedPaths" by code_simp
  then show "d \<in> set DeniedPaths \<Longrightarrow> length (Split d) \<le> 2" by (simp add: list_all_iff)
qed

lemma restored_beside_denied:
  assumes "content_ok c" "l \<in> set (WalkLeaves (restorableTree c))" "\<not> denied l" "d \<in> set DeniedPaths"
  shows "parallel (Segments l) (Split d @ r)"
proof -
  have no: "\<not> prefix (Split d) (Segments l)"
    using denied_leaf [OF assms(4)] assms(3) by (auto simp: denied_def)
  have "2 \<le> length (Segments l)" using restorable_leaf [OF assms(1,2)] by auto
  then have "length (Split d) \<le> length (Segments l)" using DeniedPaths_short [OF assms(4)] by simp
  then have "\<not> prefix (Segments l) (Split d @ r)"
    using no by (metis prefix_length_prefix prefixI)
  moreover have "\<not> prefix (Split d @ r) (Segments l)" using no by (metis append_prefixD)
  ultimately show ?thesis by (simp add: parallel_def)
qed

lemma restored_beside_denied_key:
  assumes "content_ok c" "l \<in> set (WalkLeaves (restorableTree c))" "\<not> denied l"
    and "IsDeniedMetadataKey k" "m = ''labels'' \<or> m = ''annotations''"
  shows "parallel (Segments l) ([''metadata'', m, k] @ r)"
  using restorable_leaf [OF assms(1,2)] assms(3-5)
  by (auto simp: denied_def isDeniedMetadataLeaf_def parallel_def)

lemma BuildPlan_change_leaf:
  assumes "BuildPlan C env (Some snap) skips t = Inr p" "c \<in> set (Changes p)"
  obtains l v where "l \<in> set (WalkLeaves (restorableTree (ContentOf snap)))" "restored skips l"
    "restored_value C env t l = Inr v" "c = change_of t l v"
  using BuildPlan_changes(1) [OF assms(1)] assms(2) by blast

lemma plan_keeps_denied:
  assumes "BuildPlan C env (Some snap) skips t = Inr p" "content_ok (ContentOf snap)"
    and "Plan_Apply p cluster = Inr cluster'" "d \<in> set DeniedPaths"
  shows "GetSegments cluster' (Split d @ r) = GetSegments cluster (Split d @ r)"
proof (rule apply_changes_frame [OF assms(3) [unfolded Plan_Apply_def]], intro ballI)
  fix c assume "c \<in> set (Changes p)"
  then obtain l v where l: "l \<in> set (WalkLeaves (restorableTree (ContentOf snap)))" "restored skips l" "c = change_of t l v"
    using BuildPlan_change_leaf [OF assms(1)] by metis
  then show "parallel (segments c) (Split d @ r)"
    using restored_beside_denied [OF assms(2) l(1) _ assms(4)] by (simp add: restored_def change_of_def)
qed

lemma plan_keeps_denied_key:
  assumes "BuildPlan C env (Some snap) skips t = Inr p" "content_ok (ContentOf snap)"
    and "Plan_Apply p cluster = Inr cluster'" "IsDeniedMetadataKey k" "m = ''labels'' \<or> m = ''annotations''"
  shows "GetSegments cluster' ([''metadata'', m, k] @ r) = GetSegments cluster ([''metadata'', m, k] @ r)"
proof (rule apply_changes_frame [OF assms(3) [unfolded Plan_Apply_def]], intro ballI)
  fix c assume "c \<in> set (Changes p)"
  then obtain l v where l: "l \<in> set (WalkLeaves (restorableTree (ContentOf snap)))" "restored skips l" "c = change_of t l v"
    using BuildPlan_change_leaf [OF assms(1)] by metis
  then show "parallel (segments c) ([''metadata'', m, k] @ r)"
    using restored_beside_denied_key [OF assms(2) l(1) _ assms(4,5)] by (simp add: restored_def change_of_def)
qed

lemma plan_takes_effect:
  assumes "BuildPlan C env (Some snap) skips t = Inr p" "content_ok (ContentOf snap)"
    and "Plan_Apply p cluster = Inr cluster'"
    and "l \<in> set (WalkLeaves (restorableTree (ContentOf snap)))" "restored skips l" "restored_value C env t l = Inr v"
  shows "GetSegments cluster' (Segments l) = Some v"
proof -
  have "change_of t l v \<in> set (Changes p)" using BuildPlan_changes(1) [OF assms(1)] assms(4-6) by blast
  then show ?thesis
    using apply_changes_effect [OF assms(3) [unfolded Plan_Apply_def] _ _, of "change_of t l v" "[]"]
      BuildPlan_independent [OF assms(1,2)] by (simp add: change_of_def)
qed

lemma plan_frame:
  assumes "BuildPlan C env (Some snap) skips t = Inr p" "Plan_Apply p cluster = Inr cluster'"
    and "\<And>l. l \<in> set (WalkLeaves (restorableTree (ContentOf snap))) \<Longrightarrow> restored skips l \<Longrightarrow> parallel (Segments l) q"
  shows "GetSegments cluster' q = GetSegments cluster q"
proof (rule apply_changes_frame [OF assms(2) [unfolded Plan_Apply_def]], intro ballI)
  fix c assume "c \<in> set (Changes p)"
  then obtain l v where "l \<in> set (WalkLeaves (restorableTree (ContentOf snap)))" "restored skips l" "c = change_of t l v"
    using BuildPlan_change_leaf [OF assms(1)] by metis
  then show "parallel (segments c) q" using assms(3) by (simp add: change_of_def)
qed

text \<open>A path a skip rule matches keeps what the manifest says, entry by entry.\<close>

lemma plan_keeps_skipped:
  assumes "BuildPlan C env (Some snap) skips t = Inr p" "content_ok (ContentOf snap)"
    and "Plan_Apply p cluster = Inr cluster'"
    and "l \<in> set (WalkLeaves (restorableTree (ContentOf snap)))" "Skips skips (Leaf_Path l) \<noteq> None"
  shows "GetSegments cluster' (Segments l @ r) = GetSegments cluster (Segments l @ r)"
proof (rule plan_frame [OF assms(1,3)])
  fix l' assume l': "l' \<in> set (WalkLeaves (restorableTree (ContentOf snap)))" "restored skips l'"
  then have "Segments l' \<noteq> Segments l" using assms(5) by (auto simp: restored_def Leaf_Path_def)
  then have "parallel (Segments l') (Segments l)"
    using WalkLeaves_parallel [OF restorableTree_ok [OF assms(2)] l'(1) assms(4)] by simp
  then show "parallel (Segments l') (Segments l @ r)" using parallel_append [of _ _ "[]" r] by simp
qed

end
