(* ===== verification/Layout.thy ===== *)
theory Layout
  imports Snapshot
begin

text \<open>
  \<open>internal/store/layout.go\<close>: object keys. A snapshot's key is its timestamp, its padded
  generation and a short content hash; parsing one gives the timestamp and the generation back,
  and keys sort as strings the way their captures sort in time.
\<close>

section \<open>Keys\<close>

definition generationDigits :: nat where
  "generationDigits = 10"

record Layout =
  BasePath :: string
  ServerName :: string
  Prefix :: string

definition joinKey :: "string list \<Rightarrow> string" where
  "joinKey segments = Join (filter (\<lambda>s. s \<noteq> '''') (map (\<lambda>s. Trim s CHR ''/'') segments)) ''/''"

definition Root :: "Layout \<Rightarrow> string" where
  "Root l = joinKey [BasePath l, ServerName l, Prefix l]"

definition SnapshotsPrefix :: "Layout \<Rightarrow> string" where
  "SnapshotsPrefix l = joinKey [Root l, ''snapshots''] @ ''/''"

definition shortHash :: "string \<Rightarrow> string" where
  "shortHash checksum =
     (let hex = (case Cut checksum '':'' of Some (_, hex) \<Rightarrow> hex | None \<Rightarrow> checksum)
      in if length hex < 8 then ''00000000'' else take 8 hex)"

definition key_name :: "time \<Rightarrow> int \<Rightarrow> string \<Rightarrow> string" where
  "key_name capturedAt generation hash =
     FormatTimestamp capturedAt @ ''-g'' @ pad_int generationDigits generation @ ''-'' @ hash @ ''.json''"

definition SnapshotKey :: "Layout \<Rightarrow> time \<Rightarrow> int \<Rightarrow> string \<Rightarrow> string" where
  "SnapshotKey l capturedAt generation checksum =
     SnapshotsPrefix l @ key_name capturedAt generation (shortHash checksum)"

definition LatestKey :: "Layout \<Rightarrow> string" where
  "LatestKey l = joinKey [Root l, ''latest.json'']"

text \<open>\<open>path.Base\<close>: the text after the last slash, trailing slashes aside.\<close>

definition path_Base :: "string \<Rightarrow> string" where
  "path_Base p =
     (if p = '''' then ''.''
      else let stripped = rev (dropWhile (\<lambda>c. c = CHR ''/'') (rev p));
               base = rev (takeWhile (\<lambda>c. c \<noteq> CHR ''/'') (rev stripped))
           in if base = '''' then ''/'' else base)"

definition is_hex :: "char \<Rightarrow> bool" where
  "is_hex c \<longleftrightarrow> is_digit c \<or> CHR ''a'' \<le> c \<and> c \<le> CHR ''f''"

text \<open>The regular expression: the matched timestamp and generation.\<close>

definition snapshotKeyPattern :: "string \<Rightarrow> (string \<times> string) option" where
  "snapshotKeyPattern s =
     (if length s = 42
         \<and> list_all is_digit (take 8 s) \<and> s ! 8 = CHR ''T''
         \<and> list_all is_digit (take 6 (drop 9 s)) \<and> s ! 15 = CHR ''Z''
         \<and> take 2 (drop 16 s) = ''-g'' \<and> list_all is_digit (take 10 (drop 18 s))
         \<and> s ! 28 = CHR ''-'' \<and> list_all is_hex (take 8 (drop 29 s)) \<and> drop 37 s = ''.json''
      then Some (take 16 s, take 10 (drop 18 s)) else None)"

definition ParseSnapshotKey :: "string \<Rightarrow> error + time \<times> int" where
  "ParseSnapshotKey key =
     (case snapshotKeyPattern (path_Base key) of
        None \<Rightarrow> Inl (Errorf ''is not a snapshot key'' [key])
      | Some (ts, gen) \<Rightarrow>
          (case ParseTimestamp ts of
             Inl err \<Rightarrow> Inl (Wrapped ''while parsing timestamp in'' [key] err)
           | Inr capturedAt \<Rightarrow>
               (case ParseInt64 gen of
                  Inl err \<Rightarrow> Inl (Wrapped ''while parsing generation in'' [key] err)
                | Inr generation \<Rightarrow> Inr (capturedAt, generation))))"

section \<open>Destinations\<close>

record Destination =
  Scheme :: string
  Bucket :: string
  Dest_Path :: string

definition ParseDestination :: "string \<Rightarrow> error + Destination" where
  "ParseDestination destinationPath =
     (if destinationPath = '''' then Inl (Errorf ''destinationPath is empty'' [])
      else (case Cut destinationPath ''://'' of
              None \<Rightarrow> Inl (Errorf ''destinationPath has no scheme'' [destinationPath])
            | Some (scheme, remainder) \<Rightarrow>
                (let scheme = ToLower scheme; remainder = Trim remainder CHR ''/'' in
                 if \<not> List.member [''s3'', ''azure'', ''gs''] scheme
                 then Inl (Errorf ''unsupported destinationPath scheme'' [scheme])
                 else if remainder = '''' then Inl (Errorf ''destinationPath names no bucket'' [destinationPath])
                 else (case Cut remainder ''/'' of
                         Some (bucket, rest) \<Rightarrow>
                           Inr \<lparr>Scheme = scheme, Bucket = bucket, Dest_Path = Trim rest CHR ''/''\<rparr>
                       | None \<Rightarrow> Inr \<lparr>Scheme = scheme, Bucket = remainder, Dest_Path = ''''\<rparr>))))"

section \<open>A key parses back\<close>

lemma takeWhile_until: "x \<notin> set a \<Longrightarrow> takeWhile (\<lambda>c. c \<noteq> x) (a @ x # u) = a"
  by (induction a) auto

lemma path_Base_append:
  assumes "CHR ''/'' \<notin> set name" "name \<noteq> ''''"
  shows "path_Base (p @ CHR ''/'' # name) = name" "path_Base name = name"
proof -
  obtain c cs where c: "rev name = c # cs" "c \<noteq> CHR ''/''"
    using assms by (cases "rev name") (auto simp: set_rev [symmetric, of name] simp del: set_rev)
  have no: "\<forall>x \<in> set (rev name). x \<noteq> CHR ''/''" using assms(1) by auto
  have d: "dropWhile (\<lambda>c. c = CHR ''/'') (rev name @ t) = rev name @ t" for t using c by simp
  have t: "takeWhile (\<lambda>c. c \<noteq> CHR ''/'') (rev name @ CHR ''/'' # u) = rev name" for u
    using assms(1) by (intro takeWhile_until) simp
  have t': "takeWhile (\<lambda>c. c \<noteq> CHR ''/'') (rev name) = rev name" using no by (simp add: takeWhile_eq_all_conv)
  show "path_Base (p @ CHR ''/'' # name) = name"
    using assms(2) d [of "CHR ''/'' # rev p"] t by (simp add: path_Base_def Let_def)
  show "path_Base name = name"
    using assms(2) d [of "[]"] t' by (simp add: path_Base_def Let_def del: takeWhile_eq_all_conv)
qed

text \<open>A generation that ten digits can hold.\<close>

definition generation_fits :: "int \<Rightarrow> bool" where
  "generation_fits g \<longleftrightarrow> 0 \<le> g \<and> g < 10 ^ 10"

definition hex8 :: "string \<Rightarrow> bool" where
  "hex8 h \<longleftrightarrow> length h = 8 \<and> list_all is_hex h"

lemma FormatTimestamp_shape:
  assumes "four_digit_year t"
  shows "\<exists>a b. FormatTimestamp t = a @ ''T'' @ b @ ''Z'' \<and> length a = 8 \<and> length b = 6
    \<and> list_all is_digit a \<and> list_all is_digit b"
proof -
  obtain y m d hh mi ss where c: "clock_of_seconds (t div nanos_per_second) = (y, m, d, hh, mi, ss)"
    by (cases "clock_of_seconds (t div nanos_per_second)") auto
  then have "clock_printable (y, m, d, hh, mi, ss)" using clock_of_seconds_printable [OF assms] by simp
  then have "FormatTimestamp t = digits 4 (nat y) @ digits 2 (nat m) @ digits 2 (nat d) @ ''T'' @ digits 2 (nat hh)
      @ digits 2 (nat mi) @ digits 2 (nat ss) @ ''Z''"
    unfolding FormatTimestamp_def c by (rule format_clock_digits)
  then show ?thesis
    by (intro exI [of _ "digits 4 (nat y) @ digits 2 (nat m) @ digits 2 (nat d)"]
        exI [of _ "digits 2 (nat hh) @ digits 2 (nat mi) @ digits 2 (nat ss)"]) simp
qed

lemma snapshotKeyPattern_key_name:
  assumes "four_digit_year t" "generation_fits g" "hex8 h"
  shows "snapshotKeyPattern (key_name t g h) = Some (FormatTimestamp t, digits 10 (nat g))"
proof -
  obtain a b where f: "FormatTimestamp t = a @ ''T'' @ b @ ''Z''" "length a = 8" "length b = 6"
    "list_all is_digit a" "list_all is_digit b"
    using FormatTimestamp_shape [OF assms(1)] by blast
  have g: "pad_int generationDigits g = digits 10 (nat g)"
    using assms(2) by (simp add: generation_fits_def generationDigits_def pad_int_digits)
  show ?thesis
    using f assms(3) unfolding snapshotKeyPattern_def key_name_def g f(1)
    by (simp add: nth_append hex8_def)
qed

lemma is_hex_not_slash: "is_hex c \<Longrightarrow> c \<noteq> CHR ''/''"
  by (auto simp: is_hex_def is_digit_def)

lemma key_name_no_slash:
  assumes "four_digit_year t" "generation_fits g" "hex8 h"
  shows "CHR ''/'' \<notin> set (key_name t g h) \<and> key_name t g h \<noteq> ''''"
proof -
  obtain a b where f: "FormatTimestamp t = a @ ''T'' @ b @ ''Z''" "list_all is_digit a" "list_all is_digit b"
    using FormatTimestamp_shape [OF assms(1)] by blast
  have g: "pad_int generationDigits g = digits 10 (nat g)"
    using assms(2) by (simp add: generation_fits_def generationDigits_def pad_int_digits)
  have "\<not> is_digit CHR ''/''" "\<not> is_hex CHR ''/''" by (simp_all add: is_digit_def is_hex_def)
  with f assms(3) digits_are_digits [of "CHR ''/''" 10 "nat g"] show ?thesis
    unfolding key_name_def f(1) g by (auto simp: list_all_iff hex8_def)
qed

lemma ParseSnapshotKey_key_name:
  assumes "four_digit_year t" "generation_fits g" "hex8 h"
  shows "ParseSnapshotKey (p @ ''/'' @ key_name t g h) = Inr (t div nanos_per_second * nanos_per_second, g)"
proof -
  have g: "int (undigits (digits 10 (nat g))) = g"
    using undigits_pad [of g 10] assms(2) by (simp add: generation_fits_def)
  obtain c cs where "digits 10 (nat g) = c # cs"
    using length_digits [of 10 "nat g"] by (cases "digits 10 (nat g)") auto
  moreover have "is_digit c" using digits_are_digits [of c 10 "nat g"] calculation by simp
  moreover have "is_int64 g" using assms(2) by (auto simp: generation_fits_def is_int64_def)
  moreover have "c \<noteq> CHR ''-''" "c \<noteq> CHR ''+''" using calculation(2) by auto
  ultimately have "ParseInt64 (digits 10 (nat g)) = Inr g"
    using g digits_all [of 10 "nat g"] by (simp add: ParseInt64_def)
  then show ?thesis
    using path_Base_append(1) [of "key_name t g h" p] key_name_no_slash [OF assms]
    by (simp add: ParseSnapshotKey_def snapshotKeyPattern_key_name [OF assms] ParseTimestamp_FormatTimestamp [OF assms(1)])
qed


lemma SnapshotsPrefix_slash: "\<exists>p. SnapshotsPrefix l = p @ ''/''"
  by (simp add: SnapshotsPrefix_def)

lemma ParseSnapshotKey_SnapshotKey:
  assumes "four_digit_year t" "generation_fits g" "hex8 (shortHash checksum)"
  shows "ParseSnapshotKey (SnapshotKey l t g checksum) = Inr (t div nanos_per_second * nanos_per_second, g)"
  using ParseSnapshotKey_key_name [OF assms, of "joinKey [Root l, ''snapshots'']"]
  by (simp add: SnapshotKey_def SnapshotsPrefix_def)

text \<open>Checksums as \<open>Checksum\<close> makes them have a usable short form.\<close>

lemma shortHash_digest:
  assumes "8 \<le> length (sha e)" "list_all is_hex (sha e)"
  shows "hex8 (shortHash (digest sha e))"
proof -
  have "Cut (''sha256'' @ CHR '':'' # sha e) [CHR '':''] = Some (''sha256'', sha e)"
    by (rule Cut_char_append) simp
  then have "shortHash (digest sha e) = take 8 (sha e)"
    using assms(1) by (simp add: shortHash_def digest_def)
  with assms show ?thesis by (auto simp: hex8_def list_all_iff dest: in_set_takeD)
qed

section \<open>Keys of different histories\<close>

text \<open>The keys one history reads and writes.\<close>

definition in_history :: "Layout \<Rightarrow> string \<Rightarrow> bool" where
  "in_history l k \<longleftrightarrow> k = LatestKey l \<or> HasPrefix k (SnapshotsPrefix l)"

lemma Trim_ends: "Trim s c = '''' \<or> hd (Trim s c) \<noteq> c \<and> last (Trim s c) \<noteq> c"
proof -
  let ?d = "dropWhile (\<lambda>x. x = c) s"
  let ?e = "dropWhile (\<lambda>x. x = c) (rev ?d)"
  have t: "Trim s c = rev ?e" by (simp add: Trim_def)
  have front: "dropWhile (\<lambda>x. x = c) xs = [] \<or> hd (dropWhile (\<lambda>x. x = c) xs) \<noteq> c" for xs :: string
    by (induction xs) auto
  have "dropWhile (\<lambda>x. x = c) xs = [] \<or> last (dropWhile (\<lambda>x. x = c) xs) = last xs" for xs :: string
    by (induction xs) auto
  note rear = this
  show ?thesis
  proof (cases "?e = []")
    case False
    then have "?d \<noteq> []" by (metis dropWhile.simps(1) rev.simps(1))
    then have "hd (rev ?e) \<noteq> c" using False rear [of "rev ?d"] front [of s] by (simp only: hd_rev last_rev simp_thms)
    moreover have "last (rev ?e) \<noteq> c" using False front [of "rev ?d"] by (simp only: last_rev simp_thms)
    ultimately show ?thesis unfolding t by blast
  qed (simp only: t rev.simps simp_thms)
qed

lemma Trim_id: "s = '''' \<or> hd s \<noteq> c \<and> last s \<noteq> c \<Longrightarrow> Trim s c = s"
proof -
  have d: "hd xs \<noteq> c \<Longrightarrow> dropWhile (\<lambda>x. x = c) xs = xs" for xs by (cases xs) auto
  show "s = '''' \<or> hd s \<noteq> c \<and> last s \<noteq> c \<Longrightarrow> Trim s c = s"
    by (cases "s = ''''") (simp_all add: Trim_def d hd_rev)
qed

text \<open>A server name that is one path segment is one in the keys, after what the base path gives.\<close>

definition base_dir :: "string \<Rightarrow> string" where
  "base_dir b = (if Trim b CHR ''/'' = '''' then '''' else Trim b CHR ''/'' @ ''/'')"

definition one_segment :: "string \<Rightarrow> bool" where
  "one_segment s \<longleftrightarrow> s \<noteq> '''' \<and> CHR ''/'' \<notin> set s"

lemma one_segment_Trim: "one_segment s \<Longrightarrow> Trim s CHR ''/'' = s"
  by (rule Trim_id) (metis hd_in_set last_in_set one_segment_def)

lemma joinKey_server:
  assumes "one_segment (ServerName l)" "one_segment name"
  shows "\<exists>r. joinKey [Root l, name] = base_dir (BasePath l) @ ServerName l @ CHR ''/'' # r"
proof -
  let ?b = "Trim (BasePath l) CHR ''/''" and ?p = "Trim (Prefix l) CHR ''/''"
  let ?tail = "if ?p = '''' then '''' else CHR ''/'' # ?p"
  have s: "ServerName l \<noteq> ''''" "hd (ServerName l) \<noteq> CHR ''/''" "last (ServerName l) \<noteq> CHR ''/''"
    using assms(1) by (auto simp: one_segment_def dest: hd_in_set last_in_set)
  have root: "Root l = base_dir (BasePath l) @ ServerName l @ ?tail"
    using s(1) by (simp add: Root_def joinKey_def base_dir_def one_segment_Trim [OF assms(1)])
  have "hd (Root l) \<noteq> CHR ''/''"
    unfolding root using s Trim_ends [of "BasePath l" "CHR ''/''"] by (auto simp: base_dir_def hd_append)
  moreover have "last (Root l) \<noteq> CHR ''/''"
    unfolding root using s Trim_ends [of "Prefix l" "CHR ''/''"] by auto
  ultimately have "Trim (Root l) CHR ''/'' = Root l" by (intro Trim_id) blast
  moreover have "Root l \<noteq> ''''" using s(1) by (simp add: root)
  ultimately have "joinKey [Root l, name] = Root l @ CHR ''/'' # name"
    using assms(2) by (simp add: joinKey_def one_segment_Trim) (simp add: one_segment_def)
  then show ?thesis unfolding root by (cases "?p = ''''") simp_all
qed

text \<open>So histories of different servers in one place share no key.\<close>

lemma in_history_server:
  assumes "one_segment (ServerName l)" "in_history l k"
  shows "\<exists>r. k = base_dir (BasePath l) @ ServerName l @ CHR ''/'' # r"
proof -
  have "one_segment ''latest.json''" "one_segment ''snapshots''" by (simp_all add: one_segment_def)
  then show ?thesis
    using assms(2) joinKey_server [OF assms(1)]
    by (auto simp: in_history_def LatestKey_def SnapshotsPrefix_def HasPrefix_iff) (metis append.assoc append_Cons)+
qed

lemma histories_share_no_key:
  assumes "BasePath a = BasePath b" "one_segment (ServerName a)" "one_segment (ServerName b)"
    and "ServerName a \<noteq> ServerName b" "in_history a k"
  shows "\<not> in_history b k"
proof
  assume "in_history b k"
  then obtain r r' where "k = base_dir (BasePath a) @ ServerName a @ CHR ''/'' # r"
    "k = base_dir (BasePath a) @ ServerName b @ CHR ''/'' # r'"
    using in_history_server assms by metis
  then have "split_on CHR ''/'' (ServerName a @ CHR ''/'' # r) = split_on CHR ''/'' (ServerName b @ CHR ''/'' # r')" by simp
  then show False using assms(2-4) by (simp add: split_on_append one_segment_def)
qed

text \<open>But a slash around a server name does not count.\<close>

lemma in_history_trimmed:
  assumes "BasePath a = BasePath b" "Prefix a = Prefix b" "Trim (ServerName a) CHR ''/'' = Trim (ServerName b) CHR ''/''"
  shows "in_history a k \<longleftrightarrow> in_history b k"
proof -
  have "Root a = Root b" using assms by (simp add: Root_def joinKey_def)
  then show ?thesis by (simp add: in_history_def LatestKey_def SnapshotsPrefix_def)
qed

section \<open>Key order is chronological order\<close>

lemma key_name_less:
  assumes "four_digit_year t" "generation_fits g" "hex8 h" "four_digit_year t'" "generation_fits g'" "hex8 h'"
  shows "key_name t g h < key_name t' g' h' \<longleftrightarrow>
    t div nanos_per_second < t' div nanos_per_second \<or>
    t div nanos_per_second = t' div nanos_per_second \<and> (g < g' \<or> g = g' \<and> h < h')"
proof -
  have g: "pad_int generationDigits i = digits 10 (nat i)" if "generation_fits i" for i
    using that by (simp add: generation_fits_def generationDigits_def pad_int_digits)
  have cmp: "digits 10 (nat g) < digits 10 (nat g') \<longleftrightarrow> g < g'" "digits 10 (nat g) = digits 10 (nat g') \<longleftrightarrow> g = g'"
    using assms(2,5) digits_less [of "nat g" 10 "nat g'"] digits_eq [of "nat g" 10 "nat g'"]
    by (auto simp: generation_fits_def nat_less_iff)
  have len: "length (FormatTimestamp t) = length (FormatTimestamp t')" "length h = length h'"
    using assms by (simp_all add: length_FormatTimestamp hex8_def)
  show ?thesis
    unfolding key_name_def g [OF assms(2)] g [OF assms(5)] append_less_append [OF len(1)]
      FormatTimestamp_less [OF assms(1,4)] FormatTimestamp_eq [OF assms(1,4)]
    by (simp add: append_less_append len cmp)
qed

lemma same_prefix_less: "(p @ a < p @ b) = (a < (b :: string))"
  by (induction p) auto

lemma SnapshotKey_less:
  assumes "four_digit_year t" "generation_fits g" "hex8 (shortHash c)"
    and "four_digit_year t'" "generation_fits g'" "hex8 (shortHash c')"
  shows "SnapshotKey l t g c < SnapshotKey l t' g' c' \<longleftrightarrow>
    t div nanos_per_second < t' div nanos_per_second \<or>
    t div nanos_per_second = t' div nanos_per_second \<and> (g < g' \<or> g = g' \<and> shortHash c < shortHash c')"
  using key_name_less [OF assms] by (simp add: SnapshotKey_def same_prefix_less)

lemma SnapshotKey_eq:
  assumes "four_digit_year t" "generation_fits g" "hex8 (shortHash c)"
    and "four_digit_year t'" "generation_fits g'" "hex8 (shortHash c')"
  shows "SnapshotKey l t g c = SnapshotKey l t' g' c' \<longleftrightarrow>
    t div nanos_per_second = t' div nanos_per_second \<and> g = g' \<and> shortHash c = shortHash c'"
  using SnapshotKey_less [OF assms] SnapshotKey_less [OF assms(4-6,1-3)]
  by (metis (no_types, lifting) linorder_neqE not_less_iff_gr_or_eq)


section \<open>Keys found in a listing\<close>

lemma list_all_part: "list_all P s \<Longrightarrow> list_all P (take n (drop i s))"
  by (auto simp: list_all_iff dest!: in_set_takeD in_set_dropD)

lemma digit_run: "list_all is_digit (take n (drop i s)) \<Longrightarrow> i + n \<le> length s \<Longrightarrow>
  take n (drop i s) = digits n (undigits (take n (drop i s)))"
  using digits_undigits [of "take n (drop i s)"] by simp

lemma take_drop_step: "drop i s = take n (drop i s) @ drop (i + n) s"
  by (metis append_take_drop_id drop_drop add.commute)

lemma undigits_bound: "list_all is_digit s \<Longrightarrow> length s = n \<Longrightarrow> int (undigits s) < 10 ^ n"
  using undigits_less [of s] by (metis of_nat_less_iff of_nat_numeral of_nat_power)

text \<open>A timestamp that parses is the printed form of what it parses to.\<close>

lemma ParseTimestamp_Inr:
  assumes "ParseTimestamp s = Inr t"
  shows "\<exists>c. clock_printable c \<and> s = format_clock c \<and> t = seconds_of_clock c * nanos_per_second"
proof -
  let ?n = "\<lambda>i n. int (undigits (take n (drop i s)))"
  let ?c = "(?n 0 4, ?n 4 2, ?n 6 2, ?n 9 2, ?n 11 2, ?n 13 2)"
  have len: "length s = 16" and d8: "list_all is_digit (take 8 s)" and T: "s ! 8 = CHR ''T''"
    and d6: "list_all is_digit (take 6 (drop 9 s))" and Z: "s ! 15 = CHR ''Z''"
    and v: "valid_clock ?c" and t: "t = seconds_of_clock ?c * nanos_per_second"
    using assms by (auto simp: ParseTimestamp_def Let_def split: if_splits)
  have "take 4 (drop 0 s) = take 4 (drop 0 (take 8 s))" "take 2 (drop 4 s) = take 2 (drop 4 (take 8 s))"
    "take 2 (drop 6 s) = take 2 (drop 6 (take 8 s))" by (simp_all add: drop_take)
  then have a: "list_all is_digit (take 4 (drop 0 s))" "list_all is_digit (take 2 (drop 4 s))"
    "list_all is_digit (take 2 (drop 6 s))" using list_all_part [OF d8] by (simp_all only:)
  have "take 2 (drop 9 s) = take 2 (drop 0 (take 6 (drop 9 s)))" "take 2 (drop 11 s) = take 2 (drop 2 (take 6 (drop 9 s)))"
    "take 2 (drop 13 s) = take 2 (drop 4 (take 6 (drop 9 s)))" by (simp_all add: drop_take)
  then have b: "list_all is_digit (take 2 (drop 9 s))" "list_all is_digit (take 2 (drop 11 s))"
    "list_all is_digit (take 2 (drop 13 s))" using list_all_part [OF d6] by (simp_all only:)
  have p: "clock_printable ?c" using v undigits_bound [OF a(1), of 4] len by simp
  have one: "take 1 (drop 8 s) = ''T''" "drop 15 s = ''Z''"
    using T Z len by (auto simp: take_Suc_conv_app_nth Cons_nth_drop_Suc [symmetric])
  have "s = take 4 (drop 0 s) @ take 2 (drop 4 s) @ take 2 (drop 6 s) @ take 1 (drop 8 s) @ take 2 (drop 9 s)
      @ take 2 (drop 11 s) @ take 2 (drop 13 s) @ drop 15 s"
    using take_drop_step [of 0 s 4] take_drop_step [of 4 s 2] take_drop_step [of 6 s 2] take_drop_step [of 8 s 1]
      take_drop_step [of 9 s 2] take_drop_step [of 11 s 2] take_drop_step [of 13 s 2] by simp
  also have "\<dots> = format_clock ?c"
    unfolding format_clock_digits [OF p] one using digit_run [OF a(1)] digit_run [OF a(2)] digit_run [OF a(3)]
      digit_run [OF b(1)] digit_run [OF b(2)] digit_run [OF b(3)] len by simp
  finally show ?thesis using p t by blast
qed

lemma ParseTimestamp_less:
  assumes "ParseTimestamp s = Inr t" "ParseTimestamp s' = Inr t'"
  shows "s < s' \<longleftrightarrow> t < t'" "s = s' \<longleftrightarrow> t = t'"
proof -
  obtain c where c: "clock_printable c" "s = format_clock c" "t = seconds_of_clock c * nanos_per_second"
    using ParseTimestamp_Inr [OF assms(1)] by blast
  obtain c' where c': "clock_printable c'" "s' = format_clock c'" "t' = seconds_of_clock c' * nanos_per_second"
    using ParseTimestamp_Inr [OF assms(2)] by blast
  have v: "valid_clock c" "valid_clock c'" using c(1) c'(1) by (cases c; cases c'; simp)+
  have less: "clock_less c c' \<longleftrightarrow> t < t'"
    using clock_less_iff [of "seconds_of_clock c" "seconds_of_clock c'"] clock_of_seconds_inverse [OF v(1)]
      clock_of_seconds_inverse [OF v(2)] c(3) c'(3) by (simp add: nanos_per_second_def)
  show "s < s' \<longleftrightarrow> t < t'" unfolding c(2) c'(2) format_clock_less [OF c(1) c'(1)] less ..
  show "s = s' \<longleftrightarrow> t = t'"
  proof
    assume "t = t'"
    then have "seconds_of_clock c = seconds_of_clock c'" using c(3) c'(3) by (simp add: nanos_per_second_def)
    then have "c = c'" using clock_of_seconds_inverse [OF v(1)] clock_of_seconds_inverse [OF v(2)] by metis
    then show "s = s'" by (simp only: c(2) c'(2))
  qed (use assms in simp)
qed


lemma snapshotKeyPattern_Some:
  assumes "snapshotKeyPattern s = Some (ts, gs)"
  shows "\<exists>hs. s = ts @ ''-g'' @ gs @ ''-'' @ hs @ ''.json'' \<and> length ts = 16 \<and> length gs = 10 \<and> hex8 hs
    \<and> list_all is_digit gs"
proof -
  have len: "length s = 42" and ts: "ts = take 16 s" and gs: "gs = take 10 (drop 18 s)"
    and dash: "take 2 (drop 16 s) = ''-g''" "s ! 28 = CHR ''-''" "drop 37 s = ''.json''"
    and hex: "list_all is_hex (take 8 (drop 29 s))" and dig: "list_all is_digit gs"
    using assms by (auto simp: snapshotKeyPattern_def split: if_splits)
  have one: "take 1 (drop 28 s) = ''-''" using dash(2) len by (simp add: take_Suc_conv_app_nth)
  have "s = take 16 (drop 0 s) @ take 2 (drop 16 s) @ take 10 (drop 18 s) @ take 1 (drop 28 s)
      @ take 8 (drop 29 s) @ drop 37 s"
    using take_drop_step [of 0 s 16] take_drop_step [of 16 s 2] take_drop_step [of 18 s 10]
      take_drop_step [of 28 s 1] take_drop_step [of 29 s 8] by simp
  then have "s = ts @ ''-g'' @ gs @ ''-'' @ take 8 (drop 29 s) @ ''.json''"
    unfolding dash(1,3) one ts gs by simp
  moreover have "hex8 (take 8 (drop 29 s))" using hex len by (simp add: hex8_def)
  ultimately show ?thesis using len ts gs dig by auto
qed

lemma ParseInt64_digits:
  assumes "list_all is_digit s" "ParseInt64 s = Inr g"
  shows "g = int (undigits s)"
proof (cases s)
  case (Cons c cs)
  then have "c \<noteq> CHR ''-''" "c \<noteq> CHR ''+''" using assms(1) by auto
  with Cons assms show ?thesis by (auto simp: ParseInt64_def Let_def split: if_splits)
qed (use assms in \<open>simp add: ParseInt64_def\<close>)

text \<open>What a key directly under a prefix says of its capture.\<close>

lemma ParseSnapshotKey_Inr:
  assumes "ParseSnapshotKey (p @ ''/'' @ n) = Inr (t, g)" "CHR ''/'' \<notin> set n" "n \<noteq> ''''"
  shows "\<exists>ts gs hs. n = ts @ ''-g'' @ gs @ ''-'' @ hs @ ''.json'' \<and> length ts = 16 \<and> length gs = 10
    \<and> ParseTimestamp ts = Inr t \<and> gs = digits 10 (nat g) \<and> generation_fits g \<and> hex8 hs"
proof -
  have base: "path_Base (p @ ''/'' @ n) = n" using path_Base_append(1) [OF assms(2,3)] by simp
  obtain ts gs where k: "snapshotKeyPattern n = Some (ts, gs)" "ParseTimestamp ts = Inr t" "ParseInt64 gs = Inr g"
    using assms(1) unfolding ParseSnapshotKey_def base by (auto split: option.splits sum.splits prod.splits)
  obtain hs where n: "n = ts @ ''-g'' @ gs @ ''-'' @ hs @ ''.json''" "length ts = 16" "length gs = 10" "hex8 hs"
    "list_all is_digit gs"
    using snapshotKeyPattern_Some [OF k(1)] by blast
  have g: "g = int (undigits gs)" by (rule ParseInt64_digits [OF n(5) k(3)])
  then have "gs = digits 10 (nat g)" using digits_undigits [OF n(5)] n(3) by simp
  moreover have "generation_fits g" using undigits_bound [OF n(5,3)] g by (simp add: generation_fits_def)
  ultimately show ?thesis using n k(2) by blast
qed

text \<open>So key order refines the order of capture: time first, then generation.\<close>

lemma parsed_key_less:
  assumes "ParseSnapshotKey (p @ ''/'' @ n) = Inr (t, g)" "CHR ''/'' \<notin> set n" "n \<noteq> ''''"
    and "ParseSnapshotKey (p @ ''/'' @ n') = Inr (t', g')" "CHR ''/'' \<notin> set n'" "n' \<noteq> ''''"
    and "t < t' \<or> t = t' \<and> g < g'"
  shows "p @ ''/'' @ n < p @ ''/'' @ n'"
proof -
  obtain ts gs hs where n: "n = ts @ ''-g'' @ gs @ ''-'' @ hs @ ''.json''" "length ts = 16"
    "ParseTimestamp ts = Inr t" "gs = digits 10 (nat g)" "generation_fits g"
    using ParseSnapshotKey_Inr [OF assms(1-3)] by blast
  obtain ts' gs' hs' where n': "n' = ts' @ ''-g'' @ gs' @ ''-'' @ hs' @ ''.json''" "length ts' = 16"
    "ParseTimestamp ts' = Inr t'" "gs' = digits 10 (nat g')" "generation_fits g'"
    using ParseSnapshotKey_Inr [OF assms(4-6)] by blast
  have len: "length ts = length ts'" using n(2) n'(2) by simp
  have gcmp: "digits 10 (nat g) < digits 10 (nat g') \<longleftrightarrow> g < g'"
    using n(5) n'(5) digits_less [of "nat g" 10 "nat g'"] by (auto simp: generation_fits_def nat_less_iff)
  have "n < n'"
    using assms(7) unfolding n(1) n'(1) append_less_append [OF len] ParseTimestamp_less [OF n(3) n'(3)]
    by (auto simp: append_less_append n(4) n'(4) gcmp)
  then show ?thesis by (simp add: same_prefix_less)
qed

end
