(* ===== verification/Snapshot_Codec.thy ===== *)
theory Snapshot_Codec
  imports Snapshot
begin

text \<open>
  The written form of a snapshot, as the struct tags of \<open>internal/snapshot/types.go\<close> give it:
  \<open>snapshot_json\<close> is what \<open>json.Marshal\<close> makes of a Snapshot and \<open>decode_snapshot\<close> what
  \<open>Decoder.Decode\<close> makes of a document. Decoding follows \<open>encoding/json\<close>: entries in written
  order, field names exact or else up to case (ASCII), unknown entries ignored, \<open>null\<close> leaving a
  field as it is, maps merged, a wrong type failing the whole decode. A timestamp is taken to be
  written without escapes.
\<close>

section \<open>Writing\<close>

definition clusterref_json :: "ClusterRef \<Rightarrow> json" where
  "clusterref_json r = JObject ([(''name'', JString (Ref_Name r)), (''namespace'', JString (Ref_Namespace r))]
     @ omit_empty ''uid'' JString (Ref_UID r))"

definition sourceinfo_json :: "SourceInfo \<Rightarrow> json" where
  "sourceinfo_json s = JObject ([(''pluginVersion'', JString (PluginVersion s))]
     @ omit_empty ''imageName'' JString (ImageName s))"

definition snapshot_json :: "Snapshot \<Rightarrow> error + json" where
  "snapshot_json snap =
     (case FormatRFC3339Nano (CapturedAt snap) of
        Inl err \<Rightarrow> Inl err
      | Inr capturedAt \<Rightarrow> Inr (JObject (
          [(''apiVersion'', JString (APIVersion snap)),
           (''kind'', JString (Kind snap)),
           (''capturedAt'', JString capturedAt),
           (''generation'', JNumber (FormatInt (Generation snap))),
           (''cluster'', clusterref_json (Snapshot.Cluster snap)),
           (''source'', sourceinfo_json (Source snap)),
           (''groups'', strings_json (CapturedGroups snap)),
           (''captureRules'', JString (CaptureRules snap))]
          @ content_fields (ContentOf snap)
          @ [(''checksum'', JString (Checksum_of snap))])))"

section \<open>Reading\<close>

definition unmarshal_error :: "string \<Rightarrow> error" where
  "unmarshal_error what = Errorf ''json: cannot unmarshal'' [what]"

text \<open>The struct field an entry is for.\<close>

definition match_field :: "string list \<Rightarrow> string \<Rightarrow> string option" where
  "match_field names k =
     (if List.member names k then Some k else find (\<lambda>n. ToLower n = ToLower k) names)"

fun decode_fields :: "('s \<Rightarrow> string \<Rightarrow> json \<Rightarrow> error + 's) \<Rightarrow> string list \<Rightarrow> (string \<times> json) list \<Rightarrow> 's \<Rightarrow> error + 's" where
  "decode_fields field names [] s = Inr s"
| "decode_fields field names ((k, v) # es) s =
     (case match_field names k of
        None \<Rightarrow> decode_fields field names es s
      | Some n \<Rightarrow>
          (case field s n v of
             Inl err \<Rightarrow> Inl err
           | Inr s' \<Rightarrow> decode_fields field names es s'))"

definition decode_string :: "string \<Rightarrow> json \<Rightarrow> error + string" where
  "decode_string old v = (case v of JString s \<Rightarrow> Inr s | JNull \<Rightarrow> Inr old | _ \<Rightarrow> Inl (unmarshal_error ''string''))"

definition decode_int64 :: "int \<Rightarrow> json \<Rightarrow> error + int" where
  "decode_int64 old v = (case v of JNumber n \<Rightarrow> ParseInt64 n | JNull \<Rightarrow> Inr old | _ \<Rightarrow> Inl (unmarshal_error ''int64''))"

definition decode_time :: "time \<Rightarrow> json \<Rightarrow> error + time" where
  "decode_time old v = (case v of JString s \<Rightarrow> ParseRFC3339 s | JNull \<Rightarrow> Inr old
     | _ \<Rightarrow> Inl (Errorf ''Time.UnmarshalJSON: input is not a JSON string'' []))"

fun decode_list :: "json list \<Rightarrow> error + string list" where
  "decode_list [] = Inr []"
| "decode_list (v # vs) =
     (case decode_string '''' v of
        Inl err \<Rightarrow> Inl err
      | Inr s \<Rightarrow> (case decode_list vs of Inl err \<Rightarrow> Inl err | Inr ss \<Rightarrow> Inr (s # ss)))"

definition decode_strings :: "json \<Rightarrow> error + string list" where
  "decode_strings v = (case v of JArray xs \<Rightarrow> decode_list xs | JNull \<Rightarrow> Inr [] | _ \<Rightarrow> Inl (unmarshal_error ''[]string''))"

fun decode_entries :: "(string \<times> json) list \<Rightarrow> strmap \<Rightarrow> error + strmap" where
  "decode_entries [] m = Inr m"
| "decode_entries ((k, v) # es) m =
     (case decode_string '''' v of Inl err \<Rightarrow> Inl err | Inr s \<Rightarrow> decode_entries es (gmap_set m k s))"

definition decode_strmap :: "strmap \<Rightarrow> json \<Rightarrow> error + strmap" where
  "decode_strmap old v = (case v of JObject m \<Rightarrow> decode_entries m old | JNull \<Rightarrow> Inr []
     | _ \<Rightarrow> Inl (unmarshal_error ''map[string]string''))"

definition decode_anymap :: "obj \<Rightarrow> json \<Rightarrow> error + obj" where
  "decode_anymap old v = (case v of
     JObject m \<Rightarrow> Inr (fold (\<lambda>(k, x) m. gmap_set m k (as_any x)) m old)
   | JNull \<Rightarrow> Inr []
   | _ \<Rightarrow> Inl (unmarshal_error ''map[string]any''))"

text \<open>Decoding into a struct.\<close>

definition decode_struct ::
  "('s \<Rightarrow> string \<Rightarrow> json \<Rightarrow> error + 's) \<Rightarrow> string list \<Rightarrow> 's \<Rightarrow> json \<Rightarrow> error + 's" where
  "decode_struct field names old v = (case v of
     JObject m \<Rightarrow> decode_fields field names m old
   | JNull \<Rightarrow> Inr old
   | _ \<Rightarrow> Inl (unmarshal_error ''struct''))"

definition clusterref_field :: "ClusterRef \<Rightarrow> string \<Rightarrow> json \<Rightarrow> error + ClusterRef" where
  "clusterref_field r n v =
     (if n = ''name'' then map_sum id (\<lambda>s. r\<lparr>Ref_Name := s\<rparr>) (decode_string (Ref_Name r) v)
      else if n = ''namespace'' then map_sum id (\<lambda>s. r\<lparr>Ref_Namespace := s\<rparr>) (decode_string (Ref_Namespace r) v)
      else map_sum id (\<lambda>s. r\<lparr>Ref_UID := s\<rparr>) (decode_string (Ref_UID r) v))"

definition sourceinfo_field :: "SourceInfo \<Rightarrow> string \<Rightarrow> json \<Rightarrow> error + SourceInfo" where
  "sourceinfo_field r n v =
     (if n = ''pluginVersion'' then map_sum id (\<lambda>s. r\<lparr>PluginVersion := s\<rparr>) (decode_string (PluginVersion r) v)
      else map_sum id (\<lambda>s. r\<lparr>ImageName := s\<rparr>) (decode_string (ImageName r) v))"

definition content_update :: "(Content \<Rightarrow> Content) \<Rightarrow> Snapshot \<Rightarrow> Snapshot" where
  "content_update f s = s\<lparr>ContentOf := f (ContentOf s)\<rparr>"

definition snapshot_field :: "Snapshot \<Rightarrow> string \<Rightarrow> json \<Rightarrow> error + Snapshot" where
  "snapshot_field s n v =
     (if n = ''apiVersion'' then map_sum id (\<lambda>x. s\<lparr>APIVersion := x\<rparr>) (decode_string (APIVersion s) v)
      else if n = ''kind'' then map_sum id (\<lambda>x. s\<lparr>Kind := x\<rparr>) (decode_string (Kind s) v)
      else if n = ''capturedAt'' then map_sum id (\<lambda>x. s\<lparr>CapturedAt := x\<rparr>) (decode_time (CapturedAt s) v)
      else if n = ''generation'' then map_sum id (\<lambda>x. s\<lparr>Generation := x\<rparr>) (decode_int64 (Generation s) v)
      else if n = ''cluster'' then map_sum id (\<lambda>x. s\<lparr>Snapshot.Cluster := x\<rparr>)
        (decode_struct clusterref_field [''name'', ''namespace'', ''uid''] (Snapshot.Cluster s) v)
      else if n = ''source'' then map_sum id (\<lambda>x. s\<lparr>Source := x\<rparr>)
        (decode_struct sourceinfo_field [''pluginVersion'', ''imageName''] (Source s) v)
      else if n = ''groups'' then map_sum id (\<lambda>x. s\<lparr>CapturedGroups := x\<rparr>) (decode_strings v)
      else if n = ''captureRules'' then map_sum id (\<lambda>x. s\<lparr>CaptureRules := x\<rparr>) (decode_string (CaptureRules s) v)
      else if n = ''spec'' then map_sum id (\<lambda>x. content_update (\<lambda>c. c\<lparr>Spec := x\<rparr>) s)
        (decode_anymap (Spec (ContentOf s)) v)
      else if n = ''labels'' then map_sum id (\<lambda>x. content_update (\<lambda>c. c\<lparr>Labels := x\<rparr>) s)
        (decode_strmap (Labels (ContentOf s)) v)
      else if n = ''annotations'' then map_sum id (\<lambda>x. content_update (\<lambda>c. c\<lparr>Annotations := x\<rparr>) s)
        (decode_strmap (Annotations (ContentOf s)) v)
      else map_sum id (\<lambda>x. s\<lparr>Checksum_of := x\<rparr>) (decode_string (Checksum_of s) v))"

definition snapshot_fields :: "string list" where
  "snapshot_fields = [''apiVersion'', ''kind'', ''capturedAt'', ''generation'', ''cluster'', ''source'',
     ''groups'', ''captureRules'', ''spec'', ''labels'', ''annotations'', ''checksum'']"

text \<open>\<open>var snap snapshot.Snapshot\<close>.\<close>

definition zero_snapshot :: Snapshot where
  "zero_snapshot = \<lparr>APIVersion = '''', Kind = '''', CapturedAt = 0, Generation = 0,
     Cluster = \<lparr>Ref_Name = '''', Ref_Namespace = '''', Ref_UID = ''''\<rparr>,
     Source = \<lparr>PluginVersion = '''', ImageName = ''''\<rparr>, CapturedGroups = [], CaptureRules = '''',
     ContentOf = \<lparr>Spec = [], Labels = [], Annotations = []\<rparr>, Checksum_of = ''''\<rparr>"

definition decode_snapshot :: "bytes \<Rightarrow> error + Snapshot" where
  "decode_snapshot raw =
     (case parse_document raw of
        Inl err \<Rightarrow> Inl err
      | Inr doc \<Rightarrow> decode_struct snapshot_field snapshot_fields zero_snapshot doc)"

definition encode_snapshot :: "Snapshot \<Rightarrow> error + bytes" where
  "encode_snapshot snap =
     (case snapshot_json snap of Inl err \<Rightarrow> Inl err | Inr doc \<Rightarrow> MarshalIndent doc)"

section \<open>Reading what was written\<close>

text \<open>The snapshots that can be written without loss.\<close>

definition snapshot_ok :: "Snapshot \<Rightarrow> bool" where
  "snapshot_ok s \<longleftrightarrow>
     four_digit_year (CapturedAt s) \<and> is_int64 (Generation s) \<and> content_ok (ContentOf s)"

lemma decode_fields_append:
  "decode_fields f ns (xs @ ys) s =
     (case decode_fields f ns xs s of Inl err \<Rightarrow> Inl err | Inr s' \<Rightarrow> decode_fields f ns ys s')"
  by (induction f ns xs s rule: decode_fields.induct) (auto split: option.splits sum.splits)

lemma decode_fields_known:
  "k \<in> set ns \<Longrightarrow> f s k v = Inr s' \<Longrightarrow> decode_fields f ns ((k, v) # es) s = decode_fields f ns es s'"
  by (simp add: match_field_def List.member_iff)

lemma decode_entries_strmap:
  "decode_entries (map (\<lambda>(k, v). (k, JString v)) es) m = Inr (fold (\<lambda>(k, v) m. gmap_set m k v) es m)"
  by (induction es arbitrary: m) (auto simp: decode_string_def)

lemma decode_strmap_json: "gmap_ok m \<Longrightarrow> decode_strmap [] (strmap_json m) = Inr m"
  using gmap_of_id [of m] by (simp add: decode_strmap_def strmap_json_def decode_entries_strmap gmap_of_def)

lemma decode_list_map: "decode_list (map JString xs) = Inr xs"
  by (induction xs) (auto simp: decode_string_def)

lemma decode_strings_json: "decode_strings (strings_json xs) = Inr xs"
  by (simp add: decode_strings_def strings_json_def decode_list_map)

lemma decode_anymap_object: "obj_ok m \<Longrightarrow> decode_anymap [] (JObject m) = Inr m"
proof -
  assume ok: "obj_ok m"
  have fold: "fold (\<lambda>(k, x) m. gmap_set m k (as_any x)) es acc = fold (\<lambda>(k, v) m. gmap_set m k v) es acc"
    if "list_all (\<lambda>e. json_ok (snd e)) es" for es acc
    using that by (induction es arbitrary: acc) (auto simp: as_any_id)
  have "fold (\<lambda>(k, x) m. gmap_set m k (as_any x)) m [] = gmap_of m"
    unfolding gmap_of_def using ok by (intro fold) simp
  with ok show ?thesis by (simp add: decode_anymap_def gmap_of_id)
qed

lemma decode_struct_object: "decode_struct f ns old (JObject m) = decode_fields f ns m old"
  by (simp add: decode_struct_def)

lemma decode_clusterref:
  "decode_struct clusterref_field [''name'', ''namespace'', ''uid'']
     \<lparr>Ref_Name = '''', Ref_Namespace = '''', Ref_UID = ''''\<rparr> (clusterref_json r) = Inr r"
  by (cases r) (simp add: decode_struct_def clusterref_json_def omit_empty_def match_field_def
      clusterref_field_def decode_string_def)

lemma decode_sourceinfo:
  "decode_struct sourceinfo_field [''pluginVersion'', ''imageName'']
     \<lparr>PluginVersion = '''', ImageName = ''''\<rparr> (sourceinfo_json r) = Inr r"
  by (cases r) (simp add: decode_struct_def sourceinfo_json_def omit_empty_def match_field_def
      sourceinfo_field_def decode_string_def)


lemma field_names: "n \<in> set snapshot_fields \<longleftrightarrow> n \<in> {''apiVersion'', ''kind'', ''capturedAt'', ''generation'',
  ''cluster'', ''source'', ''groups'', ''captureRules'', ''spec'', ''labels'', ''annotations'', ''checksum''}"
  by (auto simp: snapshot_fields_def)

lemmas snapshot_field_steps = snapshot_field_def decode_string_def decode_time_def decode_int64_def
  decode_clusterref decode_sourceinfo decode_strings_json ParseInt64_FormatInt

lemma decode_content:
  assumes "obj_ok (Spec c)" "gmap_ok (Labels c)" "gmap_ok (Annotations c)"
    and "ContentOf s = \<lparr>Spec = [], Labels = [], Annotations = []\<rparr>"
  shows "decode_fields snapshot_field snapshot_fields (content_fields c @ es) s =
    decode_fields snapshot_field snapshot_fields es (s\<lparr>ContentOf := c\<rparr>)"
proof -
  let ?d = "decode_fields snapshot_field snapshot_fields"
  have spec: "?d (omit_empty ''spec'' JObject (Spec c)) s = Inr (s\<lparr>ContentOf := (ContentOf s)\<lparr>Spec := Spec c\<rparr>\<rparr>)"
    using assms(1,4)
    by (simp add: omit_empty_def decode_fields_known field_names snapshot_field_def decode_anymap_object
        content_update_def del: decode_fields.simps(2) json_ok.simps)
  have labels: "?d (omit_empty ''labels'' strmap_json (Labels c)) t
      = Inr (t\<lparr>ContentOf := (ContentOf t)\<lparr>Labels := Labels c\<rparr>\<rparr>)"
    if "Labels (ContentOf t) = []" for t
    using assms(2) that
    by (simp add: omit_empty_def decode_fields_known field_names snapshot_field_def decode_strmap_json
        content_update_def del: decode_fields.simps(2))
  have annotations: "?d (omit_empty ''annotations'' strmap_json (Annotations c)) t
      = Inr (t\<lparr>ContentOf := (ContentOf t)\<lparr>Annotations := Annotations c\<rparr>\<rparr>)"
    if "Annotations (ContentOf t) = []" for t
    using assms(3) that
    by (simp add: omit_empty_def decode_fields_known field_names snapshot_field_def decode_strmap_json
        content_update_def del: decode_fields.simps(2))
  have c: "\<lparr>Spec = Spec c, Labels = Labels c, Annotations = Annotations c\<rparr> = c" by (cases c) simp
  show ?thesis
    using assms(4) by (simp add: content_fields_def decode_fields_append spec labels annotations c)
qed

lemma decode_snapshot_json:
  assumes "snapshot_ok snap"
  shows "\<exists>doc. snapshot_json snap = Inr doc
    \<and> decode_struct snapshot_field snapshot_fields zero_snapshot doc = Inr snap"
proof -
  obtain t where t: "FormatRFC3339Nano (CapturedAt snap) = Inr t" "ParseRFC3339 t = Inr (CapturedAt snap)"
    using ParseRFC3339_FormatRFC3339Nano assms by (auto simp: snapshot_ok_def)
  have g: "is_int64 (Generation snap)"
    and c: "obj_ok (Spec (ContentOf snap))" "gmap_ok (Labels (ContentOf snap))" "gmap_ok (Annotations (ContentOf snap))"
    using assms by (simp_all add: snapshot_ok_def content_ok_def)
  show ?thesis
    using t g
    by (simp add: snapshot_json_def decode_struct_object decode_fields_known field_names snapshot_field_steps
        decode_content [OF c] zero_snapshot_def del: decode_fields.simps(2))
qed

theorem decode_encode_snapshot:
  assumes "snapshot_ok snap" "snapshot_json snap = Inr doc" "printable doc" "nesting doc \<le> max_nesting_depth"
  shows "\<exists>raw. encode_snapshot snap = Inr raw \<and> decode_snapshot raw = Inr snap"
proof -
  obtain raw where raw: "MarshalIndent doc = Inr raw" using MarshalIndent_printable [OF assms(3)] ..
  then have "parse_document raw = Inr doc" by (rule parse_document_MarshalIndent [OF _ assms(3,4)])
  with raw assms(2) decode_snapshot_json [OF assms(1)] show ?thesis
    by (auto simp: encode_snapshot_def decode_snapshot_def)
qed


section \<open>Whatever is read is well formed\<close>

text \<open>No document, however written, decodes to content that is not made of proper maps.\<close>

lemma fold_set_ok:
  "\<forall>e \<in> set es. json_ok (snd e) \<Longrightarrow> obj_ok acc \<Longrightarrow> obj_ok (fold (\<lambda>(k, v) m. gmap_set m k v) es acc)"
  by (induction es arbitrary: acc) (auto simp: obj_ok_set simp del: json_ok.simps)

lemma as_any_ok: "json_ok (as_any j)"
proof (induction j)
  case (JObject m)
  have "\<forall>e \<in> set (map (\<lambda>e. (fst e, as_any (snd e))) m). json_ok (snd e)"
    using JObject by (auto simp: snds.simps)
  moreover have "obj_ok []" by simp
  ultimately show ?case unfolding as_any.simps gmap_of_def by (rule fold_set_ok)
qed (auto simp: list_all_iff)

lemma decode_anymap_ok: "obj_ok old \<Longrightarrow> decode_anymap old v = Inr m \<Longrightarrow> obj_ok m"
proof -
  have "obj_ok (fold (\<lambda>(k, x) m. gmap_set m k (as_any x)) es acc)" if "obj_ok acc" for es acc
    using that by (induction es arbitrary: acc) (auto simp: obj_ok_set as_any_ok simp del: json_ok.simps)
  then show "obj_ok old \<Longrightarrow> decode_anymap old v = Inr m \<Longrightarrow> obj_ok m"
    by (auto simp: decode_anymap_def simp del: json_ok.simps split: json.splits) simp
qed

lemma decode_entries_ok: "decode_entries es m = Inr m' \<Longrightarrow> gmap_ok m \<Longrightarrow> gmap_ok m'"
  by (induction es m rule: decode_entries.induct) (auto simp: gmap_ok_set split: sum.splits)

lemma decode_strmap_ok: "gmap_ok old \<Longrightarrow> decode_strmap old v = Inr m \<Longrightarrow> gmap_ok m"
  by (auto simp: decode_strmap_def dest: decode_entries_ok split: json.splits)

lemma decode_fields_invariant:
  assumes "\<And>s n v s'. I s \<Longrightarrow> f s n v = Inr s' \<Longrightarrow> I s'"
  shows "I s \<Longrightarrow> decode_fields f ns es s = Inr s' \<Longrightarrow> I s'"
  using assms by (induction f ns es s rule: decode_fields.induct) (auto split: option.splits sum.splits)

lemma map_sum_Inr_iff: "map_sum id f x = Inr y \<longleftrightarrow> (\<exists>z. x = Inr z \<and> y = f z)"
  by (cases x) auto

lemma snapshot_field_content_ok:
  "content_ok (ContentOf s) \<Longrightarrow> snapshot_field s n v = Inr s' \<Longrightarrow> content_ok (ContentOf s')"
  unfolding snapshot_field_def
  by (auto simp: map_sum_Inr_iff content_update_def content_ok_def simp del: json_ok.simps
      dest: decode_anymap_ok decode_strmap_ok split: if_splits)

lemma decode_snapshot_content_ok:
  assumes "decode_snapshot raw = Inr snap"
  shows "content_ok (ContentOf snap)"
proof -
  obtain doc where d: "decode_struct snapshot_field snapshot_fields zero_snapshot doc = Inr snap"
    using assms by (auto simp: decode_snapshot_def split: sum.splits)
  have z: "content_ok (ContentOf zero_snapshot)" by (simp add: zero_snapshot_def content_ok_def)
  show ?thesis
  proof (cases doc)
    case (JObject m)
    then have "decode_fields snapshot_field snapshot_fields m zero_snapshot = Inr snap"
      using d by (simp add: decode_struct_object)
    then show ?thesis
      by (rule decode_fields_invariant [of "\<lambda>s. content_ok (ContentOf s)", OF snapshot_field_content_ok z, rotated -1])
  qed (use d z in \<open>auto simp: decode_struct_def\<close>)
qed

end
