(* ===== verification/Snapshot_Store.thy ===== *)
theory Snapshot_Store
  imports Layout Snapshot_Codec "HOL-Library.Product_Lexorder"
begin

text \<open>
  \<open>internal/store/backend.go\<close> and \<open>snapshots.go\<close>: the object-storage interface and the snapshot
  history of one server on top of it. A backend is a record of operations over a world \<open>'w\<close>;
  its contract, the comments of the interface, is the locale \<open>object_store\<close>, with its reading
  half \<open>history_reader\<close> and the weaker \<open>pruned_store\<close>, whose deletions may fail. It relates the
  world to a map from keys to bytes. \<open>internal/store/storetest\<close>'s in-memory backend is the
  instance.
\<close>

section \<open>Backends\<close>

record 'w Backend =
  B_Check :: "string \<Rightarrow> 'w \<Rightarrow> error option \<times> 'w"
  B_Get :: "string \<Rightarrow> 'w \<Rightarrow> (error + bytes) \<times> 'w"
  B_Put :: "string \<Rightarrow> bytes \<Rightarrow> 'w \<Rightarrow> error option \<times> 'w"
  B_List :: "string \<Rightarrow> 'w \<Rightarrow> (error + string list) \<times> 'w"
  B_Delete :: "string \<Rightarrow> 'w \<Rightarrow> error option \<times> 'w"

text \<open>The in-memory backend: \<open>storetest.Backend\<close> with its call counters.\<close>

record memory =
  Objects :: "(string, bytes) gmap"
  Gets :: int
  Puts :: int
  CheckErr :: "error option"

definition NewBackend :: memory where
  "NewBackend = \<lparr>Objects = [], Gets = 0, Puts = 0, CheckErr = None\<rparr>"

definition Backend_Get :: "string \<Rightarrow> memory \<Rightarrow> (error + bytes) \<times> memory" where
  "Backend_Get key b =
     (let b = b\<lparr>Gets := Gets b + 1\<rparr>
      in (case gmap_get (Objects b) key of
            None \<Rightarrow> (Inl (Wrapped '''' [key] (Sentinel ErrNotFound)), b)
          | Some data \<Rightarrow> (Inr data, b)))"

definition Backend_Put :: "string \<Rightarrow> bytes \<Rightarrow> memory \<Rightarrow> error option \<times> memory" where
  "Backend_Put key data b =
     (let b = b\<lparr>Puts := Puts b + 1\<rparr> in (None, b\<lparr>Objects := gmap_set (Objects b) key data\<rparr>))"

definition Backend_List :: "string \<Rightarrow> memory \<Rightarrow> (error + string list) \<times> memory" where
  "Backend_List p b = (Inr (sort (filter (\<lambda>key. HasPrefix key p) (map fst (Objects b)))), b)"

definition Backend_Check :: "string \<Rightarrow> memory \<Rightarrow> error option \<times> memory" where
  "Backend_Check p b = (CheckErr b, b)"

definition Backend_Delete :: "string \<Rightarrow> memory \<Rightarrow> error option \<times> memory" where
  "Backend_Delete key b = (None, b\<lparr>Objects := gmap_delete (Objects b) key\<rparr>)"

definition memory_backend :: "memory Backend" where
  "memory_backend = \<lparr>B_Check = Backend_Check, B_Get = Backend_Get, B_Put = Backend_Put,
     B_List = Backend_List, B_Delete = Backend_Delete\<rparr>"

section \<open>The snapshot store\<close>

record SnapshotRef =
  Key :: string
  Ref_CapturedAt :: time
  Ref_Generation :: int

record 'w SnapshotStore =
  Store_Backend :: "'w Backend"
  Store_Layout :: Layout

definition snapshot_key :: "Layout \<Rightarrow> Snapshot \<Rightarrow> string" where
  "snapshot_key l snap = SnapshotKey l (CapturedAt snap) (Generation snap) (Checksum_of snap)"

definition Write :: "'w SnapshotStore \<Rightarrow> Snapshot \<Rightarrow> 'w \<Rightarrow> (error + string) \<times> 'w" where
  "Write s snap w =
     (case encode_snapshot snap of
        Inl err \<Rightarrow> (Inl (Wrapped ''while encoding snapshot'' [] err), w)
      | Inr encoded \<Rightarrow>
          (let key = snapshot_key (Store_Layout s) snap in
           case B_Put (Store_Backend s) key encoded w of
             (Some err, w) \<Rightarrow> (Inl err, w)
           | (None, w) \<Rightarrow>
               (case B_Put (Store_Backend s) (LatestKey (Store_Layout s)) encoded w of
                  (Some err, w) \<Rightarrow> (Inl (Wrapped ''while updating the latest pointer'' [] err), w)
                | (None, w) \<Rightarrow> (Inr key, w))))"

text \<open>\<open>sort.Slice\<close> with a total order: time, then generation, then key.\<close>

definition ref_order :: "SnapshotRef \<Rightarrow> time \<times> int \<times> string" where
  "ref_order r = (Ref_CapturedAt r, Ref_Generation r, Key r)"

definition sortRefs :: "SnapshotRef list \<Rightarrow> SnapshotRef list" where
  "sortRefs refs = sort_key ref_order refs"

definition decodeSnapshot :: "(bytes \<Rightarrow> string) \<Rightarrow> bytes \<Rightarrow> string \<Rightarrow> error + Snapshot" where
  "decodeSnapshot sha raw key =
     (case decode_snapshot raw of
        Inl err \<Rightarrow> Inl (Wrapped ''while decoding snapshot'' [key] err)
      | Inr snap \<Rightarrow>
          if Kind snap \<noteq> Kind_const then Inl (Errorf ''object is not a snapshot'' [key, Kind snap])
          else if APIVersion snap \<noteq> APIVersion_const
          then Inl (Errorf ''snapshot has unsupported apiVersion'' [key, APIVersion snap])
          else if Checksum_of snap = ''''
          then Inl (Errorf ''snapshot carries no checksum and cannot be verified'' [key])
          else (case Checksum sha (ContentOf snap) of
                  Inl err \<Rightarrow> Inl (Wrapped ''while verifying snapshot'' [key] err)
                | Inr computed \<Rightarrow>
                    if computed \<noteq> Checksum_of snap
                    then Inl (Errorf ''snapshot failed checksum verification'' [key, Checksum_of snap, computed])
                    else Inr snap))"

definition Read :: "(bytes \<Rightarrow> string) \<Rightarrow> 'w SnapshotStore \<Rightarrow> string \<Rightarrow> 'w \<Rightarrow> (error + Snapshot) \<times> 'w" where
  "Read sha s key w =
     (case B_Get (Store_Backend s) key w of
        (Inl err, w) \<Rightarrow> (Inl err, w)
      | (Inr raw, w) \<Rightarrow> (decodeSnapshot sha raw key, w))"

fun parse_refs :: "string list \<Rightarrow> SnapshotRef list" where
  "parse_refs [] = []"
| "parse_refs (key # keys) =
     (case ParseSnapshotKey key of
        Inl err \<Rightarrow> parse_refs keys
      | Inr (capturedAt, generation) \<Rightarrow>
          \<lparr>Key = key, Ref_CapturedAt = capturedAt, Ref_Generation = generation\<rparr> # parse_refs keys)"

definition List_refs :: "'w SnapshotStore \<Rightarrow> 'w \<Rightarrow> (error + SnapshotRef list) \<times> 'w" where
  "List_refs s w =
     (case B_List (Store_Backend s) (SnapshotsPrefix (Store_Layout s)) w of
        (Inl err, w) \<Rightarrow> (Inl err, w)
      | (Inr keys, w) \<Rightarrow> (Inr (sortRefs (parse_refs keys)), w))"

definition Latest :: "(bytes \<Rightarrow> string) \<Rightarrow> 'w SnapshotStore \<Rightarrow> 'w \<Rightarrow> (error + Snapshot \<times> string) \<times> 'w" where
  "Latest sha s w =
     (case B_Get (Store_Backend s) (LatestKey (Store_Layout s)) w of
        (Inr raw, w) \<Rightarrow>
          (case decodeSnapshot sha raw (LatestKey (Store_Layout s)) of
             Inl err \<Rightarrow> (Inl err, w)
           | Inr snap \<Rightarrow> (Inr (snap, snapshot_key (Store_Layout s) snap), w))
      | (Inl err, w) \<Rightarrow>
          if \<not> errors_Is err ErrNotFound then (Inl err, w)
          else (case List_refs s w of
                  (Inl err, w) \<Rightarrow> (Inl err, w)
                | (Inr refs, w) \<Rightarrow>
                    if refs = []
                    then (Inl (Wrapped ''no snapshots under'' [SnapshotsPrefix (Store_Layout s)] (Sentinel ErrNotFound)), w)
                    else let key = Key (last refs) in
                      (case Read sha s key w of
                         (Inl err, w) \<Rightarrow> (Inl err, w)
                       | (Inr snap, w) \<Rightarrow> (Inr (snap, key), w))))"

section \<open>The contract of a backend\<close>

text \<open>
  What the interface promises, for a world in which requests succeed: \<open>objs\<close> are the objects by
  key, reads change nothing, a missing object is \<open>ErrNotFound\<close>, listing is in lexical order. A
  backend may bound the size of an object: \<open>fits\<close> says what it can hold.
\<close>

locale history_reader =
  fixes B :: "'w Backend" and objs :: "'w \<Rightarrow> string \<Rightarrow> bytes option" and good :: "'w \<Rightarrow> bool"
  assumes get_found: "good w \<Longrightarrow> objs w k = Some d \<Longrightarrow> \<exists>w'. B_Get B k w = (Inr d, w') \<and> objs w' = objs w \<and> good w'"
    and get_missing: "good w \<Longrightarrow> objs w k = None \<Longrightarrow>
      \<exists>e w'. B_Get B k w = (Inl e, w') \<and> errors_Is e ErrNotFound \<and> objs w' = objs w \<and> good w'"
    and list_keys: "good w \<Longrightarrow> \<exists>ks w'. B_List B p w = (Inr ks, w') \<and> objs w' = objs w \<and> good w'
      \<and> sorted ks \<and> distinct ks \<and> set ks = {k. objs w k \<noteq> None \<and> HasPrefix k p}"

text \<open>A backend that may refuse to delete, as one without \<open>s3:DeleteObject\<close> does.\<close>

locale pruned_store = history_reader +
  assumes delete_attempts: "good w \<Longrightarrow> \<exists>res w'. B_Delete B k w = (res, w') \<and> good w'
    \<and> (objs w' = (objs w)(k := None) \<or> res \<noteq> None \<and> objs w' = objs w)"

locale object_store = history_reader +
  fixes fits :: "bytes \<Rightarrow> bool"
  assumes put_writes: "good w \<Longrightarrow> fits d \<Longrightarrow> \<exists>w'. B_Put B k d w = (None, w') \<and> objs w' = (objs w)(k := Some d) \<and> good w'"
    and delete_removes: "good w \<Longrightarrow> \<exists>w'. B_Delete B k w = (None, w') \<and> objs w' = (objs w)(k := None) \<and> good w'"

sublocale object_store \<subseteq> pruned_store B objs good
  by unfold_locales (use delete_removes in blast)

definition memory_ok :: "memory \<Rightarrow> bool" where
  "memory_ok b \<longleftrightarrow> gmap_ok (Objects b)"

interpretation mem: object_store memory_backend "\<lambda>b. gmap_get (Objects b)" memory_ok "\<lambda>d. True"
proof unfold_locales
  fix w :: memory and p
  assume ok: "memory_ok w"
  have "distinct (map fst (Objects w))" using ok by (simp add: memory_ok_def gmap_ok_def strict_sorted_iff)
  moreover have "set (map fst (Objects w)) = {k. gmap_get (Objects w) k \<noteq> None}"
    by (force simp: gmap_get_def map_of_eq_None_iff)
  ultimately show "\<exists>ks w'. B_List memory_backend p w = (Inr ks, w') \<and> gmap_get (Objects w') = gmap_get (Objects w)
      \<and> memory_ok w' \<and> sorted ks \<and> distinct ks \<and> set ks = {k. gmap_get (Objects w) k \<noteq> None \<and> HasPrefix k p}"
    using ok by (auto simp: memory_backend_def Backend_List_def)
qed (auto simp: memory_backend_def Backend_Get_def Backend_Put_def Backend_Delete_def memory_ok_def Let_def
    fun_eq_iff go_map gmap_ok_set gmap_ok_delete)


section \<open>Listing\<close>

lemma sortRefs_set [simp]: "set (sortRefs refs) = set refs"
  by (simp add: sortRefs_def)

lemma sortRefs_sorted: "sorted (map ref_order (sortRefs refs))"
  by (simp add: sortRefs_def)

lemma sortRefs_mset [simp]: "mset (sortRefs refs) = mset refs"
  by (simp add: sortRefs_def)

lemma parse_refs_iff:
  "r \<in> set (parse_refs keys) \<longleftrightarrow>
     Key r \<in> set keys \<and> ParseSnapshotKey (Key r) = Inr (Ref_CapturedAt r, Ref_Generation r)"
proof (induction keys)
  case (Cons key keys)
  have "r = \<lparr>Key = key, Ref_CapturedAt = t, Ref_Generation = g\<rparr> \<longleftrightarrow> Key r = key \<and> Ref_CapturedAt r = t \<and> Ref_Generation r = g"
    for t g by (cases r) auto
  with Cons show ?case by (cases "ParseSnapshotKey key") (auto split: prod.splits)
qed simp

lemma parse_refs_keys: "map Key (parse_refs keys) = filter (\<lambda>k. \<exists>x. ParseSnapshotKey k = Inr x) keys"
  by (induction keys) (auto split: sum.splits)

lemma ref_order_inj: "inj ref_order"
  by (rule injI) (metis (mono_tags) SnapshotRef.equality old.unit.exhaust prod.inject ref_order_def)

text \<open>The order of a listing does not depend on the order the backend gave the keys in.\<close>

lemma sortRefs_unique:
  assumes "mset refs = mset refs'" shows "sortRefs refs = sortRefs refs'"
proof -
  have "map ref_order (sortRefs xs) = sort (map ref_order xs)" for xs
    by (rule properties_for_sort [symmetric]) (simp_all add: sortRefs_sorted)
  moreover have "sort (map ref_order refs) = sort (map ref_order refs')"
    using assms by (intro properties_for_sort) simp_all
  ultimately show ?thesis using map_injective [OF _ ref_order_inj] by metis
qed

section \<open>The history through a backend that keeps its contract\<close>

definition refs_of :: "(string \<Rightarrow> bytes option) \<Rightarrow> Layout \<Rightarrow> SnapshotRef set" where
  "refs_of objs l = {r. objs (Key r) \<noteq> None \<and> HasPrefix (Key r) (SnapshotsPrefix l)
     \<and> ParseSnapshotKey (Key r) = Inr (Ref_CapturedAt r, Ref_Generation r)}"

lemma joinKey_under_root: "\<exists>r. \<forall>name. name \<noteq> '''' \<and> CHR ''/'' \<notin> set name \<longrightarrow> joinKey [Root l, name] = r @ name"
proof -
  have t: "Trim name CHR ''/'' = name" if "CHR ''/'' \<notin> set name" for name
  proof -
    have "dropWhile (\<lambda>x. x = CHR ''/'') xs = xs" if "CHR ''/'' \<notin> set xs" for xs
      using that by (cases xs) auto
    then show ?thesis using that by (simp add: Trim_def)
  qed
  show ?thesis
    by (cases "Trim (Root l) CHR ''/'' = ''''")
      (auto simp: joinKey_def t intro: exI [of _ "''''"] exI [of _ "Trim (Root l) CHR ''/'' @ ''/''"])
qed

lemma LatestKey_not_snapshot: "\<not> HasPrefix (LatestKey l) (SnapshotsPrefix l)"
proof -
  obtain r where "\<forall>name. name \<noteq> '''' \<and> CHR ''/'' \<notin> set name \<longrightarrow> joinKey [Root l, name] = r @ name"
    using joinKey_under_root by blast
  then have "LatestKey l = r @ ''latest.json''" "SnapshotsPrefix l = r @ ''snapshots/''"
    by (simp_all add: LatestKey_def SnapshotsPrefix_def)
  then show ?thesis by (simp add: HasPrefix_def)
qed

lemma snapshot_key_prefix: "HasPrefix (snapshot_key l snap) (SnapshotsPrefix l)"
  by (simp add: snapshot_key_def SnapshotKey_def)

lemma snapshot_key_not_latest: "snapshot_key l snap \<noteq> LatestKey l"
  using snapshot_key_prefix [of l snap] LatestKey_not_snapshot [of l] by auto

text \<open>A snapshot whose key has the shape of the keys of a history.\<close>

definition keyable :: "Snapshot \<Rightarrow> bool" where
  "keyable snap \<longleftrightarrow> four_digit_year (CapturedAt snap) \<and> generation_fits (Generation snap) \<and> hex8 (shortHash (Checksum_of snap))"

lemma keyable_parsed:
  "keyable snap \<Longrightarrow> ParseSnapshotKey (snapshot_key l snap) =
     Inr (CapturedAt snap div nanos_per_second * nanos_per_second, Generation snap)"
  by (simp add: keyable_def snapshot_key_def ParseSnapshotKey_SnapshotKey)

text \<open>What the plugin writes: current format, its own checksum, within what JSON can carry.\<close>

definition writable :: "(bytes \<Rightarrow> string) \<Rightarrow> Snapshot \<Rightarrow> bool" where
  "writable sha snap \<longleftrightarrow> snapshot_ok snap \<and> Kind snap = Kind_const \<and> APIVersion snap = APIVersion_const
     \<and> Checksum sha (ContentOf snap) = Inr (Checksum_of snap)
     \<and> (case snapshot_json snap of
          Inl _ \<Rightarrow> False
        | Inr doc \<Rightarrow> printable doc \<and> nesting doc \<le> max_nesting_depth)"

lemma decodeSnapshot_encoded:
  assumes "writable sha snap"
  shows "\<exists>raw. encode_snapshot snap = Inr raw \<and> (\<forall>key. decodeSnapshot sha raw key = Inr snap)"
proof -
  obtain doc where doc: "snapshot_json snap = Inr doc" "printable doc" "nesting doc \<le> max_nesting_depth"
    using assms by (auto simp: writable_def split: sum.splits)
  then obtain raw where raw: "encode_snapshot snap = Inr raw" "decode_snapshot raw = Inr snap"
    using decode_encode_snapshot assms by (fastforce simp: writable_def)
  have "Checksum_of snap \<noteq> ''''"
    using assms by (auto simp: writable_def Checksum_def digest_def split: sum.splits)
  with raw assms show ?thesis by (auto simp: decodeSnapshot_def writable_def)
qed

text \<open>No document is accepted whose content does not have the checksum it carries.\<close>

lemma decodeSnapshot_verified:
  "decodeSnapshot sha raw key = Inr snap \<Longrightarrow>
     decode_snapshot raw = Inr snap \<and> Kind snap = Kind_const \<and> APIVersion snap = APIVersion_const
       \<and> Checksum_of snap \<noteq> '''' \<and> Checksum sha (ContentOf snap) = Inr (Checksum_of snap)"
  by (auto simp: decodeSnapshot_def split: sum.splits if_splits)

text \<open>
  What \<open>Latest\<close> promises of the objects in the store: the snapshot the pointer holds, or without a
  pointer the newest of the history.
\<close>

definition latest_in :: "(bytes \<Rightarrow> string) \<Rightarrow> Layout \<Rightarrow> (string \<Rightarrow> bytes option) \<Rightarrow> Snapshot \<times> string \<Rightarrow> bool" where
  "latest_in sha l objs x \<longleftrightarrow>
     (case objs (LatestKey l) of
        Some raw \<Rightarrow> (\<exists>snap. decodeSnapshot sha raw (LatestKey l) = Inr snap \<and> x = (snap, snapshot_key l snap))
      | None \<Rightarrow>
          (\<exists>r raw snap. r \<in> refs_of objs l \<and> (\<forall>r' \<in> refs_of objs l. ref_order r' \<le> ref_order r)
            \<and> objs (Key r) = Some raw \<and> decodeSnapshot sha raw (Key r) = Inr snap \<and> x = (snap, Key r)))"

lemma sorted_last_max:
  "sorted (map ref_order refs) \<Longrightarrow> refs \<noteq> [] \<Longrightarrow> r \<in> set refs \<Longrightarrow> ref_order r \<le> ref_order (last refs)"
  by (induction refs rule: rev_induct) (auto simp: sorted_append)

lemma latest_in_last:
  assumes "objs (LatestKey l) = None" "set refs = refs_of objs l" "sorted (map ref_order refs)" "refs \<noteq> []"
    and "objs (Key (last refs)) = Some raw"
  shows "latest_in sha l objs x \<longleftrightarrow> (\<exists>snap. decodeSnapshot sha raw (Key (last refs)) = Inr snap \<and> x = (snap, Key (last refs)))"
    (is "_ \<longleftrightarrow> ?rhs")
proof
  have r: "last refs \<in> refs_of objs l" "\<forall>r' \<in> refs_of objs l. ref_order r' \<le> ref_order (last refs)"
    using assms(2-4) sorted_last_max by (metis last_in_set, metis)
  show ?rhs if "latest_in sha l objs x"
  proof -
    obtain r' raw' snap where n: "r' \<in> refs_of objs l" "\<forall>r \<in> refs_of objs l. ref_order r \<le> ref_order r'"
      "objs (Key r') = Some raw'" "decodeSnapshot sha raw' (Key r') = Inr snap" "x = (snap, Key r')"
      using \<open>latest_in sha l objs x\<close> assms(1) by (simp add: latest_in_def) blast
    have "ref_order r' = ref_order (last refs)" using r n(1,2) by (intro antisym) auto
    then have "r' = last refs" using ref_order_inj by (simp add: inj_eq)
    with n assms(5) show ?thesis by simp
  qed
  show "latest_in sha l objs x" if ?rhs
    using that assms(1,5) r by (simp add: latest_in_def) blast
qed

context history_reader
begin

lemma List_refs_exact:
  assumes "good w" "Store_Backend s = B"
  shows "\<exists>refs w'. List_refs s w = (Inr refs, w') \<and> objs w' = objs w \<and> good w'
    \<and> set refs = refs_of (objs w) (Store_Layout s) \<and> sorted (map ref_order refs) \<and> distinct (map Key refs)"
proof -
  obtain ks w' where ks: "B_List B (SnapshotsPrefix (Store_Layout s)) w = (Inr ks, w')" "objs w' = objs w" "good w'"
    "distinct ks" "set ks = {k. objs w k \<noteq> None \<and> HasPrefix k (SnapshotsPrefix (Store_Layout s))}"
    using list_keys [OF assms(1), of "SnapshotsPrefix (Store_Layout s)"] by blast
  have "distinct (map Key (parse_refs ks))" using ks(4) by (simp add: parse_refs_keys)
  then have "distinct (map Key (sortRefs (parse_refs ks)))"
    by (metis mset_eq_imp_distinct_iff mset_map sortRefs_mset)
  moreover have "set (parse_refs ks) = refs_of (objs w) (Store_Layout s)"
    using ks(5) by (auto simp: refs_of_def parse_refs_iff)
  ultimately show ?thesis
    using ks(1-3) assms(2) by (simp add: List_refs_def sortRefs_sorted)
qed

lemma Read_decodes:
  assumes "good w" "Store_Backend s = B" "objs w key = Some raw"
  shows "\<exists>w'. Read sha s key w = (decodeSnapshot sha raw key, w') \<and> objs w' = objs w \<and> good w'"
  using get_found [OF assms(1,3)] assms(2) by (auto simp: Read_def)

lemma Latest_pointer:
  assumes "good w" "Store_Backend s = B" "objs w (LatestKey (Store_Layout s)) = Some raw"
    and "decodeSnapshot sha raw (LatestKey (Store_Layout s)) = Inr snap"
  shows "\<exists>w'. Latest sha s w = (Inr (snap, snapshot_key (Store_Layout s) snap), w') \<and> objs w' = objs w \<and> good w'"
  using get_found [OF assms(1,3)] assms(2,4) by (auto simp: Latest_def)

text \<open>\<open>Latest\<close> implements its promise and only reads.\<close>

lemma Latest_refines:
  assumes "good w" "Store_Backend s = B"
  shows "\<exists>res w'. Latest sha s w = (res, w') \<and> objs w' = objs w \<and> good w'
    \<and> (\<forall>x. res = Inr x \<longleftrightarrow> latest_in sha (Store_Layout s) (objs w) x)"
proof (cases "objs w (LatestKey (Store_Layout s))")
  case (Some raw)
  obtain w1 where "B_Get B (LatestKey (Store_Layout s)) w = (Inr raw, w1)" "objs w1 = objs w" "good w1"
    using get_found [OF assms(1) Some] by blast
  then show ?thesis
    using assms(2) Some by (cases "decodeSnapshot sha raw (LatestKey (Store_Layout s))") (auto simp: Latest_def latest_in_def)
next
  case None
  obtain e w1 where g: "B_Get B (LatestKey (Store_Layout s)) w = (Inl e, w1)" "errors_Is e ErrNotFound" "objs w1 = objs w" "good w1"
    using get_missing [OF assms(1) None] by blast
  obtain refs w2 where l: "List_refs s w1 = (Inr refs, w2)" "objs w2 = objs w" "good w2"
    "set refs = refs_of (objs w) (Store_Layout s)" "sorted (map ref_order refs)"
    using List_refs_exact [OF g(4) assms(2)] g(3) by auto
  show ?thesis
  proof (cases "refs = []")
    case True
    then have "\<not> latest_in sha (Store_Layout s) (objs w) x" for x using l(4) None by (simp add: latest_in_def)
    with True show ?thesis using g l assms(2) by (auto simp: Latest_def)
  next
    case False
    then have "last refs \<in> refs_of (objs w) (Store_Layout s)" using l(4) last_in_set by blast
    then obtain raw where raw: "objs w (Key (last refs)) = Some raw" by (auto simp: refs_of_def)
    obtain w3 where w3: "Read sha s (Key (last refs)) w2 = (decodeSnapshot sha raw (Key (last refs)), w3)"
      "objs w3 = objs w" "good w3"
      using Read_decodes [OF l(3) assms(2)] l(2) raw by fastforce
    show ?thesis
      unfolding latest_in_last [where sha = sha, OF None l(4,5) False raw]
      using g l w3 False assms(2) by (cases "decodeSnapshot sha raw (Key (last refs))") (auto simp: Latest_def Let_def)
  qed
qed

end

context object_store
begin

lemma Write_stores:
  assumes "good w" "Store_Backend s = B" "encode_snapshot snap = Inr raw" "fits raw"
  shows "\<exists>w'. Write s snap w = (Inr (snapshot_key (Store_Layout s) snap), w') \<and> good w'
    \<and> objs w' = (objs w)(snapshot_key (Store_Layout s) snap := Some raw, LatestKey (Store_Layout s) := Some raw)"
proof -
  let ?k = "snapshot_key (Store_Layout s) snap" and ?l = "LatestKey (Store_Layout s)"
  obtain w1 where 1: "B_Put B ?k raw w = (None, w1)" "objs w1 = (objs w)(?k := Some raw)" "good w1"
    using put_writes [OF assms(1,4)] by blast
  obtain w2 where 2: "B_Put B ?l raw w1 = (None, w2)" "objs w2 = (objs w1)(?l := Some raw)" "good w2"
    using put_writes [OF 1(3) assms(4)] by blast
  show ?thesis using 1 2 assms(2,3) by (simp add: Write_def Let_def)
qed

text \<open>Writing a snapshot and reading the history gives it back, as the latest and by its key.\<close>

lemma Write_then_read:
  assumes "good w" "Store_Backend s = B" "writable sha snap" "\<forall>raw. encode_snapshot snap = Inr raw \<longrightarrow> fits raw"
  shows "\<exists>w'. Write s snap w = (Inr (snapshot_key (Store_Layout s) snap), w') \<and> good w'
    \<and> fst (Latest sha s w') = Inr (snap, snapshot_key (Store_Layout s) snap)
    \<and> fst (Read sha s (snapshot_key (Store_Layout s) snap) w') = Inr snap"
proof -
  obtain raw where raw: "encode_snapshot snap = Inr raw" "\<And>key. decodeSnapshot sha raw key = Inr snap"
    using decodeSnapshot_encoded [OF assms(3)] by blast
  obtain w' where w': "Write s snap w = (Inr (snapshot_key (Store_Layout s) snap), w')" "good w'"
    "objs w' = (objs w)(snapshot_key (Store_Layout s) snap := Some raw, LatestKey (Store_Layout s) := Some raw)"
    using Write_stores [OF assms(1,2) raw(1)] assms(4) raw(1) by blast
  have "objs w' (snapshot_key (Store_Layout s) snap) = Some raw"
    using w'(3) snapshot_key_not_latest [of "Store_Layout s" snap] by simp
  then have "fst (Read sha s (snapshot_key (Store_Layout s) snap) w') = Inr snap"
    using Read_decodes [OF w'(2) assms(2)] raw(2) by (metis fst_conv)
  moreover have "fst (Latest sha s w') = Inr (snap, snapshot_key (Store_Layout s) snap)"
    using Latest_pointer [OF w'(2) assms(2), of raw sha snap] w'(3) raw(2) by auto
  ultimately show ?thesis using w'(1,2) by blast
qed

end

end
