(* ===== verification/Retention_Plan.thy ===== *)
theory Retention_Plan
  imports Snapshot_Store
begin

text \<open>
  \<open>internal/store/retention.go\<close>: which snapshots may be deleted. The guarantee is about
  selection: \<open>newest_at_or_before\<close> is the choice \<open>restore.SelectAtOrBefore\<close> makes from a sorted
  listing, and no target inside the window sees a different answer after a deletion.
\<close>

section \<open>The plan\<close>

text \<open>The loop over the ordered snapshots: the index of the last one before the cutoff.\<close>

fun find_anchor :: "SnapshotRef list \<Rightarrow> time \<Rightarrow> int \<Rightarrow> int \<Rightarrow> int" where
  "find_anchor [] cutoff i anchor = anchor"
| "find_anchor (ref # refs) cutoff i anchor =
     (if Ref_CapturedAt ref < cutoff then find_anchor refs cutoff (i + 1) i else anchor)"

definition PlanRetention :: "SnapshotRef list \<Rightarrow> time \<Rightarrow> string list" where
  "PlanRetention refs cutoff =
     (if length refs < 2 then []
      else let ordered = sort_key Key refs;
               anchor = find_anchor ordered cutoff 0 (- 1)
           in if anchor < 1 then [] else map Key (take (nat anchor) ordered))"

section \<open>Selection\<close>

text \<open>The loop of \<open>SelectAtOrBefore\<close>: the last reference before the first one after the moment.\<close>

fun newest_at_or_before :: "SnapshotRef list \<Rightarrow> time \<Rightarrow> SnapshotRef option \<Rightarrow> SnapshotRef option" where
  "newest_at_or_before [] moment chosen = chosen"
| "newest_at_or_before (ref # refs) moment chosen =
     (if Ref_CapturedAt ref > moment then chosen else newest_at_or_before refs moment (Some ref))"

lemma newest_at_or_before_takeWhile:
  "newest_at_or_before refs moment c =
     (let before = takeWhile (\<lambda>r. Ref_CapturedAt r \<le> moment) refs in if before = [] then c else Some (last before))"
  by (induction refs arbitrary: c) (auto simp: Let_def)

lemma find_anchor_takeWhile:
  "find_anchor refs cutoff i a =
     (let n = length (takeWhile (\<lambda>r. Ref_CapturedAt r < cutoff) refs) in if n = 0 then a else i + int n - 1)"
  by (induction refs arbitrary: i a) (auto simp: Let_def)

text \<open>On a chronological list, selection is the last of those not after the moment.\<close>

lemma chronological_filter:
  "sorted (map Ref_CapturedAt refs) \<Longrightarrow> takeWhile (\<lambda>r. Ref_CapturedAt r \<le> m) refs = filter (\<lambda>r. Ref_CapturedAt r \<le> m) refs"
proof (induction refs)
  case (Cons r refs)
  have "filter (\<lambda>r. Ref_CapturedAt r \<le> m) refs = []" if "\<not> Ref_CapturedAt r \<le> m"
    using that Cons.prems by (auto simp: filter_empty_conv)
  with Cons show ?case by (cases "Ref_CapturedAt r \<le> m") auto
qed simp

lemma newest_at_or_before_filter:
  assumes "sorted (map Ref_CapturedAt refs)"
  shows "newest_at_or_before refs m None =
    (let before = filter (\<lambda>r. Ref_CapturedAt r \<le> m) refs in if before = [] then None else Some (last before))"
  by (simp add: newest_at_or_before_takeWhile chronological_filter [OF assms])

lemma sorted_ref_order_time: "sorted (map ref_order refs) \<Longrightarrow> sorted (map Ref_CapturedAt refs)"
proof (induction refs)
  case (Cons r refs)
  then show ?case by (auto simp: ref_order_def less_eq_prod_def)
qed simp

section \<open>What the plan keeps\<close>

text \<open>
  References whose key sits directly under one prefix and parses to what they say: what a
  listing of a history the plugin wrote consists of.
\<close>

definition direct_ref :: "string \<Rightarrow> SnapshotRef \<Rightarrow> bool" where
  "direct_ref p r \<longleftrightarrow> prefix (p @ ''/'') (Key r)
     \<and> CHR ''/'' \<notin> set (drop (length p + 1) (Key r)) \<and> drop (length p + 1) (Key r) \<noteq> ''''
     \<and> ParseSnapshotKey (Key r) = Inr (Ref_CapturedAt r, Ref_Generation r)"

lemma direct_ref_key: "direct_ref p r \<Longrightarrow> \<exists>n. Key r = p @ ''/'' @ n \<and> CHR ''/'' \<notin> set n \<and> n \<noteq> ''''
    \<and> ParseSnapshotKey (p @ ''/'' @ n) = Inr (Ref_CapturedAt r, Ref_Generation r)"
  by (auto simp: direct_ref_def prefix_def)

lemma direct_refs_order:
  assumes "direct_ref p r" "direct_ref p r'"
  shows "ref_order r < ref_order r' \<longleftrightarrow> Key r < Key r'"
proof -
  obtain n where n: "Key r = p @ ''/'' @ n" "CHR ''/'' \<notin> set n" "n \<noteq> ''''"
    "ParseSnapshotKey (p @ ''/'' @ n) = Inr (Ref_CapturedAt r, Ref_Generation r)"
    using direct_ref_key [OF assms(1)] by blast
  obtain n' where n': "Key r' = p @ ''/'' @ n'" "CHR ''/'' \<notin> set n'" "n' \<noteq> ''''"
    "ParseSnapshotKey (p @ ''/'' @ n') = Inr (Ref_CapturedAt r', Ref_Generation r')"
    using direct_ref_key [OF assms(2)] by blast
  have less: "Key r < Key r'" if "Ref_CapturedAt r < Ref_CapturedAt r'
      \<or> Ref_CapturedAt r = Ref_CapturedAt r' \<and> Ref_Generation r < Ref_Generation r'"
    using parsed_key_less [OF n(4,2,3) n'(4,2,3) that] n(1) n'(1) by simp
  have greater: "Key r' < Key r" if "Ref_CapturedAt r' < Ref_CapturedAt r
      \<or> Ref_CapturedAt r' = Ref_CapturedAt r \<and> Ref_Generation r' < Ref_Generation r"
    using parsed_key_less [OF n'(4,2,3) n(4,2,3) that] n(1) n'(1) by simp
  show ?thesis
  proof
    assume "ref_order r < ref_order r'"
    then show "Key r < Key r'" using less by (auto simp: ref_order_def less_prod_def')
  next
    assume "Key r < Key r'"
    then have "\<not> Key r' < Key r" by simp
    then show "ref_order r < ref_order r'"
      using greater \<open>Key r < Key r'\<close> by (force simp: ref_order_def less_prod_def')
  qed
qed

text \<open>So the two orders the code sorts by, by key and by time, agree.\<close>

lemma sort_by_key_is_listing:
  assumes "\<forall>r \<in> set refs. direct_ref p r" "distinct (map Key refs)" "sorted (map ref_order refs)"
  shows "sort_key Key refs = refs"
proof -
  have "ref_order r \<le> ref_order r' \<Longrightarrow> Key r \<le> Key r'" if "r \<in> set refs" "r' \<in> set refs" for r r'
    using direct_refs_order [of p r' r] assms(1) that by (metis linorder_not_le)
  then have "sorted (map Key refs)"
    using assms(3) by (simp add: sorted_map) (metis (mono_tags, lifting) sorted_wrt_mono_rel)
  then show ?thesis by (rule sort_key_id_if_sorted)
qed


section \<open>The guarantee\<close>

text \<open>A listing of a history the plugin wrote.\<close>

definition history :: "string \<Rightarrow> SnapshotRef list \<Rightarrow> bool" where
  "history p refs \<longleftrightarrow> list_all (direct_ref p) refs \<and> distinct (map Key refs) \<and> sorted (map ref_order refs)"

lemma history_sorted: "history p refs \<Longrightarrow> sorted (map Ref_CapturedAt refs)"
  by (simp add: history_def sorted_ref_order_time)

lemma PlanRetention_history:
  assumes "history p refs"
  shows "PlanRetention refs cutoff =
    map Key (take (length (takeWhile (\<lambda>r. Ref_CapturedAt r < cutoff) refs) - 1) refs)"
proof -
  let ?n = "length (takeWhile (\<lambda>r. Ref_CapturedAt r < cutoff) refs)"
  have s: "sort_key Key refs = refs"
    using assms by (intro sort_by_key_is_listing [of _ p]) (auto simp: history_def list_all_iff)
  have "?n \<le> length refs" by (rule length_takeWhile_le)
  then show ?thesis by (auto simp: PlanRetention_def s find_anchor_takeWhile Let_def nat_diff_distrib)
qed

text \<open>The anchor splits the history: what is deleted lies before it.\<close>

lemma PlanRetention_anchor:
  assumes "history p refs" "PlanRetention refs cutoff \<noteq> []"
  obtains old anchor rest where "refs = old @ anchor # rest" "PlanRetention refs cutoff = map Key old"
    "\<forall>r \<in> set old. Ref_CapturedAt r < cutoff" "Ref_CapturedAt anchor < cutoff" "\<forall>r \<in> set rest. cutoff \<le> Ref_CapturedAt r"
proof -
  let ?w = "takeWhile (\<lambda>r. Ref_CapturedAt r < cutoff) refs" and ?d = "dropWhile (\<lambda>r. Ref_CapturedAt r < cutoff) refs"
  have plan: "PlanRetention refs cutoff = map Key (take (length ?w - 1) refs)"
    by (rule PlanRetention_history [OF assms(1)])
  then have "?w \<noteq> []" using assms(2) by auto
  then have w: "?w = butlast ?w @ [last ?w]" by simp
  have refs: "refs = butlast ?w @ last ?w # ?d"
    by (metis append_Cons append_Nil append_assoc takeWhile_dropWhile_id w)
  then have taken: "take (length ?w - 1) refs = butlast ?w"
    by (metis append_eq_conv_conj length_butlast)
  have before: "Ref_CapturedAt r < cutoff" if "r \<in> set ?w" for r using that by (auto dest: set_takeWhileD)
  have after: "\<forall>r \<in> set ?d. cutoff \<le> Ref_CapturedAt r"
  proof (cases ?d)
    case (Cons x xs)
    have "cutoff \<le> Ref_CapturedAt x" using Cons by (metis dropWhile_eq_Cons_conv linorder_not_less)
    moreover have "sorted (map Ref_CapturedAt ?d)"
      using history_sorted [OF assms(1)] sorted_wrt_append refs
      by (metis (no_types, lifting) map_append sorted_append takeWhile_dropWhile_id)
    ultimately show ?thesis using Cons by auto
  qed (simp del: dropWhile_eq_Nil_conv)
  show thesis
  proof (rule that [OF refs _ _ before [OF last_in_set [OF \<open>?w \<noteq> []\<close>]] after])
    show "PlanRetention refs cutoff = map Key (butlast ?w)" unfolding plan taken ..
    show "\<forall>r \<in> set (butlast ?w). Ref_CapturedAt r < cutoff" using before in_set_butlastD by fast
  qed
qed

lemma retention_keeps_selection:
  assumes "history p refs" "D \<subseteq> set (PlanRetention refs cutoff)" "cutoff \<le> moment"
  shows "newest_at_or_before (filter (\<lambda>r. Key r \<notin> D) refs) moment None = newest_at_or_before refs moment None"
proof (cases "PlanRetention refs cutoff = []")
  case False
  obtain old a rest where s: "refs = old @ a # rest" "PlanRetention refs cutoff = map Key old"
    "Ref_CapturedAt a < cutoff"
    using PlanRetention_anchor [OF assms(1) False] by blast
  have "distinct (map Key refs)" using assms(1) by (simp add: history_def)
  then have kept: "Key a \<notin> D" "\<And>r. r \<in> set rest \<Longrightarrow> Key r \<notin> D"
    using assms(2) s by auto
  have rest: "filter (\<lambda>r. Key r \<notin> D \<and> Q r) rest = filter Q rest" for Q
    using kept(2) by (metis (mono_tags, lifting) filter_cong)
  have sorted: "sorted (map Ref_CapturedAt refs)" by (rule history_sorted [OF assms(1)])
  have sorted': "sorted (map Ref_CapturedAt (filter (\<lambda>r. Key r \<notin> D) refs))"
    by (rule sorted_filter [OF sorted])
  show ?thesis
    unfolding newest_at_or_before_filter [OF sorted] newest_at_or_before_filter [OF sorted']
    using s(1,3) assms(3) kept(1) rest [of "\<lambda>r. Ref_CapturedAt r \<le> moment"]
    by (simp add: Let_def filter_filter conj_commute)
next
  case True
  then show ?thesis using assms(2) by simp
qed

lemma retention_deletes_only_superseded:
  assumes "history p refs" "r \<in> set refs" "Key r \<in> set (PlanRetention refs cutoff)"
  shows "\<exists>r' \<in> set refs. Key r' \<notin> set (PlanRetention refs cutoff) \<and> Ref_CapturedAt r \<le> Ref_CapturedAt r'
    \<and> Ref_CapturedAt r' < cutoff"
proof -
  obtain old a rest where s: "refs = old @ a # rest" "PlanRetention refs cutoff = map Key old"
    "Ref_CapturedAt a < cutoff"
    using PlanRetention_anchor [OF assms(1)] assms(3) by (metis length_pos_if_in_set length_0_conv less_numeral_extra(3))
  have d: "distinct (map Key refs)" using assms(1) by (simp add: history_def)
  then have "r \<in> set old" using assms(2,3) s by auto
  moreover have "sorted (map Ref_CapturedAt refs)" by (rule history_sorted [OF assms(1)])
  ultimately have "Ref_CapturedAt r \<le> Ref_CapturedAt a" using s(1) by (auto simp: sorted_append)
  then show ?thesis using s d by (intro bexI [of _ a]) auto
qed

lemma retention_keeps_one_before_cutoff:
  assumes "history p refs" "r \<in> set refs" "r' \<in> set refs" "Ref_CapturedAt r < cutoff" "Ref_CapturedAt r' < cutoff"
    and "Key r \<notin> set (PlanRetention refs cutoff)" "Key r' \<notin> set (PlanRetention refs cutoff)"
  shows "r = r'"
proof -
  let ?w = "takeWhile (\<lambda>r. Ref_CapturedAt r < cutoff) refs"
  have "takeWhile (\<lambda>r. Ref_CapturedAt r < cutoff) refs = filter (\<lambda>r. Ref_CapturedAt r < cutoff) refs"
    using chronological_filter [OF history_sorted [OF assms(1)], of "cutoff - 1"] by simp
  then have "r \<in> set ?w" "r' \<in> set ?w" using assms(2-5) by simp_all
  moreover have "\<exists>t. take (length ?w - 1) refs = butlast ?w"
    by (metis append_eq_conv_conj append_take_drop_id butlast_conv_take length_butlast takeWhile_eq_take take_take min.absorb1 diff_le_self)
  then have "x \<in> set ?w \<Longrightarrow> Key x \<notin> set (PlanRetention refs cutoff) \<Longrightarrow> x = last ?w" for x
    unfolding PlanRetention_history [OF assms(1)]
    by (metis append_butlast_last_id empty_iff image_eqI list.set(1) list.set_map rotate1.simps(2) set_ConsD set_rotate1)
  ultimately show ?thesis using assms(6,7) by blast
qed

end
