(* ===== verification/Restore_Select.thy ===== *)
theory Restore_Select
  imports Retention_Plan Api_Types
begin

text \<open>
  \<open>internal/restore/select.go\<close>, \<open>recoverytarget.go\<close> and \<open>backuplookup.go\<close>: which snapshot of a
  history a restore uses. CloudNativePG's \<open>ParseTargetTime\<close> and the Kubernetes reader are
  parameters; of a Backup only its recorded status is read. Explanations keep their text and
  arguments; a nested error is rendered as the model renders errors.
\<close>

section \<open>Recovery targets\<close>

datatype TargetKind = TargetNone | TargetTime | TargetBackupName | TargetBackupID | TargetApproximate
  | TargetUnresolvable

record TargetResolution =
  TKind :: TargetKind
  Moment :: time
  HasMoment :: bool
  Detail :: string

record Backup =
  StoppedAt :: "time option"
  BackupID :: string
  BackupName :: string

text \<open>The Kubernetes reader, for Backups.\<close>

record backup_reader =
  get_backup :: "string \<Rightarrow> string \<Rightarrow> error + Backup"
  list_backups :: "string \<Rightarrow> error + Backup list"

record BackupLookup =
  ByName :: "string \<Rightarrow> string \<Rightarrow> error + Backup"
  ByBackupID :: "string \<Rightarrow> string \<Rightarrow> error + Backup"

definition Kube_ByName :: "backup_reader \<Rightarrow> string \<Rightarrow> string \<Rightarrow> error + Backup" where
  "Kube_ByName K namespace name = get_backup K namespace name"

fun find_backup :: "Backup list \<Rightarrow> string \<Rightarrow> Backup option" where
  "find_backup [] backupID = None"
| "find_backup (backup # backups) backupID =
     (if BackupID backup = backupID then Some backup
      else if BackupName backup \<noteq> '''' \<and> BackupName backup = backupID then Some backup
      else find_backup backups backupID)"

definition Kube_ByBackupID :: "backup_reader \<Rightarrow> string \<Rightarrow> string \<Rightarrow> error + Backup" where
  "Kube_ByBackupID K namespace backupID =
     (case list_backups K namespace of
        Inl err \<Rightarrow> Inl err
      | Inr backups \<Rightarrow>
          (case find_backup backups backupID of
             Some backup \<Rightarrow> Inr backup
           | None \<Rightarrow> Inl (Errorf ''no Backup in namespace has status.backupId'' [namespace, backupID])))"

definition KubeBackupLookup :: "backup_reader \<Rightarrow> BackupLookup" where
  "KubeBackupLookup K = \<lparr>ByName = Kube_ByName K, ByBackupID = Kube_ByBackupID K\<rparr>"

definition opaqueTargets :: "string list" where
  "opaqueTargets = [''targetXID'', ''targetLSN'', ''targetName'', ''targetImmediate'']"

definition opaqueTargetIn :: "obj \<Rightarrow> string" where
  "opaqueTargetIn cluster =
     (case find (\<lambda>name. Get cluster (''spec.bootstrap.recovery.recoveryTarget.'' @ name) \<noteq> None) opaqueTargets of
        Some name \<Rightarrow> name | None \<Rightarrow> '''')"

definition stringAt :: "obj \<Rightarrow> string \<Rightarrow> string option" where
  "stringAt object path =
     (case Get object path of
        Some (JString s) \<Rightarrow> if s = '''' then None else Some s
      | _ \<Rightarrow> None)"

definition no_moment :: "TargetKind \<Rightarrow> string \<Rightarrow> TargetResolution" where
  "no_moment kind detail = \<lparr>TKind = kind, Moment = 0, HasMoment = False, Detail = detail\<rparr>"

definition resolutionFromBackup :: "TargetKind \<Rightarrow> Backup \<Rightarrow> string \<Rightarrow> TargetResolution" where
  "resolutionFromBackup kind backup detail =
     (case StoppedAt backup of
        None \<Rightarrow> no_moment TargetUnresolvable (detail @ '' has not recorded a stoppedAt time, so the moment it corresponds to is unknown'')
      | Some moment \<Rightarrow> \<lparr>TKind = kind, Moment = moment, HasMoment = True,
                       Detail = detail @ '' ('' @ FormatRFC3339 moment @ '')''\<rparr>)"

definition ResolveRecoveryTarget ::
  "(string \<Rightarrow> error + time) \<Rightarrow> obj \<Rightarrow> string \<Rightarrow> BackupLookup option \<Rightarrow> error + TargetResolution" where
  "ResolveRecoveryTarget ParseTargetTime cluster namespace backups =
     (case Get cluster ''spec.bootstrap.recovery'' of
        None \<Rightarrow> Inr (no_moment TargetNone ''the cluster is not bootstrapping from a recovery, so the latest configuration applies'')
      | Some recovery \<Rightarrow>
     if \<not> is_object recovery then Inr (no_moment TargetNone ''no recovery configuration'')
     else (case stringAt cluster ''spec.bootstrap.recovery.recoveryTarget.targetTime'' of
        Some raw \<Rightarrow>
          (case ParseTargetTime raw of
             Inl err \<Rightarrow> Inl (Wrapped ''cannot parse recoveryTarget.targetTime'' [raw] err)
           | Inr moment \<Rightarrow> Inr \<lparr>TKind = TargetTime, Moment = moment, HasMoment = True,
                                Detail = ''recoveryTarget.targetTime '' @ FormatRFC3339 moment\<rparr>)
      | None \<Rightarrow>
     (let opaque = opaqueTargetIn cluster in
     (case stringAt cluster ''spec.bootstrap.recovery.recoveryTarget.backupID'' of
        Some backupID \<Rightarrow>
          (case backups of
             None \<Rightarrow> Inr (no_moment TargetUnresolvable (''recoveryTarget.backupID '' @ quoted backupID @ '' cannot be resolved here''))
           | Some lookup \<Rightarrow>
               (case ByBackupID lookup namespace backupID of
                  Inl err \<Rightarrow> Inr (no_moment TargetUnresolvable
                    (''no Backup resource in namespace '' @ quoted namespace @ '' records backupID '' @ quoted backupID
                     @ '', so the moment it corresponds to is unknown ('' @ Error err @ '')''))
                | Inr backup \<Rightarrow>
                    if opaque \<noteq> '''' then
                      Inr (resolutionFromBackup TargetApproximate backup
                        (''recoveryTarget.'' @ opaque @ '' anchored to backupID '' @ backupID
                         @ ''; the configuration is taken from the end of that backup, which is the closest knowable point''))
                    else Inr (resolutionFromBackup TargetBackupID backup (''recoveryTarget.backupID '' @ backupID))))
      | None \<Rightarrow>
     if opaque \<noteq> '''' then
       Inr (no_moment TargetUnresolvable
         (''recoveryTarget.'' @ opaque @ '' cannot be mapped to a point in time without replaying WAL, ''
          @ ''and no backupID anchors it to a base backup''))
     else (case stringAt cluster ''spec.bootstrap.recovery.backup.name'' of
        Some name \<Rightarrow>
          (case backups of
             None \<Rightarrow> Inr (no_moment TargetUnresolvable (''Backup '' @ quoted name @ '' cannot be resolved here''))
           | Some lookup \<Rightarrow>
               (case ByName lookup namespace name of
                  Inl err \<Rightarrow> Inr (no_moment TargetUnresolvable
                    (''Backup '' @ quoted name @ '' named by bootstrap.recovery.backup was not found in namespace ''
                     @ quoted namespace @ '' ('' @ Error err @ '')''))
                | Inr backup \<Rightarrow> Inr (resolutionFromBackup TargetBackupName backup (''Backup '' @ name))))
      | None \<Rightarrow> Inr (no_moment TargetNone ''the recovery has no target, so it restores to the end of the archive''))))))"

section \<open>Selection\<close>

record Alignment =
  Align_Cluster :: "obj option"
  Align_Namespace :: string
  Align_Backups :: "BackupLookup option"

record Resolution =
  Res_Snapshot :: Snapshot
  Res_Key :: string
  Res_Target :: "TargetResolution option"

text \<open>What the selection functions share: hashing, the store, and CloudNativePG's time parser.\<close>

record 'w selector =
  sel_sha :: "bytes \<Rightarrow> string"
  sel_store :: "'w SnapshotStore"
  sel_ParseTargetTime :: "string \<Rightarrow> error + time"

definition read_ref :: "'w selector \<Rightarrow> string \<Rightarrow> 'w \<Rightarrow> (error + Resolution) \<times> 'w" where
  "read_ref S key w =
     (case Read (sel_sha S) (sel_store S) key w of
        (Inl err, w) \<Rightarrow> (Inl err, w)
      | (Inr snap, w) \<Rightarrow> (Inr \<lparr>Res_Snapshot = snap, Res_Key = key, Res_Target = None\<rparr>, w))"

definition read_latest :: "'w selector \<Rightarrow> TargetResolution option \<Rightarrow> 'w \<Rightarrow> (error + Resolution) \<times> 'w" where
  "read_latest S target w =
     (case Latest (sel_sha S) (sel_store S) w of
        (Inl err, w) \<Rightarrow> (Inl err, w)
      | (Inr (snap, key), w) \<Rightarrow> (Inr \<lparr>Res_Snapshot = snap, Res_Key = key, Res_Target = target\<rparr>, w))"

fun newest_of_generation :: "SnapshotRef list \<Rightarrow> int \<Rightarrow> SnapshotRef option \<Rightarrow> SnapshotRef option" where
  "newest_of_generation [] generation chosen = chosen"
| "newest_of_generation (ref # refs) generation chosen =
     newest_of_generation refs generation (if Ref_Generation ref = generation then Some ref else chosen)"

definition describeRange :: "SnapshotRef list \<Rightarrow> string" where
  "describeRange refs =
     (case refs of
        [] \<Rightarrow> ''''
      | r # rs \<Rightarrow> '', generations '' @ FormatInt (fold (\<lambda>x a. if Ref_Generation x < a then Ref_Generation x else a) refs (Ref_Generation r))
          @ '' to '' @ FormatInt (fold (\<lambda>x a. if Ref_Generation x > a then Ref_Generation x else a) refs (Ref_Generation r)))"

definition selectByGeneration :: "'w selector \<Rightarrow> int \<Rightarrow> 'w \<Rightarrow> (error + Resolution) \<times> 'w" where
  "selectByGeneration S generation w =
     (case List_refs (sel_store S) w of
        (Inl err, w) \<Rightarrow> (Inl err, w)
      | (Inr refs, w) \<Rightarrow>
          (case newest_of_generation refs generation None of
             None \<Rightarrow> (Inl (Errorf ''no snapshot for generation'' [FormatInt generation, describeRange refs]), w)
           | Some chosen \<Rightarrow> read_ref S (Key chosen) w))"

definition SelectAtOrBefore :: "'w selector \<Rightarrow> time \<Rightarrow> 'w \<Rightarrow> (error + Resolution) \<times> 'w" where
  "SelectAtOrBefore S moment w =
     (case List_refs (sel_store S) w of
        (Inl err, w) \<Rightarrow> (Inl err, w)
      | (Inr refs, w) \<Rightarrow>
          if refs = [] then (Inl (Wrapped ''the source has no snapshots'' [] (Sentinel ErrNotFound)), w)
          else (case newest_at_or_before refs moment None of
                  None \<Rightarrow> (Inl (Errorf ''no snapshot captured at or before''
                             [FormatRFC3339 moment, FormatRFC3339 (Ref_CapturedAt (hd refs))]), w)
                | Some chosen \<Rightarrow> read_ref S (Key chosen) w))"

definition selectAligned ::
  "'w selector \<Rightarrow> RestorePolicy option \<Rightarrow> Alignment option \<Rightarrow> 'w \<Rightarrow> (error + Resolution) \<times> 'w" where
  "selectAligned S policy alignment w =
     (case Option.bind alignment (\<lambda>a. map_option (Pair a) (Align_Cluster a)) of
        None \<Rightarrow> (Inl (Errorf ''select.mode is AlignWithRecoveryTarget, which resolves against the Cluster being created'' []), w)
      | Some (alignment, cluster) \<Rightarrow>
          (case ResolveRecoveryTarget (sel_ParseTargetTime S) cluster (Align_Namespace alignment) (Align_Backups alignment) of
             Inl err \<Rightarrow> (Inl err, w)
           | Inr target \<Rightarrow>
               if HasMoment target then
                 (case SelectAtOrBefore S (Moment target) w of
                    (Inl err, w) \<Rightarrow> (Inl (Wrapped ''aligning with'' [Detail target] err), w)
                  | (Inr resolution, w) \<Rightarrow> (Inr (resolution\<lparr>Res_Target := Some target\<rparr>), w))
               else if TKind target = TargetNone then read_latest S (Some target) w
               else if GetOnUnresolvable policy = UnresolvableUseLatest then read_latest S (Some target) w
               else (Inl (Errorf ''cannot align the configuration with this cluster's recovery target'' [Detail target]), w)))"

definition Select ::
  "'w selector \<Rightarrow> string \<Rightarrow> RestorePolicy option \<Rightarrow> Alignment option \<Rightarrow> 'w \<Rightarrow> (error + Resolution) \<times> 'w" where
  "Select S mode policy alignment w =
     (if mode = SelectLatest then read_latest S None w
      else if mode = SelectGeneration then
        (case Option.bind policy (\<lambda>p. Sel_Generation (Select_of p)) of
           None \<Rightarrow> (Inl (Errorf ''select.mode is Generation but select.generation is unset'' []), w)
         | Some generation \<Rightarrow> selectByGeneration S generation w)
      else if mode = SelectTimestamp then
        (case Option.bind policy (\<lambda>p. Sel_Timestamp (Select_of p)) of
           None \<Rightarrow> (Inl (Errorf ''select.mode is Timestamp but select.timestamp is unset'' []), w)
         | Some moment \<Rightarrow> SelectAtOrBefore S moment w)
      else if mode = SelectAlignWithRecoveryTarget then selectAligned S policy alignment w
      else (Inl (Errorf ''unknown select mode'' [mode]), w))"


section \<open>The choice among the snapshots\<close>

lemma last_filter_max:
  assumes "sorted (map ref_order refs)" "filter P refs \<noteq> []"
  shows "last (filter P refs) \<in> set refs \<and> P (last (filter P refs))
    \<and> (\<forall>r \<in> set refs. P r \<longrightarrow> ref_order r \<le> ref_order (last (filter P refs)))"
proof -
  have "last (filter P refs) \<in> set (filter P refs)" using assms(2) by (rule last_in_set)
  moreover have s: "sorted (map ref_order (filter P refs))" using assms(1) by (rule sorted_filter)
  have "sorted (map ref_order xs) \<Longrightarrow> r \<in> set xs \<Longrightarrow> ref_order r \<le> ref_order (last xs)" for r xs
    by (induction xs rule: rev_induct) (auto simp: sorted_append)
  from this [OF s] have "ref_order r \<le> ref_order (last (filter P refs))" if "r \<in> set (filter P refs)" for r
    using that .
  ultimately show ?thesis by auto
qed

lemma newest_at_or_before_Some:
  assumes "sorted (map ref_order refs)" "newest_at_or_before refs m None = Some r"
  shows "r \<in> set refs \<and> Ref_CapturedAt r \<le> m
    \<and> (\<forall>r' \<in> set refs. Ref_CapturedAt r' \<le> m \<longrightarrow> ref_order r' \<le> ref_order r)"
  using assms(2) last_filter_max [OF assms(1), of "\<lambda>r. Ref_CapturedAt r \<le> m"]
  unfolding newest_at_or_before_filter [OF sorted_ref_order_time [OF assms(1)]]
  by (auto simp: Let_def split: if_splits)

lemma newest_at_or_before_None:
  assumes "sorted (map ref_order refs)"
  shows "newest_at_or_before refs m None = None \<longleftrightarrow> (\<forall>r \<in> set refs. m < Ref_CapturedAt r)"
  unfolding newest_at_or_before_filter [OF sorted_ref_order_time [OF assms]]
  by (auto simp: Let_def filter_empty_conv not_le)

lemma newest_of_generation_last:
  "newest_of_generation refs g c =
     (let same = filter (\<lambda>r. Ref_Generation r = g) refs in if same = [] then c else Some (last same))"
  by (induction refs arbitrary: c) (auto simp: Let_def)

context history_reader
begin

text \<open>A point-in-time selection reads the newest snapshot not after the moment, or fails.\<close>

lemma SelectAtOrBefore_reads:
  assumes "good w" "Store_Backend (sel_store S) = B"
    and "r \<in> refs_of (objs w) (Store_Layout (sel_store S))" "Ref_CapturedAt r \<le> moment"
    and "\<And>r'. r' \<in> refs_of (objs w) (Store_Layout (sel_store S)) \<Longrightarrow> Ref_CapturedAt r' \<le> moment
      \<Longrightarrow> ref_order r' \<le> ref_order r"
    and "objs w (Key r) = Some raw" "decodeSnapshot (sel_sha S) raw (Key r) = Inr snap"
  shows "fst (SelectAtOrBefore S moment w) = Inr \<lparr>Res_Snapshot = snap, Res_Key = Key r, Res_Target = None\<rparr>"
proof -
  obtain refs w1 where l: "List_refs (sel_store S) w = (Inr refs, w1)" "objs w1 = objs w" "good w1"
    "set refs = refs_of (objs w) (Store_Layout (sel_store S))" "sorted (map ref_order refs)"
    using List_refs_exact [OF assms(1,2)] by blast
  obtain r0 where r0: "newest_at_or_before refs moment None = Some r0"
    using newest_at_or_before_None [OF l(5), of moment] assms(3,4) l(4) by fastforce
  then have "r0 \<in> set refs" "Ref_CapturedAt r0 \<le> moment" "ref_order r \<le> ref_order r0"
    using newest_at_or_before_Some [OF l(5) r0] assms(3,4) l(4) by auto
  then have "ref_order r0 = ref_order r" using assms(5) l(4) by (intro antisym) auto
  then have "r0 = r" using ref_order_inj by (simp add: inj_eq)
  moreover have "refs \<noteq> []" using \<open>r0 \<in> set refs\<close> by auto
  moreover obtain w2 where "Read (sel_sha S) (sel_store S) (Key r) w1 = (Inr snap, w2)"
    using Read_decodes [OF l(3) assms(2), of "Key r" raw "sel_sha S"] l(2) assms(6,7) by auto
  ultimately show ?thesis using l(1) r0 by (simp add: SelectAtOrBefore_def read_ref_def)
qed

lemma SelectAtOrBefore_newest:
  assumes "good w" "Store_Backend (sel_store S) = B"
    and "fst (SelectAtOrBefore S moment w) = Inr res"
  shows "\<exists>r raw. r \<in> refs_of (objs w) (Store_Layout (sel_store S)) \<and> Ref_CapturedAt r \<le> moment
    \<and> (\<forall>r' \<in> refs_of (objs w) (Store_Layout (sel_store S)). Ref_CapturedAt r' \<le> moment \<longrightarrow> ref_order r' \<le> ref_order r)
    \<and> objs w (Key r) = Some raw \<and> decodeSnapshot (sel_sha S) raw (Key r) = Inr (Res_Snapshot res)
    \<and> Res_Key res = Key r \<and> Res_Target res = None"
proof -
  obtain refs w1 where l: "List_refs (sel_store S) w = (Inr refs, w1)" "objs w1 = objs w" "good w1"
    "set refs = refs_of (objs w) (Store_Layout (sel_store S))" "sorted (map ref_order refs)"
    using List_refs_exact [OF assms(1,2)] by blast
  obtain r where r: "newest_at_or_before refs moment None = Some r"
    using assms(3) l(1) by (auto simp: SelectAtOrBefore_def split: if_splits option.splits)
  note n = newest_at_or_before_Some [OF l(5) r]
  then obtain raw where raw: "objs w (Key r) = Some raw" using l(4) by (auto simp: refs_of_def)
  obtain w2 where "Read (sel_sha S) (sel_store S) (Key r) w1 = (decodeSnapshot (sel_sha S) raw (Key r), w2)"
    using Read_decodes [OF l(3) assms(2), of "Key r" raw "sel_sha S"] l(2) raw by auto
  then have "decodeSnapshot (sel_sha S) raw (Key r) = Inr (Res_Snapshot res) \<and> Res_Key res = Key r \<and> Res_Target res = None"
    using assms(3) l(1) r by (auto simp: SelectAtOrBefore_def read_ref_def split: if_splits sum.splits)
  with n raw l(4) show ?thesis by auto
qed

end

section \<open>Selection by the time of capture\<close>

text \<open>
  A history in which every snapshot is filed as \<open>Write\<close> files it, under the key of its own content.
\<close>

definition filed_by_content :: "(bytes \<Rightarrow> string) \<Rightarrow> Layout \<Rightarrow> (string \<Rightarrow> bytes option) \<Rightarrow> bool" where
  "filed_by_content sha l objs \<longleftrightarrow>
     (\<forall>k raw snap. objs k = Some raw \<and> HasPrefix k (SnapshotsPrefix l) \<and> decodeSnapshot sha raw k = Inr snap \<longrightarrow>
        keyable snap \<and> k = snapshot_key l snap)"

abbreviation second_of :: "time \<Rightarrow> int" where
  "second_of t \<equiv> t div nanos_per_second"

lemma second_le: "second_of t * nanos_per_second \<le> m \<longleftrightarrow> second_of t \<le> second_of m"
proof
  assume "second_of t * nanos_per_second \<le> m"
  then have "second_of t * nanos_per_second div nanos_per_second \<le> second_of m"
    by (rule zdiv_mono1) (simp add: nanos_per_second_def)
  then show "second_of t \<le> second_of m" by (simp add: nanos_per_second_def)
next
  assume "second_of t \<le> second_of m"
  then have "second_of t * nanos_per_second \<le> second_of m * nanos_per_second"
    by (rule mult_right_mono) (simp add: nanos_per_second_def)
  also have "\<dots> \<le> m" by (simp add: nanos_per_second_def)
  finally show "second_of t * nanos_per_second \<le> m" .
qed

lemma refs_of_filed:
  assumes "filed_by_content sha l objs" "objs k = Some raw" "HasPrefix k (SnapshotsPrefix l)" "decodeSnapshot sha raw k = Inr snap"
  shows "\<lparr>Key = k, Ref_CapturedAt = second_of (CapturedAt snap) * nanos_per_second, Ref_Generation = Generation snap\<rparr> \<in> refs_of objs l"
proof -
  have "keyable snap" "k = snapshot_key l snap" using assms unfolding filed_by_content_def by blast+
  then show ?thesis using keyable_parsed [of snap l] assms(2,3) by (simp add: refs_of_def)
qed

context history_reader
begin

lemma SelectAtOrBefore_captured:
  assumes "good w" "Store_Backend (sel_store S) = B" "fst (SelectAtOrBefore S moment w) = Inr res"
    and "filed_by_content (sel_sha S) (Store_Layout (sel_store S)) (objs w)"
  shows "second_of (CapturedAt (Res_Snapshot res)) \<le> second_of moment"
    and "objs w k = Some raw \<Longrightarrow> HasPrefix k (SnapshotsPrefix (Store_Layout (sel_store S))) \<Longrightarrow>
      decodeSnapshot (sel_sha S) raw k = Inr other \<Longrightarrow> second_of (CapturedAt other) \<le> second_of moment \<Longrightarrow>
      (second_of (CapturedAt other), Generation other) \<le> (second_of (CapturedAt (Res_Snapshot res)), Generation (Res_Snapshot res))"
proof -
  let ?l = "Store_Layout (sel_store S)"
  obtain r x where r: "r \<in> refs_of (objs w) ?l" "Ref_CapturedAt r \<le> moment"
    "\<forall>r' \<in> refs_of (objs w) ?l. Ref_CapturedAt r' \<le> moment \<longrightarrow> ref_order r' \<le> ref_order r"
    "objs w (Key r) = Some x" "decodeSnapshot (sel_sha S) x (Key r) = Inr (Res_Snapshot res)"
    using SelectAtOrBefore_newest [OF assms(1-3)] by blast
  have "HasPrefix (Key r) (SnapshotsPrefix ?l)" using r(1) by (simp add: refs_of_def)
  note mine = refs_of_filed [OF assms(4) r(4) this r(5)]
  then have at: "Ref_CapturedAt r = second_of (CapturedAt (Res_Snapshot res)) * nanos_per_second"
    "Ref_Generation r = Generation (Res_Snapshot res)"
    using r(1) by (auto simp: refs_of_def)
  then show "second_of (CapturedAt (Res_Snapshot res)) \<le> second_of moment" using r(2) second_le by simp
  assume other: "objs w k = Some raw" "HasPrefix k (SnapshotsPrefix ?l)" "decodeSnapshot (sel_sha S) raw k = Inr other"
    "second_of (CapturedAt other) \<le> second_of moment"
  have "second_of (CapturedAt other) * nanos_per_second \<le> moment" using other(4) second_le by simp
  then have "(second_of (CapturedAt other) * nanos_per_second, Generation other, k) \<le> ref_order r"
    using r(3) [rule_format, OF refs_of_filed [OF assms(4) other(1-3)]] by (simp add: ref_order_def)
  then show "(second_of (CapturedAt other), Generation other) \<le> (second_of (CapturedAt (Res_Snapshot res)), Generation (Res_Snapshot res))"
    by (auto simp: ref_order_def at nanos_per_second_def)
qed

end

section \<open>Which moment a recovery aligns with\<close>

text \<open>\<open>targetTime\<close> wins over everything else and needs no lookup.\<close>

lemma ResolveRecoveryTarget_time:
  assumes "Get cluster ''spec.bootstrap.recovery'' = Some (JObject m)"
    and "stringAt cluster ''spec.bootstrap.recovery.recoveryTarget.targetTime'' = Some raw"
    and "P raw = Inr moment"
  shows "\<exists>detail. ResolveRecoveryTarget P cluster ns backups =
    Inr \<lparr>TKind = TargetTime, Moment = moment, HasMoment = True, Detail = detail\<rparr>"
  using assms by (simp add: ResolveRecoveryTarget_def)

text \<open>What the lookup of a Backup by an id returns.\<close>

lemma find_backup_Some:
  "find_backup bs i = Some b \<Longrightarrow> b \<in> set bs \<and> (BackupID b = i \<or> BackupName b = i \<and> i \<noteq> '''')"
  by (induction bs) (auto split: if_splits)

end
