(* ===== verification/Samples.thy ===== *)
theory Samples
  imports Restore_Plan Restore_Select
begin

text \<open>
  Concrete inputs at which the properties are exercised: a fragment of CloudNativePG's types, an
  injective stand-in for SHA-256, a cluster, the snapshot captured from it, an expression
  environment and a store.
\<close>

section \<open>CloudNativePG\<close>

definition sample_spec_type :: gtype where
  "sample_spec_type = TStruct ''v1.ClusterSpec'' [
     (''instances'', False, TBasic ''int''),
     (''postgresql'', False, TStruct ''v1.PostgresConfiguration'' [
        (''parameters'', False, TMap (TBasic ''string'')),
        (''shared_preload_libraries'', False, TSlice (TBasic ''string''))]),
     (''storage'', False, TStruct ''v1.StorageConfiguration'' [
        (''size'', False, TBasic ''string'')]),
     (''resources'', False, TStruct ''v1.ResourceRequirements'' [
        (''limits'', False, TMap (TStruct ''resource.Quantity'' []))])]"

definition sample_cnpg :: cnpg where
  "sample_cnpg = \<lparr>FixedConfigurationParameters = [''port'', ''ssl''],
     ManagedExtensions = [[''pg_stat_statements'']], clusterSpecType = sample_spec_type\<rparr>"

text \<open>Eight zeros and the text itself: distinct texts have distinct digests.\<close>

definition sample_sha :: "bytes \<Rightarrow> string" where
  "sample_sha s = ''00000000'' @ s"

lemma inj_sample_sha: "inj sample_sha"
  by (rule injI) (simp add: sample_sha_def)

section \<open>A cluster\<close>

definition sample_tree :: obj where
  "sample_tree = [
     (''metadata'', JObject [(''name'', JString ''db'')]),
     (''spec'', JObject [
        (''instances'', JNumber ''3''),
        (''plugins'', JArray [JString ''other'']),
        (''postgresql'', JObject [
           (''parameters'', JObject [(''pgaudit.log'', JString ''all''), (''port'', JString ''5432''), (''work_mem'', JString ''4MB'')]),
           (''shared_preload_libraries'', JArray [JString ''pg_stat_statements'', JString ''pgaudit''])]),
        (''storage'', JObject [(''size'', JString ''10Gi'')])])]"

definition sample_cluster :: Cluster where
  "sample_cluster = \<lparr>Cluster_Name = ''db'', Cluster_Namespace = ''prod'', Cluster_UID = ''u-1'',
     Cluster_Generation = 7, Cluster_Labels = [(''cnpg.io/reload'', ''true''), (''team'', ''payments'')],
     Cluster_Annotations = [], Status_Image = ''postgres:17'', Cluster_Plugins = [], Cluster_PluginStatus = [],
     Cluster_ToMap = Inr sample_tree\<rparr>"

text \<open>1 January 2026, noon.\<close>

definition sample_time :: time where
  "sample_time = 63902865600 * 1000000000"

definition sample_options :: ExtractOptions where
  "sample_options = \<lparr>Opt_Groups = [''Gucs'', ''Instances'', ''Metadata''], Opt_PluginVersion = ''1.0.0'', Opt_Now = sample_time\<rparr>"

definition sample_content :: Content where
  "sample_content = \<lparr>
     Spec = [
       (''instances'', JNumber ''3''),
       (''postgresql'', JObject [
          (''parameters'', JObject [(''pgaudit.log'', JString ''all''), (''work_mem'', JString ''4MB'')]),
          (''shared_preload_libraries'', JArray [JString ''pgaudit''])])],
     Labels = [(''team'', ''payments'')],
     Annotations = []\<rparr>"

definition sample_stored :: Snapshot where
  "sample_stored = \<lparr>APIVersion = APIVersion_const, Kind = Kind_const, CapturedAt = sample_time,
     Generation = 7, Cluster = \<lparr>Ref_Name = ''db'', Ref_Namespace = ''prod'', Ref_UID = ''u-1''\<rparr>,
     Source = \<lparr>PluginVersion = ''1.0.0'', ImageName = ''postgres:17''\<rparr>,
     CapturedGroups = [''Gucs'', ''Instances'', ''Metadata''],
     CaptureRules = ''sha256:00000000'',
     ContentOf = sample_content,
     Checksum_of = digest sample_sha (projr (Canonical sample_content))\<rparr>"

definition sample_snapshot :: Snapshot where
  "sample_snapshot = sample_stored\<lparr>CaptureRules :=
     CaptureRulesDigest sample_cnpg sample_sha [''Gucs'', ''Instances'', ''Metadata'']\<rparr>"

text \<open>What the three groups take of the cluster before the operator's settings are filtered.\<close>

definition sample_raw :: obj where
  "sample_raw = [(''spec'', JObject [
     (''instances'', JNumber ''3''),
     (''postgresql'', JObject [
        (''parameters'', JObject [(''pgaudit.log'', JString ''all''), (''port'', JString ''5432''), (''work_mem'', JString ''4MB'')]),
        (''shared_preload_libraries'', JArray [JString ''pg_stat_statements'', JString ''pgaudit''])])])]"

lemma sample_groups:
  "extract_groups sample_tree [''Gucs'', ''Instances'', ''Metadata''] [] False = Inr (sample_raw, True)"
  by code_simp

lemma sample_denylist: "ApplyDenylist sample_raw = sample_raw"
  by code_simp

lemma sample_sanitize:
  "sanitizePostgresConfiguration sample_cnpg sample_raw = [(''spec'', JObject (Spec sample_content))]"
  by code_simp

lemma sample_metadata:
  "FilterMetadata (Cluster_Labels sample_cluster) = Labels sample_content"
  "FilterMetadata (Cluster_Annotations sample_cluster) = Annotations sample_content"
  by code_simp+

lemma sample_checksum: "Checksum sample_sha sample_content = Inr (digest sample_sha (projr (Canonical sample_content)))"
proof -
  have "\<not> isl (Canonical sample_content)" by code_simp
  then show ?thesis by (cases "Canonical sample_content") (auto simp: Checksum_def)
qed

lemma sample_content_eta:
  "\<lparr>Spec = Spec sample_content, Labels = Labels sample_content, Annotations = Annotations sample_content\<rparr> = sample_content"
  by simp

lemma sample_extract:
  "Extract sample_cnpg sample_sha 0 (Some sample_cluster) sample_options = Inr sample_snapshot"
proof -
  have "ExtractOptions_groups sample_options = [''Gucs'', ''Instances'', ''Metadata'']"
    by (simp add: ExtractOptions_groups_def sample_options_def)
  moreover have "ExtractOptions_now 0 sample_options = sample_time"
    by (simp add: ExtractOptions_now_def sample_options_def sample_time_def)
  moreover have "Cluster_ToMap sample_cluster = Inr sample_tree" by (simp add: sample_cluster_def)
  ultimately show ?thesis
    by (simp add: Extract_def Let_def sample_groups sample_denylist sample_sanitize sample_metadata
        sample_content_eta sample_checksum sample_snapshot_def sample_stored_def del: extract_groups.simps)
      (simp add: sample_cluster_def sample_options_def)
qed

lemma sample_tree_ok: "obj_ok sample_tree"
  by code_simp


section \<open>A store\<close>



definition sample_layout :: Layout where
  "sample_layout = \<lparr>BasePath = ''pg'', ServerName = ''db'', Prefix = ''chronicle''\<rparr>"

definition sample_store :: "memory SnapshotStore" where
  "sample_store = \<lparr>Store_Backend = memory_backend, Store_Layout = sample_layout\<rparr>"

lemma sample_stored_ok: "snapshot_ok sample_stored"
  by code_simp

lemma sample_stored_json:
  "case snapshot_json sample_stored of
     Inl _ \<Rightarrow> False | Inr doc \<Rightarrow> printable doc \<and> nesting doc \<le> 10"
  by code_simp

lemma sample_writable: "writable sample_sha sample_stored"
  using sample_stored_ok sample_stored_json sample_checksum
  by (auto simp: writable_def sample_stored_def max_nesting_depth_def split: sum.splits)

text \<open>The same state captured again, a nanosecond later.\<close>

definition sample_late :: Snapshot where
  "sample_late = sample_stored\<lparr>CapturedAt := sample_time + 1\<rparr>"

lemma sample_late_writable: "writable sample_sha sample_late"
proof -
  have "snapshot_ok sample_late" by code_simp
  moreover have "case snapshot_json sample_late of Inl _ \<Rightarrow> False | Inr doc \<Rightarrow> printable doc \<and> nesting doc \<le> 10" by code_simp
  ultimately show ?thesis
    using sample_checksum by (auto simp: writable_def sample_late_def sample_stored_def max_nesting_depth_def split: sum.splits)
qed

lemma sample_memory_ok: "memory_ok NewBackend"
  by (simp add: memory_ok_def NewBackend_def)

text \<open>Three captures of one history, a day apart.\<close>

definition sample_ref :: "string \<Rightarrow> int \<Rightarrow> SnapshotRef" where
  "sample_ref d g =
     (let key = ''pg/db/chronicle/snapshots/202601'' @ d @ ''T120000Z-g'' @ pad_int 10 g @ ''-0000000a.json'' in
      case ParseSnapshotKey key of
        Inr (t, gen) \<Rightarrow> \<lparr>Key = key, Ref_CapturedAt = t, Ref_Generation = gen\<rparr>
      | Inl _ \<Rightarrow> \<lparr>Key = key, Ref_CapturedAt = 0, Ref_Generation = 0\<rparr>)"

definition sample_refs :: "SnapshotRef list" where
  "sample_refs = [sample_ref ''01'' 1, sample_ref ''02'' 2, sample_ref ''03'' 3]"

lemma sample_history: "history ''pg/db/chronicle/snapshots'' sample_refs"
  by code_simp

section \<open>A restore\<close>

text \<open>An expression environment whose expressions are string constants.\<close>

definition sample_celenv :: "string celenv" where
  "sample_celenv = \<lparr>cel_New = None, cel_Compile = Inr, cel_Evaluate = (\<lambda>prog v quantity. Inr (JString prog))\<rparr>"

definition sample_skips :: SkipSet where
  "sample_skips = [plain_rule ''spec.instances'' ''path spec.instances'']"

definition sample_transforms :: "string TransformSet" where
  "sample_transforms =
     \<lparr>byPath = [(''spec.postgresql.parameters.work_mem'', \<lparr>program = ''8MB'', onMissing = MissingFail\<rparr>)],
      order = [''spec.postgresql.parameters.work_mem'']\<rparr>"

lemma sample_rules:
  "CompileRules sample_cnpg sample_celenv
     [\<lparr>Skip_Group = '''', Skip_Path = ''spec.instances'', KeyPrefix = '''', Except = []\<rparr>]
     [\<lparr>Transform_Path = ''spec.postgresql.parameters.work_mem'', OnMissing = '''', Expression = ''8MB''\<rparr>]
   = Inr (sample_skips, sample_transforms)"
  by code_simp

definition sample_change :: "string list \<Rightarrow> json \<Rightarrow> bool \<Rightarrow> Change" where
  "sample_change segs v t = \<lparr>Change_Path = Join segs ''.'', segments = segs, Change_Value = v, transformed = t\<rparr>"

definition sample_plan :: Plan where
  "sample_plan = \<lparr>
     Changes = [
       sample_change [''metadata'', ''labels'', ''team''] (JString ''payments'') False,
       sample_change [''spec'', ''postgresql'', ''parameters'', ''pgaudit.log''] (JString ''all'') False,
       sample_change [''spec'', ''postgresql'', ''parameters'', ''work_mem''] (JString ''8MB'') True,
       sample_change [''spec'', ''postgresql'', ''shared_preload_libraries''] (JArray [JString ''pgaudit'']) False],
     Exclusions = [\<lparr>Exclusion_Path = ''spec.instances'', Exclusion_Reason = ''path spec.instances''\<rparr>]\<rparr>"

lemma sample_build: "BuildPlan sample_cnpg sample_celenv (Some sample_stored) sample_skips sample_transforms = Inr sample_plan"
  by code_simp

text \<open>The manifest of the cluster being created, and what the plan makes of it.\<close>

definition sample_target :: obj where
  "sample_target = [
     (''metadata'', JObject [(''labels'', JObject [(''cnpg.io/cluster'', JString ''db2'')]), (''name'', JString ''db2'')]),
     (''spec'', JObject [
        (''bootstrap'', JObject [(''recovery'', JObject [(''source'', JString ''db'')])]),
        (''instances'', JNumber ''1'')])]"

definition sample_restored :: obj where
  "sample_restored = [
     (''metadata'', JObject [
        (''labels'', JObject [(''cnpg.io/cluster'', JString ''db2''), (''team'', JString ''payments'')]),
        (''name'', JString ''db2'')]),
     (''spec'', JObject [
        (''bootstrap'', JObject [(''recovery'', JObject [(''source'', JString ''db'')])]),
        (''instances'', JNumber ''1''),
        (''postgresql'', JObject [
           (''parameters'', JObject [(''pgaudit.log'', JString ''all''), (''work_mem'', JString ''8MB'')]),
           (''shared_preload_libraries'', JArray [JString ''pgaudit''])])])]"

lemma sample_apply: "Plan_Apply sample_plan sample_target = Inr sample_restored"
  by code_simp

lemma sample_accepted: "\<exists>raw. decodeSnapshot sample_sha raw ''k'' = Inr sample_stored"
  using decodeSnapshot_encoded [OF sample_writable] by blast

end
