(* ===== verification/Capture_Properties.thy ===== *)
theory Capture_Properties
  imports Samples
begin

text \<open>
  Properties of capture (\<open>internal/snapshot\<close>): what a snapshot contains, that it always can be
  made, and when the cheap fingerprint tells two states apart.
\<close>

section \<open>What a capture holds\<close>

text \<open>C5. Capture is an exact allowlist: away from the two settings that are filtered, a value of the
  cluster's \<open>spec\<close> is in the snapshot precisely when an enabled group claims its field, and then
  unchanged.\<close>

theorem capture_is_the_allowlist:
  assumes "Extract C sha wall (Some cluster) opts = Inr snap" "Cluster_ToMap cluster = Inr source"
    and "obj_ok source" "parallel params_path (''spec'' # f # r)" "parallel libs_path (''spec'' # f # r)"
  shows "GetSegments (Spec (ContentOf snap)) (f # r) =
    (if claimed (ExtractOptions_groups opts) f then GetSegments source (''spec'' # f # r) else None)"
  by (rule Extract_exact [OF assms])

theorem capture_is_the_allowlist_witness:
  "GetSegments (Spec (ContentOf sample_snapshot)) [''storage'', ''size''] = None \<and>
   GetSegments (Spec (ContentOf sample_snapshot)) [''instances''] = Some (JNumber ''3'')"
proof -
  have "parallel params_path [''spec'', ''storage'', ''size'']" "parallel libs_path [''spec'', ''storage'', ''size'']"
    "parallel params_path [''spec'', ''instances'']" "parallel libs_path [''spec'', ''instances'']"
    by (simp_all add: params_path_def libs_path_def parallel_def)
  moreover have "Cluster_ToMap sample_cluster = Inr sample_tree" by (simp add: sample_cluster_def)
  moreover have "\<not> claimed (ExtractOptions_groups sample_options) ''storage''"
    "claimed (ExtractOptions_groups sample_options) ''instances''" by code_simp+
  moreover have "GetSegments sample_tree [''spec'', ''instances''] = Some (JNumber ''3'')" by code_simp
  ultimately show ?thesis
    using capture_is_the_allowlist [OF sample_extract _ sample_tree_ok, of "''storage''" "[''size'']"]
      capture_is_the_allowlist [OF sample_extract _ sample_tree_ok, of "''instances''" "[]"] by simp
qed

text \<open>C6. Settings the operator owns are never captured: of the PostgreSQL parameters exactly those
  outside CloudNativePG's fixed list are, as the Cluster has them, and of the preloaded libraries
  exactly those that no managed extension names, in their order, the field being left out when none
  remains.\<close>

theorem capture_drops_operator_settings:
  assumes "Extract C sha wall (Some cluster) opts = Inr snap" "Cluster_ToMap cluster = Inr source"
    and "obj_ok source"
  shows "GetSegments (Spec (ContentOf snap)) [''postgresql'', ''parameters'', k] =
      (if claimed (ExtractOptions_groups opts) ''postgresql'' \<and> k \<notin> set (FixedConfigurationParameters C)
       then GetSegments source [''spec'', ''postgresql'', ''parameters'', k] else None)
    \<and> GetSegments (Spec (ContentOf snap)) [''postgresql'', ''shared_preload_libraries''] =
      (case (if claimed (ExtractOptions_groups opts) ''postgresql''
             then GetSegments source [''spec'', ''postgresql'', ''shared_preload_libraries''] else None) of
         Some (JArray xs) \<Rightarrow>
           (let kept = filter (\<lambda>x. \<not> (\<exists>extension \<in> set (ManagedExtensions C). \<exists>name \<in> set extension. x = JString name)) xs
            in if kept = [] then None else Some (JArray kept))
       | other \<Rightarrow> other)"
  using Extract_parameters [OF assms] Extract_libraries [OF assms]
  unfolding FilterSharedPreloadLibraries_managed Let_def by blast

theorem capture_drops_operator_settings_witness:
  "GetSegments sample_tree [''spec'', ''postgresql'', ''parameters'', ''port''] = Some (JString ''5432'') \<and>
   GetSegments (Spec (ContentOf sample_snapshot)) [''postgresql'', ''parameters'', ''port''] = None \<and>
   GetSegments (Spec (ContentOf sample_snapshot)) [''postgresql'', ''parameters'', ''work_mem''] = Some (JString ''4MB'') \<and>
   GetSegments sample_tree [''spec'', ''postgresql'', ''shared_preload_libraries'']
     = Some (JArray [JString ''pg_stat_statements'', JString ''pgaudit'']) \<and>
   GetSegments (Spec (ContentOf sample_snapshot)) [''postgresql'', ''shared_preload_libraries''] = Some (JArray [JString ''pgaudit''])"
proof -
  have "Cluster_ToMap sample_cluster = Inr sample_tree" by (simp add: sample_cluster_def)
  moreover have "claimed (ExtractOptions_groups sample_options) ''postgresql''"
    "GetSegments sample_tree [''spec'', ''postgresql'', ''parameters'', ''port''] = Some (JString ''5432'')"
    "GetSegments sample_tree [''spec'', ''postgresql'', ''parameters'', ''work_mem''] = Some (JString ''4MB'')"
    "GetSegments sample_tree [''spec'', ''postgresql'', ''shared_preload_libraries'']
      = Some (JArray [JString ''pg_stat_statements'', JString ''pgaudit''])"
    by code_simp+
  moreover have "FixedConfigurationParameters sample_cnpg = [''port'', ''ssl'']"
    "ManagedExtensions sample_cnpg = [[''pg_stat_statements'']]"
    by (simp_all add: sample_cnpg_def)
  ultimately show ?thesis
    using capture_drops_operator_settings [OF sample_extract _ sample_tree_ok, of "''port''"]
      capture_drops_operator_settings [OF sample_extract _ sample_tree_ok, of "''work_mem''"] by simp
qed

text \<open>C7. No value at or beneath a denied path is ever captured, and no label or annotation whose key
  is denied.\<close>

theorem capture_holds_nothing_denied:
  assumes "Extract C sha wall (Some cluster) opts = Inr snap" "Cluster_ToMap cluster = Inr source"
    and "obj_ok source"
  shows "(\<forall>l \<in> set (WalkLeaves (spec_only (Spec (ContentOf snap)))). \<not> IsDeniedPath (Leaf_Path l))
    \<and> (\<forall>(k, v) \<in> set (Labels (ContentOf snap)) \<union> set (Annotations (ContentOf snap)). \<not> IsDeniedMetadataKey k)"
  using Extract_no_denied_leaf [OF assms] Extract_metadata(1,2) [OF assms(1,2)]
  by (auto simp: FilterMetadata_def split: if_splits)

theorem capture_holds_nothing_denied_witness:
  "(''team'', ''payments'') \<in> set (Labels (ContentOf sample_snapshot)) \<and> \<not> IsDeniedMetadataKey ''team'' \<and>
   list_all (\<lambda>l. \<not> IsDeniedPath (Leaf_Path l)) (WalkLeaves (spec_only (Spec (ContentOf sample_snapshot))))"
proof -
  have "Cluster_ToMap sample_cluster = Inr sample_tree" by (simp add: sample_cluster_def)
  moreover have "(''team'', ''payments'') \<in> set (Labels (ContentOf sample_snapshot))"
    by (simp add: sample_snapshot_def sample_stored_def sample_content_def)
  ultimately show ?thesis
    using capture_holds_nothing_denied [OF sample_extract _ sample_tree_ok] by (auto simp: list_all_iff)
qed

text \<open>A capture fails only for a group name that does not exist: with known groups it succeeds
  on every cluster that serialises, and with an unknown one it names it. The internal error about a
  group naming a denied path cannot happen.\<close>

lemma capture_succeeds:
  assumes "Cluster_ToMap cluster = Inr source" "obj_ok source" "numbers_ok (JObject source)"
  shows "if set (ExtractOptions_groups opts) \<subseteq> set GroupNames
    then \<exists>snap. Extract C sha wall (Some cluster) opts = Inr snap
    else \<exists>n. n \<notin> set GroupNames \<and>
      Extract C sha wall (Some cluster) opts = Inl (Errorf ''unknown capture group'' (n # GroupNames))"
  using Extract_total [OF assms] Extract_unknown_group [OF assms(1)] by auto

section \<open>Fingerprints\<close>

text \<open>C18. The watermark converges: the fingerprint recomputed from the snapshot a capture produced is
  the fingerprint of the cluster it was captured from, so a written capture is not repeated.\<close>

theorem capture_fingerprint_converges:
  assumes "Extract C sha wall (Some cluster) opts = Inr snap" "Cluster_ToMap cluster = Inr source"
  shows "MetadataFingerprint sha (Labels (ContentOf snap)) (Annotations (ContentOf snap))
      (CapturedGroups snap) (CaptureRules snap)
    = MetadataFingerprint sha (Cluster_Labels cluster) (Cluster_Annotations cluster)
      (ExtractOptions_groups opts) (CaptureRulesDigest C sha (ExtractOptions_groups opts))"
  by (rule MetadataFingerprint_converges [OF assms])

theorem capture_fingerprint_converges_witness:
  "MetadataFingerprint sample_sha [(''team'', ''payments'')] [] [''Gucs'', ''Instances'', ''Metadata'']
     (CaptureRules sample_snapshot)
   = MetadataFingerprint sample_sha [(''cnpg.io/reload'', ''true''), (''team'', ''payments'')] []
     [''Gucs'', ''Instances'', ''Metadata''] (CaptureRulesDigest sample_cnpg sample_sha [''Gucs'', ''Instances'', ''Metadata''])"
  using capture_fingerprint_converges [OF sample_extract, of sample_tree]
  by (simp add: sample_cluster_def sample_snapshot_def sample_stored_def sample_content_def sample_options_def ExtractOptions_groups_def)

end
