(* ===== verification/Store_Properties.thy ===== *)
theory Store_Properties
  imports Samples
begin

text \<open>
  Properties of the snapshot history (\<open>internal/store\<close>): what is written can be read back, what is
  read was verified, keys are chronological, and retention never changes what a restore selects.
  Backends enter by their contract \<open>object_store\<close>; the in-memory one is the witness.
\<close>

section \<open>Content and checksum\<close>

lemma map_of_content_fields:
  "map_of (content_fields c) ''spec'' = (if Spec c = [] then None else Some (JObject (Spec c)))"
  "map_of (content_fields c) ''labels'' = (if Labels c = [] then None else Some (strmap_json (Labels c)))"
  "map_of (content_fields c) ''annotations'' = (if Annotations c = [] then None else Some (strmap_json (Annotations c)))"
  by (simp_all add: content_fields_def map_of_omit_empty map_of_single_omit_empty del: map_of_append)

lemma content_fields_inject: "content_fields a = content_fields b \<Longrightarrow> a = b"
proof -
  assume "content_fields a = content_fields b"
  then have "map_of (content_fields a) k = map_of (content_fields b) k" for k by simp
  from this [of "''spec''"] this [of "''labels''"] this [of "''annotations''"]
  have "Spec a = Spec b" "Labels a = Labels b" "Annotations a = Annotations b"
    by (auto simp: map_of_content_fields split: if_splits dest: strmap_json_inj)
  then show "a = b" by simp
qed

lemma writable_canonical:
  assumes "writable sha snap"
  shows "\<exists>raw. Canonical (ContentOf snap) = Inr raw \<and> Checksum_of snap = digest sha raw"
    "printable (JObject (content_fields (ContentOf snap)))"
    "nesting (JObject (content_fields (ContentOf snap))) \<le> max_nesting_depth"
proof -
  obtain doc where doc: "snapshot_json snap = Inr doc" "printable doc" "nesting doc \<le> max_nesting_depth"
    using assms by (auto simp: writable_def split: sum.splits)
  obtain es es' where d: "doc = JObject (es @ content_fields (ContentOf snap) @ es')"
    using that doc(1) unfolding snapshot_json_def by (auto split: sum.splits simp del: append.simps)
  then show "printable (JObject (content_fields (ContentOf snap)))" using doc(2) by simp
  show "nesting (JObject (content_fields (ContentOf snap))) \<le> max_nesting_depth"
  proof -
    obtain n where "max_nesting_depth = Suc n" by (metis max_nesting_depth_def numeral_eq_Suc)
    then show ?thesis
      using doc(3) nesting_object_le [of "es @ content_fields (ContentOf snap) @ es'" n]
        nesting_object_le [of "content_fields (ContentOf snap)" n]
      unfolding d by (metis UnCI set_append)
  qed
  show "\<exists>raw. Canonical (ContentOf snap) = Inr raw \<and> Checksum_of snap = digest sha raw"
    using assms by (auto simp: writable_def Checksum_def split: sum.splits)
qed

section \<open>Reading what was written\<close>

text \<open>C8. Writing a snapshot and reading the history gives it back, through any backend that keeps the
  interface's contract and can hold the encoded document: both as the latest one and under the key
  the write reported.\<close>

theorem write_then_read:
  assumes "object_store B objs good fits" "good w" "Store_Backend s = B" "writable sha snap"
    and "\<forall>raw. encode_snapshot snap = Inr raw \<longrightarrow> fits raw"
  shows "\<exists>w'. Write s snap w = (Inr (snapshot_key (Store_Layout s) snap), w') \<and> good w'
    \<and> fst (Latest sha s w') = Inr (snap, snapshot_key (Store_Layout s) snap)
    \<and> fst (Read sha s (snapshot_key (Store_Layout s) snap) w') = Inr snap"
  by (rule object_store.Write_then_read [OF assms])

theorem write_then_read_witness:
  "\<exists>w'. Write sample_store sample_stored NewBackend = (Inr (snapshot_key sample_layout sample_stored), w')
    \<and> fst (Latest sample_sha sample_store w') = Inr (sample_stored, snapshot_key sample_layout sample_stored)"
proof -
  have "Store_Backend sample_store = memory_backend" "Store_Layout sample_store = sample_layout"
    by (simp_all add: sample_store_def)
  then show ?thesis
    using write_then_read [OF mem.object_store_axioms sample_memory_ok _ sample_writable] by fastforce
qed

text \<open>C15. The checksum identifies the content: two snapshots the plugin wrote under the same checksum
  have the same content, unless their canonical encodings are a collision of SHA-256.\<close>

theorem checksum_identifies_content:
  assumes "writable sha a" "writable sha b" "Checksum_of a = Checksum_of b"
  shows "ContentOf a = ContentOf b \<or>
    (\<exists>x y. Canonical (ContentOf a) = Inr x \<and> Canonical (ContentOf b) = Inr y \<and> x \<noteq> y \<and> sha x = sha y)"
proof -
  obtain x y where xy: "Canonical (ContentOf a) = Inr x" "Checksum_of a = digest sha x"
    "Canonical (ContentOf b) = Inr y" "Checksum_of b = digest sha y"
    using writable_canonical(1) assms(1,2) by metis
  show ?thesis
  proof (cases "x = y")
    case True
    then have "JObject (content_fields (ContentOf a)) = JObject (content_fields (ContentOf b))"
      using xy writable_canonical(2,3) [OF assms(1)] writable_canonical(2,3) [OF assms(2)]
      by (intro Marshal_inject [of _ x]) (simp_all add: Canonical_def del: printable.simps nesting.simps)
    then show ?thesis by (simp add: content_fields_inject)
  next
    case False
    moreover have "sha x = sha y" using xy assms(3) by (simp add: digest_def)
    ultimately show ?thesis using xy by blast
  qed
qed

theorem checksum_identifies_content_witness:
  "sample_stored \<noteq> sample_late \<and> Checksum_of sample_stored = Checksum_of sample_late
    \<and> ContentOf sample_stored = ContentOf sample_late"
proof -
  have same: "Checksum_of sample_stored = Checksum_of sample_late" by (simp add: sample_late_def)
  have "CapturedAt sample_stored \<noteq> CapturedAt sample_late" by (simp add: sample_late_def sample_stored_def)
  then have "sample_stored \<noteq> sample_late" by metis
  then show ?thesis
    using checksum_identifies_content [OF sample_writable sample_late_writable same] same injD [OF inj_sample_sha] by metis
qed

text \<open>C16. A listing is exact and chronological: it names every object under the prefix whose name is a
  snapshot key, no other, once each, ordered by time, then generation, then key.\<close>

theorem listing_is_exact:
  assumes "history_reader B objs good" "good w" "Store_Backend s = B"
  shows "\<exists>refs w'. List_refs s w = (Inr refs, w') \<and> objs w' = objs w
    \<and> set refs = refs_of (objs w) (Store_Layout s) \<and> sorted (map ref_order refs) \<and> distinct (map Key refs)"
  using history_reader.List_refs_exact [OF assms] by blast

text \<open>A history with one snapshot and a stray file.\<close>

definition strayed :: memory where
  "strayed = NewBackend\<lparr>Objects := [(SnapshotsPrefix sample_layout @ ''20260101T120000Z-g0000000007-00000000.json'', ''x''),
     (SnapshotsPrefix sample_layout @ ''notes.txt'', ''y'')]\<rparr>"

theorem listing_is_exact_witness:
  "\<exists>refs w'. List_refs sample_store strayed = (Inr refs, w')
     \<and> set refs = {\<lparr>Key = SnapshotsPrefix sample_layout @ ''20260101T120000Z-g0000000007-00000000.json'',
         Ref_CapturedAt = sample_time, Ref_Generation = 7\<rparr>}"
proof -
  let ?k = "SnapshotsPrefix sample_layout @ ''20260101T120000Z-g0000000007-00000000.json''"
  let ?n = "SnapshotsPrefix sample_layout @ ''notes.txt''"
  have keys: "ParseSnapshotKey ?k = Inr (sample_time, 7)" "\<not> isl (ParseSnapshotKey ?k)" "isl (ParseSnapshotKey ?n)"
    "HasPrefix ?k (SnapshotsPrefix sample_layout)" "gmap_ok (Objects strayed)"
    by code_simp+
  have store: "Store_Backend sample_store = memory_backend" "Store_Layout sample_store = sample_layout"
    by (simp_all add: sample_store_def)
  have held: "gmap_get (Objects strayed) k \<noteq> None \<longleftrightarrow> k = ?k \<or> k = ?n" for k
    by (simp add: strayed_def gmap_get_def)
  have "r \<in> refs_of (gmap_get (Objects strayed)) sample_layout \<longleftrightarrow> r = \<lparr>Key = ?k, Ref_CapturedAt = sample_time, Ref_Generation = 7\<rparr>"
    for r
    using keys(1,3,4) unfolding refs_of_def mem_Collect_eq held by (cases r) auto
  then have "refs_of (gmap_get (Objects strayed)) sample_layout = {\<lparr>Key = ?k, Ref_CapturedAt = sample_time, Ref_Generation = 7\<rparr>}"
    by blast
  then show ?thesis
    using listing_is_exact [OF mem.history_reader_axioms _ store(1), of strayed] keys(5) store(2) by (auto simp: memory_ok_def)
qed

section \<open>Keys\<close>

text \<open>C17. A snapshot key can be read back, to the second, and comparing keys as strings compares the
  snapshots chronologically, so a plain listing of the bucket is the history in order: by second, then
  generation, then checksum; for four-digit years, generations of at most ten digits and hexadecimal
  checksums.\<close>

theorem snapshot_keys_are_chronological:
  assumes "four_digit_year t" "generation_fits g" "hex8 (shortHash c)"
    and "four_digit_year t'" "generation_fits g'" "hex8 (shortHash c')"
  shows "ParseSnapshotKey (SnapshotKey l t g c) = Inr (t div nanos_per_second * nanos_per_second, g)
    \<and> (SnapshotKey l t g c < SnapshotKey l t' g' c' \<longleftrightarrow>
      (t div nanos_per_second, g, shortHash c) < (t' div nanos_per_second, g', shortHash c'))"
  using ParseSnapshotKey_SnapshotKey [OF assms(1-3)] SnapshotKey_less [OF assms] by (auto simp: less_prod_def')

theorem snapshot_keys_are_chronological_witness:
  "SnapshotKey sample_layout sample_time 9 ''sha256:0123456789abcdef''
    < SnapshotKey sample_layout sample_time 10 ''sha256:0000000000000000''"
proof -
  have "four_digit_year sample_time" "generation_fits 9" "generation_fits 10"
    "hex8 (shortHash ''sha256:0123456789abcdef'')" "hex8 (shortHash ''sha256:0000000000000000'')"
    by code_simp+
  then show ?thesis
    using snapshot_keys_are_chronological [of sample_time 9 "''sha256:0123456789abcdef''" sample_time 10
        "''sha256:0000000000000000''" sample_layout]
    by simp
qed

section \<open>Retention\<close>

text \<open>C9. Retention deletes only what is superseded: for every deleted snapshot a later one, still
  before the cutoff, is kept; and of the snapshots before the cutoff at most one is kept. So the
  newest snapshot is never deleted.\<close>

theorem retention_keeps_exactly_the_anchor:
  assumes "history p refs" "r \<in> set refs" "Ref_CapturedAt r < cutoff"
  shows "\<exists>!a. a \<in> set refs \<and> Ref_CapturedAt a < cutoff \<and> Key a \<notin> set (PlanRetention refs cutoff)
    \<and> Ref_CapturedAt r \<le> Ref_CapturedAt a"
proof -
  have "\<exists>a. a \<in> set refs \<and> Ref_CapturedAt a < cutoff \<and> Key a \<notin> set (PlanRetention refs cutoff)
      \<and> Ref_CapturedAt r \<le> Ref_CapturedAt a"
    using retention_deletes_only_superseded [OF assms(1,2)] assms(2,3) by blast
  then show ?thesis using retention_keeps_one_before_cutoff [OF assms(1)] by blast
qed

theorem retention_keeps_exactly_the_anchor_witness:
  "\<exists>!a. a \<in> set sample_refs \<and> Ref_CapturedAt a < sample_time + 2 * day
     \<and> Key a \<notin> set (PlanRetention sample_refs (sample_time + 2 * day)) \<and> sample_time \<le> Ref_CapturedAt a"
proof -
  have "sample_ref ''01'' 1 \<in> set sample_refs" by (simp add: sample_refs_def)
  moreover have "Ref_CapturedAt (sample_ref ''01'' 1) = sample_time" by code_simp
  ultimately show ?thesis
    using retention_keeps_exactly_the_anchor [OF sample_history, of "sample_ref ''01'' 1" "sample_time + 2 * day"]
    by (simp add: day_def)
qed

end
