(* ===== verification/Restore_Properties.thy ===== *)
theory Restore_Properties
  imports Samples
begin

text \<open>
  Properties of a restore (\<open>internal/restore\<close>): which snapshot is chosen, which of its values
  become edits, and what the edits leave alone. Where a property is about a stored snapshot it holds
  for any bytes that pass verification, not only for those the plugin wrote.
\<close>

section \<open>Applying a plan\<close>

text \<open>C2. No restore touches what is denied: whatever bytes an accepted snapshot was decoded from and
  whatever the rules, every value at or beneath a denied path of the target, and every label or
  annotation with a denied key, is what it was.\<close>

theorem restore_keeps_denied:
  assumes "decodeSnapshot sha raw key = Inr snap" "BuildPlan C env (Some snap) skips t = Inr p"
    and "Plan_Apply p cluster = Inr cluster'"
  shows "(d \<in> set DeniedPaths \<longrightarrow> GetSegments cluster' (Split d @ r) = GetSegments cluster (Split d @ r))
    \<and> (IsDeniedMetadataKey k \<and> (m = ''labels'' \<or> m = ''annotations'') \<longrightarrow>
        GetSegments cluster' ([''metadata'', m, k] @ r) = GetSegments cluster ([''metadata'', m, k] @ r))"
proof -
  have "content_ok (ContentOf snap)" using decodeSnapshot_verified [OF assms(1)] decode_snapshot_content_ok by blast
  then show ?thesis using plan_keeps_denied [OF assms(2)] plan_keeps_denied_key [OF assms(2)] assms(3) by blast
qed

theorem restore_keeps_denied_witness:
  "GetSegments sample_restored [''spec'', ''bootstrap'', ''recovery'', ''source''] = Some (JString ''db'') \<and>
   GetSegments sample_restored [''metadata'', ''labels'', ''cnpg.io/cluster''] = Some (JString ''db2'')"
proof -
  obtain raw where raw: "decodeSnapshot sample_sha raw ''k'' = Inr sample_stored" using sample_accepted by blast
  have "''spec.bootstrap'' \<in> set DeniedPaths" "Split ''spec.bootstrap'' = [''spec'', ''bootstrap'']"
    "IsDeniedMetadataKey ''cnpg.io/cluster''" "GetSegments sample_target [''spec'', ''bootstrap'', ''recovery'', ''source''] = Some (JString ''db'')"
    "GetSegments sample_target [''metadata'', ''labels'', ''cnpg.io/cluster''] = Some (JString ''db2'')"
    by code_simp+
  then show ?thesis
    using restore_keeps_denied [OF raw sample_build sample_apply, of "''spec.bootstrap''" "[''recovery'', ''source'']"]
      restore_keeps_denied [OF raw sample_build sample_apply, of _ "[]" "''cnpg.io/cluster''" "''labels''"]
    by simp
qed

text \<open>C3. Every restored value takes effect: after the plan is applied, each captured value that is
  neither denied nor skipped is in the target, transformed if a transform names its path.\<close>

theorem restore_takes_effect:
  assumes "decodeSnapshot sha raw key = Inr snap" "BuildPlan C env (Some snap) skips t = Inr p"
    and "Plan_Apply p cluster = Inr cluster'"
    and "l \<in> set (WalkLeaves (restorableTree (ContentOf snap)))" "restored skips l"
  shows "\<exists>v. restored_value C env t l = Inr v \<and> GetSegments cluster' (Segments l) = Some v"
proof -
  have "content_ok (ContentOf snap)" using decodeSnapshot_verified [OF assms(1)] decode_snapshot_content_ok by blast
  moreover obtain v where "restored_value C env t l = Inr v"
    using BuildPlan_changes(2) [OF assms(2,4,5)] by blast
  ultimately show ?thesis using plan_takes_effect [OF assms(2) _ assms(3-5)] by blast
qed

theorem restore_takes_effect_witness:
  "GetSegments sample_restored [''spec'', ''postgresql'', ''parameters'', ''work_mem''] = Some (JString ''8MB'')"
proof -
  obtain raw where raw: "decodeSnapshot sample_sha raw ''k'' = Inr sample_stored" using sample_accepted by blast
  let ?l = "\<lparr>Segments = [''spec'', ''postgresql'', ''parameters'', ''work_mem''], LeafValue = JString ''4MB''\<rparr>"
  have "List.member (WalkLeaves (restorableTree (ContentOf sample_stored))) ?l" "restored sample_skips ?l"
    "restored_value sample_cnpg sample_celenv sample_transforms ?l = Inr (JString ''8MB'')"
    by code_simp+
  then show ?thesis
    using restore_takes_effect [OF raw sample_build sample_apply, of ?l] by (simp add: List.member_iff)
qed

text \<open>C12. A restore changes nothing else: a path of the target that neither lies on, above nor beneath
  a restored value keeps what it had.\<close>

theorem restore_frame:
  assumes "BuildPlan C env (Some snap) skips t = Inr p" "Plan_Apply p cluster = Inr cluster'"
    and "\<forall>l \<in> set (WalkLeaves (restorableTree (ContentOf snap))). restored skips l \<longrightarrow> parallel (Segments l) q"
  shows "GetSegments cluster' q = GetSegments cluster q"
  using plan_frame [OF assms(1,2)] assms(3) by blast

theorem restore_frame_witness:
  "GetSegments sample_restored [''metadata'', ''name''] = Some (JString ''db2'')"
proof -
  have "list_all (\<lambda>l. restored sample_skips l \<longrightarrow> \<not> prefix (Segments l) [''metadata'', ''name'']
      \<and> \<not> prefix [''metadata'', ''name''] (Segments l)) (WalkLeaves (restorableTree (ContentOf sample_stored)))"
    "GetSegments sample_target [''metadata'', ''name''] = Some (JString ''db2'')"
    by code_simp+
  then show ?thesis
    using restore_frame [OF sample_build sample_apply, of "[''metadata'', ''name'']"]
    by (simp add: list_all_iff parallel_def)
qed

text \<open>C11. A skipped value keeps the manifest's: whatever a skip rule matches in the snapshot leaves the
  target's value at that path, and beneath it, as the manifest has it.\<close>

theorem restore_keeps_skipped:
  assumes "decodeSnapshot sha raw key = Inr snap" "BuildPlan C env (Some snap) skips t = Inr p"
    and "Plan_Apply p cluster = Inr cluster'"
    and "l \<in> set (WalkLeaves (restorableTree (ContentOf snap)))" "Skips skips (Leaf_Path l) \<noteq> None"
  shows "GetSegments cluster' (Segments l @ r) = GetSegments cluster (Segments l @ r)"
proof -
  have "content_ok (ContentOf snap)" using decodeSnapshot_verified [OF assms(1)] decode_snapshot_content_ok by blast
  then show ?thesis by (rule plan_keeps_skipped [OF assms(2) _ assms(3-5)])
qed

theorem restore_keeps_skipped_witness:
  "GetSegments sample_restored [''spec'', ''instances''] = Some (JNumber ''1'')"
proof -
  obtain raw where raw: "decodeSnapshot sample_sha raw ''k'' = Inr sample_stored" using sample_accepted by blast
  let ?l = "\<lparr>Segments = [''spec'', ''instances''], LeafValue = JNumber ''3''\<rparr>"
  have "List.member (WalkLeaves (restorableTree (ContentOf sample_stored))) ?l"
    "Skips sample_skips (Leaf_Path ?l) = Some ''path spec.instances''"
    "GetSegments sample_target [''spec'', ''instances''] = Some (JNumber ''1'')"
    by code_simp+
  then show ?thesis
    using restore_keeps_skipped [OF raw sample_build sample_apply, of ?l "[]"] by (simp add: List.member_iff)
qed

text \<open>C13. A plan accounts for every captured value: it is a change when neither denied nor skipped, and
  listed among the exclusions when it is; there is no other change and no other exclusion.\<close>

theorem plan_accounts_for_every_leaf:
  assumes "BuildPlan C env (Some snap) skips t = Inr p"
  shows "set (map segments (Changes p)) =
      Segments ` {l \<in> set (WalkLeaves (restorableTree (ContentOf snap))). restored skips l}
    \<and> set (map Exclusion_Path (Exclusions p)) =
      Leaf_Path ` {l \<in> set (WalkLeaves (restorableTree (ContentOf snap))). \<not> restored skips l}"
proof
  show "set (map segments (Changes p)) =
      Segments ` {l \<in> set (WalkLeaves (restorableTree (ContentOf snap))). restored skips l}"
  proof
    show "set (map segments (Changes p)) \<subseteq>
        Segments ` {l \<in> set (WalkLeaves (restorableTree (ContentOf snap))). restored skips l}"
      by (auto simp: change_of_def elim!: BuildPlan_change_leaf [OF assms])
    show "Segments ` {l \<in> set (WalkLeaves (restorableTree (ContentOf snap))). restored skips l}
        \<subseteq> set (map segments (Changes p))"
    proof (intro subsetI, elim imageE, simp)
      fix l assume "l \<in> set (WalkLeaves (restorableTree (ContentOf snap))) \<and> restored skips l"
      then obtain v where "change_of t l v \<in> set (Changes p)" using BuildPlan_changes(2) [OF assms] by blast
      then show "Segments l \<in> segments ` set (Changes p)" by (force simp: change_of_def)
    qed
  qed
qed (rule BuildPlan_exclusions [OF assms])

theorem plan_accounts_for_every_leaf_witness:
  "set (map segments (Changes sample_plan)) =
     Segments ` {l \<in> set (WalkLeaves (restorableTree (ContentOf sample_stored))). restored sample_skips l}"
  using plan_accounts_for_every_leaf [OF sample_build] by (rule conjunct1)

text \<open>C14. No transform is silently ignored: when a plan is built, each transform has changed a value,
  or is told to tolerate a missing one and the snapshot has neither a restorable value at its path
  nor any beneath it.\<close>

theorem every_transform_fires:
  assumes "NewTransformSet env rules = Inr t" "BuildPlan C env (Some snap) skips t = Inr p"
    and "rule \<in> set rules"
  shows "(\<exists>c \<in> set (Changes p). Change_Path c = Transform_Path rule \<and> transformed c)
    \<or> toleratesMissing t (Transform_Path rule)
      \<and> (\<forall>l \<in> set (WalkLeaves (restorableTree (ContentOf snap))).
          (Leaf_Path l = Transform_Path rule \<longrightarrow> denied l) \<and> \<not> HasPrefix (Leaf_Path l) (Transform_Path rule @ ''.''))"
proof -
  have "Transform_Path rule \<in> set (Paths t)" "Program t (Transform_Path rule) \<noteq> None"
    using NewTransformSet_paths [OF assms(1)] assms(3) by auto
  then show ?thesis using BuildPlan_transforms [OF assms(2)] by blast
qed

theorem every_transform_fires_witness:
  "(\<exists>c \<in> set (Changes sample_plan). Change_Path c = ''spec.postgresql.parameters.work_mem'' \<and> transformed c)
   \<or> toleratesMissing sample_transforms ''spec.postgresql.parameters.work_mem''"
proof -
  let ?r = "\<lparr>Transform_Path = ''spec.postgresql.parameters.work_mem'', OnMissing = '''', Expression = ''8MB''\<rparr>"
  have "NewTransformSet sample_celenv [?r] = Inr sample_transforms" by code_simp
  then show ?thesis using every_transform_fires [OF _ sample_build, of "[?r]" ?r] by auto
qed

section \<open>Choosing a snapshot\<close>

text \<open>C10. A point-in-time selection works to the second, which is what keys carry. It returns a snapshot
  precisely when it verifies and its key is the newest of those whose second is not after the moment's;
  in particular it refuses when every key is later. Where snapshots are filed under the keys of their
  content, as \<open>Write\<close> files them, the one returned was captured in a second no later than the
  moment's, and no snapshot of the history captured up to that second comes after it in second and
  generation. Within the moment's own second a snapshot may be captured after the moment and still be
  returned, as it is in the witness.\<close>

theorem selection_is_newest_at_or_before:
  assumes "history_reader B objs good" "good w" "Store_Backend (sel_store S) = B"
  shows "(fst (SelectAtOrBefore S moment w) = Inr \<lparr>Res_Snapshot = snap, Res_Key = key, Res_Target = None\<rparr> \<longleftrightarrow>
    (\<exists>r raw. r \<in> refs_of (objs w) (Store_Layout (sel_store S)) \<and> Ref_CapturedAt r \<le> moment
      \<and> (\<forall>r' \<in> refs_of (objs w) (Store_Layout (sel_store S)). Ref_CapturedAt r' \<le> moment \<longrightarrow> ref_order r' \<le> ref_order r)
      \<and> objs w (Key r) = Some raw \<and> decodeSnapshot (sel_sha S) raw (Key r) = Inr snap \<and> key = Key r))
    \<and> (filed_by_content (sel_sha S) (Store_Layout (sel_store S)) (objs w)
        \<and> fst (SelectAtOrBefore S moment w) = Inr \<lparr>Res_Snapshot = snap, Res_Key = key, Res_Target = None\<rparr> \<longrightarrow>
      CapturedAt snap div nanos_per_second \<le> moment div nanos_per_second
      \<and> (\<forall>k raw other. objs w k = Some raw \<and> HasPrefix k (SnapshotsPrefix (Store_Layout (sel_store S)))
          \<and> decodeSnapshot (sel_sha S) raw k = Inr other \<and> CapturedAt other div nanos_per_second \<le> moment div nanos_per_second \<longrightarrow>
          (CapturedAt other div nanos_per_second, Generation other) \<le> (CapturedAt snap div nanos_per_second, Generation snap)))"
proof (intro conjI impI)
  show "fst (SelectAtOrBefore S moment w) = Inr \<lparr>Res_Snapshot = snap, Res_Key = key, Res_Target = None\<rparr> \<longleftrightarrow>
    (\<exists>r raw. r \<in> refs_of (objs w) (Store_Layout (sel_store S)) \<and> Ref_CapturedAt r \<le> moment
      \<and> (\<forall>r' \<in> refs_of (objs w) (Store_Layout (sel_store S)). Ref_CapturedAt r' \<le> moment \<longrightarrow> ref_order r' \<le> ref_order r)
      \<and> objs w (Key r) = Some raw \<and> decodeSnapshot (sel_sha S) raw (Key r) = Inr snap \<and> key = Key r)"
    using history_reader.SelectAtOrBefore_newest [OF assms, of moment]
      history_reader.SelectAtOrBefore_reads [OF assms, of _ moment]
    by fastforce
next
  assume *: "filed_by_content (sel_sha S) (Store_Layout (sel_store S)) (objs w)
    \<and> fst (SelectAtOrBefore S moment w) = Inr \<lparr>Res_Snapshot = snap, Res_Key = key, Res_Target = None\<rparr>"
  note captured = history_reader.SelectAtOrBefore_captured [OF assms *[THEN conjunct2] *[THEN conjunct1], unfolded Resolution.simps]
  show "CapturedAt snap div nanos_per_second \<le> moment div nanos_per_second" by (rule captured(1))
  show "\<forall>k raw other. objs w k = Some raw \<and> HasPrefix k (SnapshotsPrefix (Store_Layout (sel_store S)))
      \<and> decodeSnapshot (sel_sha S) raw k = Inr other \<and> CapturedAt other div nanos_per_second \<le> moment div nanos_per_second \<longrightarrow>
      (CapturedAt other div nanos_per_second, Generation other) \<le> (CapturedAt snap div nanos_per_second, Generation snap)"
    by (intro allI impI) (elim conjE, rule captured(2))
qed

text \<open>A history of one snapshot, captured a nanosecond after noon.\<close>

definition sample_selector :: "memory selector" where
  "sample_selector = \<lparr>sel_sha = sample_sha, sel_store = sample_store, sel_ParseTargetTime = ParseRFC3339\<rparr>"

lemma sample_late_keyable: "keyable sample_late"
  unfolding keyable_def by code_simp

lemma refs_of_single:
  assumes "\<And>k x. objs k = Some x \<and> HasPrefix k (SnapshotsPrefix l) \<longleftrightarrow> k = key \<and> x = raw"
    and "ParseSnapshotKey key = Inr (t, g)"
  shows "refs_of objs l = {\<lparr>Key = key, Ref_CapturedAt = t, Ref_Generation = g\<rparr>}"
proof -
  have stored: "(objs k \<noteq> None \<and> HasPrefix k (SnapshotsPrefix l)) = (k = key)" for k
  proof
    assume "objs k \<noteq> None \<and> HasPrefix k (SnapshotsPrefix l)"
    then obtain x where "objs k = Some x \<and> HasPrefix k (SnapshotsPrefix l)" by blast
    then show "k = key" unfolding assms(1) by (rule conjunct1)
  next
    assume "k = key"
    then have "objs k = Some raw \<and> HasPrefix k (SnapshotsPrefix l)" unfolding assms(1) by simp
    then show "objs k \<noteq> None \<and> HasPrefix k (SnapshotsPrefix l)" by simp
  qed
  have "r \<in> refs_of objs l \<longleftrightarrow> Key r = key \<and> Ref_CapturedAt r = t \<and> Ref_Generation r = g" for r
  proof
    assume "r \<in> refs_of objs l"
    then have "Key r = key" "ParseSnapshotKey (Key r) = Inr (Ref_CapturedAt r, Ref_Generation r)"
      using stored [of "Key r"] by (simp_all add: refs_of_def)
    then show "Key r = key \<and> Ref_CapturedAt r = t \<and> Ref_Generation r = g" using assms(2) by simp
  next
    assume "Key r = key \<and> Ref_CapturedAt r = t \<and> Ref_Generation r = g"
    then show "r \<in> refs_of objs l" using stored [of "Key r"] assms(2) by (simp add: refs_of_def)
  qed
  moreover have "Key r = key \<and> Ref_CapturedAt r = t \<and> Ref_Generation r = g \<longleftrightarrow>
      r = \<lparr>Key = key, Ref_CapturedAt = t, Ref_Generation = g\<rparr>" for r
    by (cases r) simp
  ultimately show ?thesis by blast
qed

lemma sample_late_stored:
  obtains w raw where "Write sample_store sample_late NewBackend = (Inr (snapshot_key sample_layout sample_late), w)" "memory_ok w"
    "gmap_get (Objects w) = (gmap_get (Objects NewBackend))(snapshot_key sample_layout sample_late := Some raw, LatestKey sample_layout := Some raw)"
    "\<forall>k. decodeSnapshot sample_sha raw k = Inr sample_late"
proof -
  obtain raw where raw: "encode_snapshot sample_late = Inr raw" "\<forall>k. decodeSnapshot sample_sha raw k = Inr sample_late"
    using decodeSnapshot_encoded [OF sample_late_writable] by blast
  have "Store_Backend sample_store = memory_backend" "Store_Layout sample_store = sample_layout" by (simp_all add: sample_store_def)
  then obtain w where "Write sample_store sample_late NewBackend = (Inr (snapshot_key sample_layout sample_late), w)" "memory_ok w"
    "gmap_get (Objects w) = (gmap_get (Objects NewBackend))(snapshot_key sample_layout sample_late := Some raw, LatestKey sample_layout := Some raw)"
    using mem.Write_stores [OF sample_memory_ok _ raw(1), of sample_store] by metis
  then show thesis using that raw(2) by blast
qed

theorem selection_is_newest_at_or_before_witness:
  "\<exists>w key. Write sample_store sample_late NewBackend = (Inr key, w)
    \<and> fst (SelectAtOrBefore sample_selector sample_time w) = Inr \<lparr>Res_Snapshot = sample_late, Res_Key = key, Res_Target = None\<rparr>
    \<and> sample_time < CapturedAt sample_late \<and> CapturedAt sample_late div nanos_per_second \<le> sample_time div nanos_per_second
    \<and> (\<nexists>snap key. fst (SelectAtOrBefore sample_selector (sample_time - 1) w)
        = Inr \<lparr>Res_Snapshot = snap, Res_Key = key, Res_Target = None\<rparr>)"
proof -
  let ?key = "snapshot_key sample_layout sample_late"
  obtain w raw where w: "Write sample_store sample_late NewBackend = (Inr ?key, w)" "memory_ok w"
    "gmap_get (Objects w) = (gmap_get (Objects NewBackend))(?key := Some raw, LatestKey sample_layout := Some raw)"
    "\<forall>k. decodeSnapshot sample_sha raw k = Inr sample_late"
    by (rule sample_late_stored)
  have sel: "sel_sha sample_selector = sample_sha" "Store_Backend (sel_store sample_selector) = memory_backend"
    "Store_Layout (sel_store sample_selector) = sample_layout"
    by (simp_all add: sample_selector_def sample_store_def)
  have at: "CapturedAt sample_late div nanos_per_second * nanos_per_second = sample_time" "sample_time < CapturedAt sample_late"
    by code_simp+
  have under: "gmap_get (Objects w) k = Some x \<and> HasPrefix k (SnapshotsPrefix sample_layout) \<longleftrightarrow> k = ?key \<and> x = raw" for k x
    using w(3) LatestKey_not_snapshot [of sample_layout] snapshot_key_prefix [of sample_layout sample_late]
      snapshot_key_not_latest [of sample_layout sample_late]
    by (auto simp: NewBackend_def)
  have refs: "refs_of (gmap_get (Objects w)) sample_layout =
      {\<lparr>Key = ?key, Ref_CapturedAt = sample_time, Ref_Generation = Generation sample_late\<rparr>}"
    by (rule refs_of_single) (use under keyable_parsed [OF sample_late_keyable, of sample_layout] at(1) in simp_all)
  have filed: "filed_by_content sample_sha sample_layout (gmap_get (Objects w))"
    unfolding filed_by_content_def
  proof (intro allI impI, elim conjE)
    fix k x snap
    assume "gmap_get (Objects w) k = Some x" "HasPrefix k (SnapshotsPrefix sample_layout)" "decodeSnapshot sample_sha x k = Inr snap"
    moreover from this have "k = ?key" "x = raw" using under by blast+
    ultimately show "keyable snap \<and> k = snapshot_key sample_layout snap" using w(4) sample_late_keyable by simp
  qed
  note choice = selection_is_newest_at_or_before [OF mem.history_reader_axioms w(2) sel(2), unfolded sel(1,3)]
  have found: "fst (SelectAtOrBefore sample_selector sample_time w)
      = Inr \<lparr>Res_Snapshot = sample_late, Res_Key = ?key, Res_Target = None\<rparr>"
    using choice [of sample_time sample_late ?key, THEN conjunct1] under [of ?key raw] w(4) by (simp add: refs)
  moreover have "CapturedAt sample_late div nanos_per_second \<le> sample_time div nanos_per_second"
    using choice [of sample_time sample_late ?key, THEN conjunct2] filed found by blast
  moreover have "fst (SelectAtOrBefore sample_selector (sample_time - 1) w)
      \<noteq> Inr \<lparr>Res_Snapshot = snap, Res_Key = key, Res_Target = None\<rparr>" for snap key
    using choice [of "sample_time - 1" snap key, THEN conjunct1] by (simp add: refs)
  ultimately show ?thesis using w(1) at(2) by blast
qed

text \<open>The moment a recovery aligns with: an explicit \<open>targetTime\<close> decides alone; otherwise a moment
  is only ever the \<open>stoppedAt\<close> of the Backup the manifest names, by id before by name, and reported as
  approximate exactly when another, unmappable target is set beside the id.\<close>

lemma recovery_moment_source:
  assumes "ResolveRecoveryTarget P cluster ns (Some lookup) = Inr t" "HasMoment t"
  shows "(TKind t = TargetTime \<and>
      (\<exists>raw. stringAt cluster ''spec.bootstrap.recovery.recoveryTarget.targetTime'' = Some raw \<and> P raw = Inr (Moment t)))
    \<or> (stringAt cluster ''spec.bootstrap.recovery.recoveryTarget.targetTime'' = None \<and>
       (\<exists>backup id. StoppedAt backup = Some (Moment t) \<and>
        (if TKind t = TargetBackupName
         then stringAt cluster ''spec.bootstrap.recovery.backup.name'' = Some id \<and> ByName lookup ns id = Inr backup
           \<and> stringAt cluster ''spec.bootstrap.recovery.recoveryTarget.backupID'' = None \<and> opaqueTargetIn cluster = ''''
         else stringAt cluster ''spec.bootstrap.recovery.recoveryTarget.backupID'' = Some id
           \<and> ByBackupID lookup ns id = Inr backup
           \<and> TKind t = (if opaqueTargetIn cluster = '''' then TargetBackupID else TargetApproximate))))"
  using assms
  by (auto simp: ResolveRecoveryTarget_def no_moment_def resolutionFromBackup_def Let_def
      split: option.splits if_splits sum.splits)

section \<open>Retention windows\<close>

text \<open>C19. A retention window of \<open>n\<close> days, weeks or months of thirty days is that many days in 64-bit
  nanoseconds: exactly, as long as the total fits, but a total between \<open>2 ^ 63\<close> and \<open>2 ^ 64\<close> (106752 to
  213503 days, which the resource's pattern admits) comes out negative, which puts the retention
  cutoff in the future.\<close>

theorem retention_window:
  assumes "unit_days u \<noteq> 0" "1 \<le> n" "is_int64 n"
  shows "\<exists>d. ParseRetentionWindow (FormatInt n @ [u]) = Inr d \<and> d = int64 (n * unit_days u * day)
    \<and> (n * unit_days u * day < 2 ^ 63 \<longrightarrow> d = n * unit_days u * day)
    \<and> (2 ^ 63 \<le> n * unit_days u * day \<and> n * unit_days u * day < 2 ^ 64 \<longrightarrow>
        d = n * unit_days u * day - 2 ^ 64 \<and> d < 0)"
proof -
  let ?total = "n * unit_days u * day"
  have "0 \<le> ?total" using assms(2) by (auto simp: unit_days_def day_def)
  then have "?total < 2 ^ 63 \<Longrightarrow> int64 ?total = ?total" by (simp add: is_int64_def)
  then show ?thesis
    using ParseRetentionWindow_days [OF assms] int64_wrapped [of ?total] by simp
qed

theorem retention_window_witness:
  "ParseRetentionWindow ''6m'' = Inr (180 * day) \<and> ParseRetentionWindow ''200000d'' = Inr (- 1166744073709551616)"
proof -
  have "FormatInt 6 @ [CHR ''m''] = ''6m''" "unit_days (CHR ''m'') = 30" "FormatInt 200000 @ [CHR ''d''] = ''200000d''"
    "unit_days (CHR ''d'') = 1"
    by (simp_all add: FormatInt_def FormatUint.simps digit_def char_of_def bit_iff_odd unit_days_def)
  then show ?thesis
    using retention_window [of "CHR ''m''" 6] retention_window [of "CHR ''d''" 200000]
    by (simp add: is_int64_def day_def)
qed

end
