(* ===== verification/S3_Backend.thy ===== *)
theory S3_Backend
  imports Snapshot_Store
begin

text \<open>
  \<open>internal/store/s3.go\<close>: the S3 implementation of the backend interface. The AWS client is a
  parameter, a record of the five requests the code makes over a world \<open>'w\<close>; what its errors carry
  is what \<open>errors.As\<close> finds in them. A listing reads pages until there is no continuation token; the
  context of the call ends it otherwise: \<open>S3_page_limit\<close> is the number of pages its deadline leaves time
  for in a world, past which the listing fails as the cancelled request does, and every theorem about a
  listing says that enough pages are allowed.
\<close>

section \<open>The client\<close>

datatype s3_exception = NoSuchKey | NotFound | NoSuchBucket | BucketAlreadyOwnedByYou | BucketAlreadyExists

text \<open>The modelled exception, the API error code with its message, the HTTP status, and the rendered text.\<close>

record s3_error =
  s3_type :: "s3_exception option"
  s3_api :: "(string \<times> string) option"
  s3_status :: "int option"
  s3_text :: string

text \<open>An object's body: the bytes it delivers and whether reading fails after them.\<close>

record s3_object =
  s3_body :: bytes
  s3_broken :: "error option"

text \<open>A page of a listing and the token the paginator keeps, none when the listing is complete.\<close>

record s3_page =
  s3_contents :: "string option list"
  s3_next :: "string option"

record 'w s3_client =
  GetObject :: "string \<Rightarrow> string \<Rightarrow> 'w \<Rightarrow> (s3_error + s3_object) \<times> 'w"
  PutObject :: "string \<Rightarrow> string \<Rightarrow> bytes \<Rightarrow> 'w \<Rightarrow> s3_error option \<times> 'w"
  CreateBucket :: "string \<Rightarrow> 'w \<Rightarrow> s3_error option \<times> 'w"
  ListObjectsV2 :: "string \<Rightarrow> string \<Rightarrow> string option \<Rightarrow> int option \<Rightarrow> 'w \<Rightarrow> (s3_error + s3_page) \<times> 'w"
  DeleteObject :: "string \<Rightarrow> string \<Rightarrow> 'w \<Rightarrow> s3_error option \<times> 'w"

definition sdk_error :: "s3_error \<Rightarrow> error" where
  "sdk_error e = Errorf (s3_text e) []"

section \<open>Errors\<close>

definition isNotFound :: "s3_error \<Rightarrow> bool" where
  "isNotFound err =
     (if s3_type err = Some NoSuchKey then True
      else if s3_type err = Some NotFound then True
      else if (case s3_api err of Some (code, _) \<Rightarrow> code = ''NoSuchKey'' \<or> code = ''NotFound'' | None \<Rightarrow> False) then True
      else s3_status err = Some 404)"

definition isNoSuchBucket :: "s3_error \<Rightarrow> bool" where
  "isNoSuchBucket err =
     (if s3_type err = Some NoSuchBucket then True
      else (case s3_api err of Some (code, _) \<Rightarrow> code = ''NoSuchBucket'' | None \<Rightarrow> False))"

definition describeS3Error :: "s3_error \<Rightarrow> string" where
  "describeS3Error err =
     (case s3_api err of Some (code, message) \<Rightarrow> code @ '': '' @ message | None \<Rightarrow> s3_text err)"

section \<open>The backend\<close>

record 'w s3Backend =
  S3_client :: "'w s3_client"
  S3_bucket :: string
  S3_page_limit :: "'w \<Rightarrow> nat"

definition maxObjectSize :: nat where
  "maxObjectSize = 4 * 2 ^ 20"

text \<open>\<open>io.ReadAll(io.LimitReader(body, n))\<close>: a failure past the limit is not seen.\<close>

definition read_limited :: "nat \<Rightarrow> s3_object \<Rightarrow> error + bytes" where
  "read_limited n out =
     (case s3_broken out of
        Some err \<Rightarrow> if length (s3_body out) < n then Inl err else Inr (take n (s3_body out))
      | None \<Rightarrow> Inr (take n (s3_body out)))"

definition s3_Get :: "'w s3Backend \<Rightarrow> string \<Rightarrow> 'w \<Rightarrow> (error + bytes) \<times> 'w" where
  "s3_Get b key w =
     (case GetObject (S3_client b) (S3_bucket b) key w of
        (Inl err, w) \<Rightarrow>
          if isNotFound err then (Inl (Wrapped '''' [S3_bucket b, key] (Sentinel ErrNotFound)), w)
          else (Inl (Wrapped ''while reading'' [S3_bucket b, key] (sdk_error err)), w)
      | (Inr out, w) \<Rightarrow>
          (case read_limited (maxObjectSize + 1) out of
             Inl err \<Rightarrow> (Inl (Wrapped ''while reading body of'' [S3_bucket b, key] err), w)
           | Inr data \<Rightarrow>
               if length data > maxObjectSize
               then (Inl (Errorf ''is larger than a snapshot this plugin wrote'' [S3_bucket b, key]), w)
               else (Inr data, w)))"

definition putObject :: "'w s3Backend \<Rightarrow> string \<Rightarrow> bytes \<Rightarrow> 'w \<Rightarrow> s3_error option \<times> 'w" where
  "putObject b key data w = PutObject (S3_client b) (S3_bucket b) key data w"

definition createBucket :: "'w s3Backend \<Rightarrow> 'w \<Rightarrow> s3_error option \<times> 'w" where
  "createBucket b w =
     (case CreateBucket (S3_client b) (S3_bucket b) w of
        (None, w) \<Rightarrow> (None, w)
      | (Some err, w) \<Rightarrow>
          if s3_type err = Some BucketAlreadyOwnedByYou then (None, w)
          else if s3_type err = Some BucketAlreadyExists then (None, w)
          else if (case s3_api err of
                     Some (code, _) \<Rightarrow> code = ''BucketAlreadyOwnedByYou'' \<or> code = ''BucketAlreadyExists''
                   | None \<Rightarrow> False) then (None, w)
          else (Some err, w))"

definition s3_Put :: "'w s3Backend \<Rightarrow> string \<Rightarrow> bytes \<Rightarrow> 'w \<Rightarrow> error option \<times> 'w" where
  "s3_Put b key data w =
     (case putObject b key data w of
        (None, w) \<Rightarrow> (None, w)
      | (Some err, w) \<Rightarrow>
          if \<not> isNoSuchBucket err then (Some (Wrapped ''while writing'' [S3_bucket b, key] (sdk_error err)), w)
          else (case createBucket b w of
                  (Some createErr, w) \<Rightarrow>
                    (Some (Wrapped ''bucket does not exist and could not be created''
                       [S3_bucket b, s3_text createErr] (sdk_error err)), w)
                | (None, w) \<Rightarrow>
                    (case putObject b key data w of
                       (Some err, w) \<Rightarrow>
                         (Some (Wrapped ''while writing after creating the bucket'' [S3_bucket b, key] (sdk_error err)), w)
                     | (None, w) \<Rightarrow> (None, w))))"

text \<open>The keys of a page; an entry without a key is skipped.\<close>

definition page_keys :: "s3_page \<Rightarrow> string list" where
  "page_keys page = List.map_filter id (s3_contents page)"

definition more_pages :: "s3_page \<Rightarrow> bool" where
  "more_pages page = (case s3_next page of None \<Rightarrow> False | Some token \<Rightarrow> token \<noteq> '''')"

fun list_pages :: "'w s3Backend \<Rightarrow> string \<Rightarrow> nat \<Rightarrow> string option \<Rightarrow> string list \<Rightarrow> 'w \<Rightarrow> (error + string list) \<times> 'w" where
  "list_pages b p 0 token keys w =
     (Inl (Wrapped ''while listing'' [S3_bucket b, p] (Errorf ''context deadline exceeded'' [])), w)"
| "list_pages b p (Suc n) token keys w =
     (case ListObjectsV2 (S3_client b) (S3_bucket b) p token None w of
        (Inl err, w) \<Rightarrow> (Inl (Wrapped ''while listing'' [S3_bucket b, p] (sdk_error err)), w)
      | (Inr page, w) \<Rightarrow>
          (let keys = keys @ page_keys page in
           if more_pages page then list_pages b p n (s3_next page) keys w else (Inr keys, w)))"

definition s3_List :: "'w s3Backend \<Rightarrow> string \<Rightarrow> 'w \<Rightarrow> (error + string list) \<times> 'w" where
  "s3_List b p w =
     (case list_pages b p (S3_page_limit b w) None [] w of
        (Inl err, w) \<Rightarrow> (Inl err, w)
      | (Inr keys, w) \<Rightarrow> (Inr (sort keys), w))"

definition s3_Check :: "'w s3Backend \<Rightarrow> string \<Rightarrow> 'w \<Rightarrow> error option \<times> 'w" where
  "s3_Check b p w =
     (case ListObjectsV2 (S3_client b) (S3_bucket b) p None (Some 1) w of
        (Inr _, w) \<Rightarrow> (None, w)
      | (Inl err, w) \<Rightarrow>
          if isNoSuchBucket err then (Some (Wrapped '''' [S3_bucket b] (Sentinel ErrBucketNotFound)), w)
          else (Some (Errorf ''cannot list'' [S3_bucket b, p, describeS3Error err]), w))"

definition s3_Delete :: "'w s3Backend \<Rightarrow> string \<Rightarrow> 'w \<Rightarrow> error option \<times> 'w" where
  "s3_Delete b key w =
     (case DeleteObject (S3_client b) (S3_bucket b) key w of
        (None, w) \<Rightarrow> (None, w)
      | (Some err, w) \<Rightarrow>
          if \<not> isNotFound err then (Some (Wrapped ''while deleting'' [S3_bucket b, key] (sdk_error err)), w)
          else (None, w))"

definition s3_backend :: "'w s3Backend \<Rightarrow> 'w Backend" where
  "s3_backend b = \<lparr>B_Check = s3_Check b, B_Get = s3_Get b, B_Put = s3_Put b, B_List = s3_List b,
     B_Delete = s3_Delete b\<rparr>"

section \<open>Building a client\<close>

record S3Options =
  Opt_Bucket :: string
  Opt_Region :: string
  Opt_EndpointURL :: string
  Opt_AccessKeyID :: string
  Opt_SecretAccessKey :: string
  Opt_SessionToken :: string
  Opt_CABundle :: bytes
  Opt_InheritFromIAMRole :: bool

text \<open>What is handed to the SDK: region, static credentials, trusted bundle, endpoint, addressing style.\<close>

record s3_settings =
  set_region :: string
  set_credentials :: "(string \<times> string \<times> string) option"
  set_bundle :: "bytes option"
  set_endpoint :: "string option"
  set_path_style :: bool

record 'w aws =
  valid_PEM :: "bytes \<Rightarrow> bool"
  LoadDefaultConfig :: "s3_settings \<Rightarrow> error option"
  NewFromConfig :: "s3_settings \<Rightarrow> 'w s3_client"
  aws_page_limit :: "'w \<Rightarrow> nat"

definition httpClientWithCA :: "'w aws \<Rightarrow> bytes \<Rightarrow> error + bytes" where
  "httpClientWithCA A bundle =
     (if \<not> valid_PEM A bundle then Inl (Errorf ''endpointCA did not contain any valid PEM certificate'' [])
      else Inr bundle)"

definition NewS3Backend :: "'w aws \<Rightarrow> S3Options \<Rightarrow> error + 'w s3Backend" where
  "NewS3Backend A opts =
     (if Opt_Bucket opts = '''' then Inl (Errorf ''s3 backend requires a bucket'' [])
      else let region = (if Opt_Region opts = '''' then ''us-east-1'' else Opt_Region opts);
               creds = (if \<not> Opt_InheritFromIAMRole opts \<and> Opt_AccessKeyID opts \<noteq> ''''
                 then Some (Opt_AccessKeyID opts, Opt_SecretAccessKey opts, Opt_SessionToken opts) else None)
           in (case (if Opt_CABundle opts \<noteq> [] then map_sum id Some (httpClientWithCA A (Opt_CABundle opts)) else Inr None) of
                 Inl err \<Rightarrow> Inl err
               | Inr bundle \<Rightarrow>
                   let settings = \<lparr>set_region = region, set_credentials = creds, set_bundle = bundle,
                         set_endpoint = (if Opt_EndpointURL opts \<noteq> '''' then Some (Opt_EndpointURL opts) else None),
                         set_path_style = (Opt_EndpointURL opts \<noteq> '''')\<rparr>
                   in (case LoadDefaultConfig A settings of
                         Some err \<Rightarrow> Inl (Wrapped ''while building AWS configuration'' [] err)
                       | None \<Rightarrow> Inr \<lparr>S3_client = NewFromConfig A settings, S3_bucket = Opt_Bucket opts,
                                     S3_page_limit = aws_page_limit A\<rparr>)))"

section \<open>Bounds\<close>

text \<open>However large the object, no read returns more than the bound.\<close>

lemma s3_Get_bounded: "s3_Get b key w = (Inr data, w') \<Longrightarrow> length data \<le> maxObjectSize"
  by (auto simp: s3_Get_def split: prod.splits sum.splits if_splits)

section \<open>Listings\<close>

text \<open>A complete listing: the pages from a token to the end, with their keys and their number.\<close>

inductive listing :: "'w s3_client \<Rightarrow> string \<Rightarrow> string \<Rightarrow> string option \<Rightarrow> 'w \<Rightarrow> nat \<Rightarrow> string list \<Rightarrow> 'w \<Rightarrow> bool"
  for c bkt p where
  last: "ListObjectsV2 c bkt p token None w = (Inr page, w') \<Longrightarrow> \<not> more_pages page \<Longrightarrow>
    listing c bkt p token w (Suc 0) (page_keys page) w'"
| more: "ListObjectsV2 c bkt p token None w = (Inr page, w') \<Longrightarrow> more_pages page \<Longrightarrow>
    listing c bkt p (s3_next page) w' n keys w'' \<Longrightarrow>
    listing c bkt p token w (Suc n) (page_keys page @ keys) w''"

lemma listing_cong: "listing c bkt p token w n keys w' \<Longrightarrow> ListObjectsV2 c' = ListObjectsV2 c \<Longrightarrow> listing c' bkt p token w n keys w'"
  by (induction rule: listing.induct) (auto intro: listing.intros)

text \<open>Enough pages allowed, the loop returns exactly the listing.\<close>

lemma list_pages_listing:
  assumes "listing (S3_client b) (S3_bucket b) p token w n keys w'" "n \<le> m"
  shows "list_pages b p m token acc w = (Inr (acc @ keys), w')"
  using assms
proof (induction arbitrary: acc m rule: listing.induct)
  case (last token w page w')
  then show ?case by (cases m) auto
next
  case (more token w page w' n keys w'')
  then obtain k where k: "m = Suc k" "n \<le> k" by (cases m) auto
  with more show ?case by simp
qed

lemma list_pages_Inr:
  "list_pages b p m token acc w = (Inr keys, w') \<Longrightarrow>
     \<exists>n ks. listing (S3_client b) (S3_bucket b) p token w n ks w' \<and> keys = acc @ ks"
proof (induction b p m token acc w arbitrary: keys rule: list_pages.induct)
  case (2 b p n token acc w)
  then obtain page v where a: "ListObjectsV2 (S3_client b) (S3_bucket b) p token None w = (Inr page, v)"
    by (auto split: prod.splits sum.splits)
  show ?case
  proof (cases "more_pages page")
    case True
    then obtain m ks where "listing (S3_client b) (S3_bucket b) p (s3_next page) v m ks w'" "keys = (acc @ page_keys page) @ ks"
      using "2.IH" [OF a [symmetric] refl refl] "2.prems" a by auto
    then show ?thesis using listing.more [OF a True] by auto
  next
    case False
    then show ?thesis using listing.last [OF a] "2.prems" a by auto
  qed
qed simp

lemma s3_List_listing:
  assumes "listing (S3_client b) (S3_bucket b) p None w n keys w'" "n \<le> S3_page_limit b w"
  shows "s3_List b p w = (Inr (sort keys), w')"
  using list_pages_listing [OF assms] by (simp add: s3_List_def)

subsection \<open>The loop without a deadline\<close>

text \<open>The paginator's loop as it is written: nothing but the service's answers ends it.\<close>

partial_function (option) list_loop ::
  "'w s3Backend \<Rightarrow> string \<Rightarrow> string option \<Rightarrow> string list \<Rightarrow> 'w \<Rightarrow> ((error + string list) \<times> 'w) option" where
  "list_loop b p token keys w =
     (case ListObjectsV2 (S3_client b) (S3_bucket b) p token None w of
        (Inl err, w) \<Rightarrow> Some (Inl (Wrapped ''while listing'' [S3_bucket b, p] (sdk_error err)), w)
      | (Inr page, w) \<Rightarrow>
          (let keys = keys @ page_keys page in
           if more_pages page then list_loop b p (s3_next page) keys w else Some (Inr keys, w)))"

text \<open>
  A service advances when a page that announces another leaves fewer keys to list after its token. Any
  request may still fail.
\<close>

definition advances :: "'w s3_client \<Rightarrow> string \<Rightarrow> string \<Rightarrow> ('w \<Rightarrow> string option \<Rightarrow> string list) \<Rightarrow> bool" where
  "advances c bkt p remaining \<longleftrightarrow>
     (\<forall>token w page w'. ListObjectsV2 c bkt p token None w = (Inr page, w') \<and> more_pages page \<longrightarrow>
        length (remaining w' (s3_next page)) < length (remaining w token))"

lemma list_loop_ends:
  assumes "advances (S3_client b) (S3_bucket b) p remaining"
  shows "\<exists>res. list_loop b p token keys w = Some res
    \<and> (\<forall>n. length (remaining w token) < n \<longrightarrow> list_pages b p n token keys w = res)"
proof (induction "length (remaining w token)" arbitrary: token keys w rule: less_induct)
  case less
  obtain answer w' where a: "ListObjectsV2 (S3_client b) (S3_bucket b) p token None w = (answer, w')"
    by (cases "ListObjectsV2 (S3_client b) (S3_bucket b) p token None w")
  have n: "(\<forall>n. k < n \<longrightarrow> P n) \<longleftrightarrow> (\<forall>n. k \<le> n \<longrightarrow> P (Suc n))" for P and k :: nat
    by (metis Suc_le_D Suc_le_eq le_imp_less_Suc not_less_eq_eq)
  show ?case
  proof (cases "\<exists>page. answer = Inr page \<and> more_pages page")
    case True
    then obtain page where page: "answer = Inr page" "more_pages page" by blast
    have fewer: "length (remaining w' (s3_next page)) < length (remaining w token)"
      using assms a page unfolding advances_def by blast
    obtain res where res: "list_loop b p (s3_next page) (keys @ page_keys page) w' = Some res"
      "\<And>n. length (remaining w' (s3_next page)) < n \<Longrightarrow> list_pages b p n (s3_next page) (keys @ page_keys page) w' = res"
      using less [OF fewer] by blast
    have "list_loop b p token keys w = Some res"
      using a page res(1) by (subst list_loop.simps) (simp add: Let_def)
    then show ?thesis using a page res(2) fewer by (simp add: n)
  next
    case False
    have "\<exists>res. list_loop b p token keys w = Some res \<and> (\<forall>n. list_pages b p (Suc n) token keys w = res)"
      using a False by (subst list_loop.simps) (auto simp: Let_def split: sum.splits)
    then show ?thesis by (simp add: n) blast
  qed
qed

section \<open>The contract\<close>

text \<open>
  What the service behind the client is documented to do, for a bucket that exists: whole objects,
  missing ones reported as such, listings complete within the pages allowed and each key once,
  deletion of a missing object no failure or a not-found one.
\<close>

definition s3_reads ::
  "'w s3_client \<Rightarrow> string \<Rightarrow> ('w \<Rightarrow> nat) \<Rightarrow> ('w \<Rightarrow> string \<Rightarrow> bytes option) \<Rightarrow> ('w \<Rightarrow> bool) \<Rightarrow> bool" where
  "s3_reads c bkt pages objs good \<longleftrightarrow>
     (\<forall>w k d. good w \<and> objs w k = Some d \<longrightarrow>
        (\<exists>w'. GetObject c bkt k w = (Inr \<lparr>s3_body = d, s3_broken = None\<rparr>, w') \<and> objs w' = objs w \<and> good w'))
   \<and> (\<forall>w k. good w \<and> objs w k = None \<longrightarrow>
        (\<exists>e w'. GetObject c bkt k w = (Inl e, w') \<and> isNotFound e \<and> objs w' = objs w \<and> good w'))
   \<and> (\<forall>w p. good w \<longrightarrow> (\<exists>n keys w'. listing c bkt p None w n keys w' \<and> n \<le> pages w \<and> distinct keys
        \<and> set keys = {k. objs w k \<noteq> None \<and> HasPrefix k p} \<and> objs w' = objs w \<and> good w'))"

definition s3_service ::
  "'w s3_client \<Rightarrow> string \<Rightarrow> ('w \<Rightarrow> nat) \<Rightarrow> ('w \<Rightarrow> string \<Rightarrow> bytes option) \<Rightarrow> ('w \<Rightarrow> bool) \<Rightarrow> bool" where
  "s3_service c bkt pages objs good \<longleftrightarrow>
     s3_reads c bkt pages objs good
   \<and> (\<forall>w k d. good w \<longrightarrow> (\<exists>w'. PutObject c bkt k d w = (None, w') \<and> objs w' = (objs w)(k := Some d) \<and> good w'))
   \<and> (\<forall>w k. good w \<longrightarrow> (\<exists>e w'. DeleteObject c bkt k w = (e, w') \<and> (case e of None \<Rightarrow> True | Some err \<Rightarrow> isNotFound err)
        \<and> objs w' = (objs w)(k := None) \<and> good w'))"

text \<open>The same service when writes and deletions may fail, having taken effect or not.\<close>

definition s3_unreliable ::
  "'w s3_client \<Rightarrow> string \<Rightarrow> ('w \<Rightarrow> nat) \<Rightarrow> ('w \<Rightarrow> string \<Rightarrow> bytes option) \<Rightarrow> ('w \<Rightarrow> bool) \<Rightarrow> bool" where
  "s3_unreliable c bkt pages objs good \<longleftrightarrow>
     s3_reads c bkt pages objs good
   \<and> (\<forall>w k d. good w \<longrightarrow> (\<exists>e w'. PutObject c bkt k d w = (e, w') \<and> good w'
        \<and> (objs w' = (objs w)(k := Some d) \<or> e \<noteq> None \<and> objs w' = objs w)))
   \<and> (\<forall>w. good w \<longrightarrow> (\<exists>e w'. CreateBucket c bkt w = (e, w') \<and> objs w' = objs w \<and> good w'))
   \<and> (\<forall>w k. good w \<longrightarrow> (\<exists>e w'. DeleteObject c bkt k w = (e, w') \<and> good w'
        \<and> (objs w' = (objs w)(k := None) \<or> (\<exists>err. e = Some err \<and> \<not> isNotFound err) \<and> objs w' = objs w)))"

definition within_bound :: "('w \<Rightarrow> string \<Rightarrow> bytes option) \<Rightarrow> 'w \<Rightarrow> bool" where
  "within_bound objs w \<longleftrightarrow> (\<forall>k d. objs w k = Some d \<longrightarrow> length d \<le> maxObjectSize)"

lemma s3_backend_sel [simp]:
  "B_Get (s3_backend b) = s3_Get b" "B_Put (s3_backend b) = s3_Put b" "B_List (s3_backend b) = s3_List b"
  "B_Delete (s3_backend b) = s3_Delete b" "B_Check (s3_backend b) = s3_Check b"
  by (simp_all add: s3_backend_def)

lemma s3_Get_whole:
  assumes "GetObject (S3_client b) (S3_bucket b) k w = (Inr \<lparr>s3_body = d, s3_broken = None\<rparr>, w')"
    and "length d \<le> maxObjectSize"
  shows "s3_Get b k w = (Inr d, w')"
  using assms by (simp add: s3_Get_def read_limited_def)

lemma s3_reader:
  assumes "s3_reads (S3_client b) (S3_bucket b) (S3_page_limit b) objs good"
  shows "history_reader (s3_backend b) objs (\<lambda>w. good w \<and> within_bound objs w)"
proof
  fix w k d
  assume w: "good w \<and> within_bound objs w"
  show "\<exists>w'. B_Get (s3_backend b) k w = (Inr d, w') \<and> objs w' = objs w \<and> (good w' \<and> within_bound objs w')"
    if found: "objs w k = Some d"
  proof -
    obtain w' where "GetObject (S3_client b) (S3_bucket b) k w = (Inr \<lparr>s3_body = d, s3_broken = None\<rparr>, w')"
      "objs w' = objs w" "good w'"
      using assms w found unfolding s3_reads_def by blast
    moreover have "length d \<le> maxObjectSize" using w found by (auto simp: within_bound_def)
    ultimately show ?thesis using w by (auto simp: s3_Get_whole within_bound_def)
  qed
  show "\<exists>e w'. B_Get (s3_backend b) k w = (Inl e, w') \<and> errors_Is e ErrNotFound \<and> objs w' = objs w
      \<and> (good w' \<and> within_bound objs w')"
    if "objs w k = None"
  proof -
    obtain e w' where "GetObject (S3_client b) (S3_bucket b) k w = (Inl e, w')" "isNotFound e" "objs w' = objs w" "good w'"
      using assms w \<open>objs w k = None\<close> unfolding s3_reads_def by blast
    then show ?thesis using w by (auto simp: s3_Get_def within_bound_def)
  qed
next
  fix w p
  assume w: "good w \<and> within_bound objs w"
  obtain n keys w' where l: "listing (S3_client b) (S3_bucket b) p None w n keys w'" "n \<le> S3_page_limit b w" "distinct keys"
    "set keys = {k. objs w k \<noteq> None \<and> HasPrefix k p}" "objs w' = objs w" "good w'"
    using assms w unfolding s3_reads_def by blast
  show "\<exists>ks w'. B_List (s3_backend b) p w = (Inr ks, w') \<and> objs w' = objs w \<and> (good w' \<and> within_bound objs w')
      \<and> sorted ks \<and> distinct ks \<and> set ks = {k. objs w k \<noteq> None \<and> HasPrefix k p}"
    using l w by (auto simp: s3_List_listing [OF l(1,2)] within_bound_def)
qed

lemma s3_keeps_contract:
  assumes "s3_service (S3_client b) (S3_bucket b) (S3_page_limit b) objs good"
  shows "object_store (s3_backend b) objs (\<lambda>w. good w \<and> within_bound objs w) (\<lambda>d. length d \<le> maxObjectSize)"
proof (intro object_store.intro s3_reader object_store_axioms.intro)
  show "s3_reads (S3_client b) (S3_bucket b) (S3_page_limit b) objs good" using assms unfolding s3_service_def by blast
  fix w k d
  assume w: "good w \<and> within_bound objs w"
  show "\<exists>w'. B_Put (s3_backend b) k d w = (None, w') \<and> objs w' = (objs w)(k := Some d) \<and> (good w' \<and> within_bound objs w')"
    if "length d \<le> maxObjectSize"
  proof -
    obtain w' where "PutObject (S3_client b) (S3_bucket b) k d w = (None, w')" "objs w' = (objs w)(k := Some d)" "good w'"
      using assms w unfolding s3_service_def by blast
    then show ?thesis using w that by (auto simp: s3_Put_def putObject_def within_bound_def)
  qed
  show "\<exists>w'. B_Delete (s3_backend b) k w = (None, w') \<and> objs w' = (objs w)(k := None) \<and> (good w' \<and> within_bound objs w')"
  proof -
    obtain e w' where "DeleteObject (S3_client b) (S3_bucket b) k w = (e, w')"
      "case e of None \<Rightarrow> True | Some err \<Rightarrow> isNotFound err" "objs w' = (objs w)(k := None)" "good w'"
      using assms w unfolding s3_service_def by blast
    then show ?thesis using w by (auto simp: s3_Delete_def within_bound_def split: option.splits)
  qed
qed

section \<open>A missing bucket\<close>

text \<open>
  The service's answers while the bucket does not exist: every request but its creation is answered
  with \<open>NoSuchBucket\<close>, which is an HTTP 404. The SDK has a typed exception for it on the requests
  that declare it, and a generic API error with that code on the others.
\<close>

definition no_such_bucket :: "s3_error \<Rightarrow> bool" where
  "no_such_bucket e \<longleftrightarrow>
     (s3_type e = Some NoSuchBucket \<or> (\<exists>message. s3_api e = Some (''NoSuchBucket'', message))) \<and> s3_status e = Some 404"

definition bucket_missing :: "'w s3_client \<Rightarrow> string \<Rightarrow> 'w \<Rightarrow> bool" where
  "bucket_missing c bkt w \<longleftrightarrow>
     (\<forall>k. \<exists>e. GetObject c bkt k w = (Inl e, w) \<and> no_such_bucket e)
   \<and> (\<forall>k d. \<exists>e. PutObject c bkt k d w = (Some e, w) \<and> no_such_bucket e)
   \<and> (\<forall>p token m. \<exists>e. ListObjectsV2 c bkt p token m w = (Inl e, w) \<and> no_such_bucket e)"

text \<open>A write creates the bucket and goes through; the readiness probe tells the case apart.\<close>

lemma s3_Put_creates_bucket:
  assumes "bucket_missing (S3_client b) (S3_bucket b) w"
    and "CreateBucket (S3_client b) (S3_bucket b) w = (None, w1)"
    and "PutObject (S3_client b) (S3_bucket b) key data w1 = (None, w2)"
  shows "s3_Put b key data w = (None, w2)"
proof -
  obtain e where "PutObject (S3_client b) (S3_bucket b) key data w = (Some e, w)" "no_such_bucket e"
    using assms(1) unfolding bucket_missing_def by blast
  then show ?thesis
    using assms(2,3) by (auto simp: s3_Put_def putObject_def createBucket_def isNoSuchBucket_def no_such_bucket_def)
qed

lemma s3_Check_missing_bucket:
  assumes "bucket_missing (S3_client b) (S3_bucket b) w"
  shows "\<exists>e. s3_Check b p w = (Some e, w) \<and> errors_Is e ErrBucketNotFound"
proof -
  obtain e where "ListObjectsV2 (S3_client b) (S3_bucket b) p None (Some 1) w = (Inl e, w)" "no_such_bucket e"
    using assms unfolding bucket_missing_def by blast
  then show ?thesis by (auto simp: s3_Check_def isNoSuchBucket_def no_such_bucket_def)
qed

text \<open>
  But looking for the latest snapshot there fails, and not as one that is not there: the missing
  pointer is followed by a listing, whose failure is reported as it is.
\<close>

lemma Latest_missing_bucket:
  assumes "bucket_missing (S3_client b) (S3_bucket b) w" "Store_Backend s = s3_backend b"
  shows "\<exists>e. Latest sha s w = (Inl e, w) \<and> \<not> errors_Is e ErrNotFound"
proof -
  obtain e where "GetObject (S3_client b) (S3_bucket b) (LatestKey (Store_Layout s)) w = (Inl e, w)" "no_such_bucket e"
    using assms unfolding bucket_missing_def by blast
  then have g: "s3_Get b (LatestKey (Store_Layout s)) w =
      (Inl (Wrapped '''' [S3_bucket b, LatestKey (Store_Layout s)] (Sentinel ErrNotFound)), w)"
    by (simp add: s3_Get_def isNotFound_def no_such_bucket_def)
  obtain e' where "ListObjectsV2 (S3_client b) (S3_bucket b) (SnapshotsPrefix (Store_Layout s)) None None w = (Inl e', w)"
    using assms unfolding bucket_missing_def by blast
  then have "\<exists>e. s3_List b (SnapshotsPrefix (Store_Layout s)) w = (Inl e, w) \<and> \<not> errors_Is e ErrNotFound"
    by (cases "S3_page_limit b w") (simp_all add: s3_List_def sdk_error_def)
  then show ?thesis using g assms(2) by (auto simp: Latest_def List_refs_def)
qed

end
