(* ===== verification/Resolver.thy ===== *)
theory Resolver
  imports S3_Backend Api_Types
begin

text \<open>
  \<open>internal/store/barman.go\<close>, \<open>resolver.go\<close> and \<open>Open\<close> of \<open>snapshots.go\<close>: from a ConfigStore to a
  usable history. Kubernetes reads are parameters over the world \<open>'w\<close>, and so are apimachinery's
  \<open>NestedMap\<close> and \<open>NestedString\<close>; the reader's cache, which the process keeps under a mutex, is part of
  the world and reached through a getter and a setter.
\<close>

section \<open>Reading a barman ObjectStore\<close>

definition DefaultObjectStoreTTL :: int where
  "DefaultObjectStoreTTL = 10 * nanos_per_second"

record DerivedObjectStore =
  Derived_Configuration :: ObjectStoreConfiguration
  RetentionPolicy :: string

record cacheEntry =
  derived :: DerivedObjectStore
  expiresAt :: time

type_synonym named = "string \<times> string"

record 'w ObjectStoreReader =
  reader_Get :: "named \<Rightarrow> 'w \<Rightarrow> (error + obj) \<times> 'w"
  NestedMap :: "obj \<Rightarrow> string list \<Rightarrow> error + obj option"
  NestedString :: "obj \<Rightarrow> string list \<Rightarrow> error + string option"
  reader_ttl :: int
  reader_now :: "'w \<Rightarrow> time"
  reader_cache :: "'w \<Rightarrow> (named, cacheEntry) gmap"
  reader_set_cache :: "(named, cacheEntry) gmap \<Rightarrow> 'w \<Rightarrow> 'w"

text \<open>\<open>NewObjectStoreReader\<close>: the given reader with the default in place of a ttl that is not positive.\<close>

definition NewObjectStoreReader :: "'w ObjectStoreReader \<Rightarrow> int \<Rightarrow> 'w ObjectStoreReader" where
  "NewObjectStoreReader r ttl = r\<lparr>reader_ttl := (if ttl \<le> 0 then DefaultObjectStoreTTL else ttl)\<rparr>"

definition lookup :: "'w ObjectStoreReader \<Rightarrow> named \<Rightarrow> 'w \<Rightarrow> DerivedObjectStore option" where
  "lookup r key w =
     (case gmap_get (reader_cache r w) key of
        None \<Rightarrow> None
      | Some entry \<Rightarrow> if reader_now r w > expiresAt entry then None else Some (derived entry))"

definition store_derived :: "'w ObjectStoreReader \<Rightarrow> named \<Rightarrow> DerivedObjectStore \<Rightarrow> 'w \<Rightarrow> 'w" where
  "store_derived r key d w =
     reader_set_cache r
       (gmap_set (reader_cache r w) key \<lparr>derived = d, expiresAt = reader_now r w + reader_ttl r\<rparr>) w"

definition render_key :: "named \<Rightarrow> string" where
  "render_key key = fst key @ ''/'' @ snd key"

text \<open>Decoding the parts of the configuration this plugin has fields for.\<close>

definition decode_bool :: "bool \<Rightarrow> json \<Rightarrow> error + bool" where
  "decode_bool old v = (case v of JBool b \<Rightarrow> Inr b | JNull \<Rightarrow> Inr old | _ \<Rightarrow> Inl (unmarshal_error ''bool''))"

definition selector_field :: "SecretKeySelector \<Rightarrow> string \<Rightarrow> json \<Rightarrow> error + SecretKeySelector" where
  "selector_field r n v =
     (if n = ''name'' then map_sum id (\<lambda>s. r\<lparr>Secret_Name := s\<rparr>) (decode_string (Secret_Name r) v)
      else map_sum id (\<lambda>s. r\<lparr>Secret_Key := s\<rparr>) (decode_string (Secret_Key r) v))"

text \<open>Into a pointer: \<open>null\<close> makes it nil, an object fills the struct it points to.\<close>

definition decode_pointer ::
  "('s \<Rightarrow> string \<Rightarrow> json \<Rightarrow> error + 's) \<Rightarrow> string list \<Rightarrow> 's \<Rightarrow> 's option \<Rightarrow> json \<Rightarrow> error + 's option" where
  "decode_pointer field names zero old v =
     (case v of
        JNull \<Rightarrow> Inr None
      | _ \<Rightarrow> map_sum id Some (decode_struct field names (case old of None \<Rightarrow> zero | Some s \<Rightarrow> s) v))"

definition decode_selector :: "SecretKeySelector option \<Rightarrow> json \<Rightarrow> error + SecretKeySelector option" where
  "decode_selector = decode_pointer selector_field [''name'', ''key''] \<lparr>Secret_Name = '''', Secret_Key = ''''\<rparr>"

definition s3credentials_field :: "S3Credentials \<Rightarrow> string \<Rightarrow> json \<Rightarrow> error + S3Credentials" where
  "s3credentials_field r n v =
     (if n = ''accessKeyId'' then map_sum id (\<lambda>x. r\<lparr>AccessKeyID := x\<rparr>) (decode_selector (AccessKeyID r) v)
      else if n = ''secretAccessKey'' then map_sum id (\<lambda>x. r\<lparr>SecretAccessKey := x\<rparr>) (decode_selector (SecretAccessKey r) v)
      else if n = ''region'' then map_sum id (\<lambda>x. r\<lparr>Region := x\<rparr>) (decode_selector (Region r) v)
      else if n = ''sessionToken'' then map_sum id (\<lambda>x. r\<lparr>SessionToken := x\<rparr>) (decode_selector (SessionToken r) v)
      else map_sum id (\<lambda>x. r\<lparr>InheritFromIAMRole := x\<rparr>) (decode_bool (InheritFromIAMRole r) v))"

definition s3credentials_fields :: "string list" where
  "s3credentials_fields = [''accessKeyId'', ''secretAccessKey'', ''region'', ''sessionToken'', ''inheritFromIAMRole'']"

definition zero_s3credentials :: S3Credentials where
  "zero_s3credentials = \<lparr>AccessKeyID = None, SecretAccessKey = None, Region = None, SessionToken = None,
     InheritFromIAMRole = False\<rparr>"

definition configuration_field :: "ObjectStoreConfiguration \<Rightarrow> string \<Rightarrow> json \<Rightarrow> error + ObjectStoreConfiguration" where
  "configuration_field r n v =
     (if n = ''destinationPath'' then map_sum id (\<lambda>s. r\<lparr>DestinationPath := s\<rparr>) (decode_string (DestinationPath r) v)
      else if n = ''endpointURL'' then map_sum id (\<lambda>s. r\<lparr>EndpointURL := s\<rparr>) (decode_string (EndpointURL r) v)
      else if n = ''endpointCA'' then map_sum id (\<lambda>x. r\<lparr>EndpointCA := x\<rparr>) (decode_selector (EndpointCA r) v)
      else map_sum id (\<lambda>x. r\<lparr>S3Credentials_of := x\<rparr>)
        (decode_pointer s3credentials_field s3credentials_fields zero_s3credentials (S3Credentials_of r) v))"

definition configuration_fields :: "string list" where
  "configuration_fields = [''destinationPath'', ''endpointURL'', ''endpointCA'', ''s3Credentials'']"

definition zero_configuration :: ObjectStoreConfiguration where
  "zero_configuration = \<lparr>DestinationPath = '''', EndpointURL = '''', EndpointCA = None, S3Credentials_of = None\<rparr>"

definition decode_configuration :: "bytes \<Rightarrow> error + ObjectStoreConfiguration" where
  "decode_configuration raw =
     (case parse_whole raw of
        Inl err \<Rightarrow> Inl err
      | Inr doc \<Rightarrow> decode_struct configuration_field configuration_fields zero_configuration doc)"

definition deriveConfiguration :: "obj \<Rightarrow> named \<Rightarrow> error + ObjectStoreConfiguration" where
  "deriveConfiguration raw key =
     (if gmap_get raw ''azureCredentials'' \<noteq> None
      then Inl (Errorf ''ObjectStore uses a provider this plugin does not support yet'' [render_key key, ''Azure Blob Storage''])
      else if gmap_get raw ''googleCredentials'' \<noteq> None
      then Inl (Errorf ''ObjectStore uses a provider this plugin does not support yet'' [render_key key, ''Google Cloud Storage''])
      else (case Marshal (JObject raw) of
              Inl err \<Rightarrow> Inl (Wrapped ''while re-encoding ObjectStore configuration'' [render_key key] err)
            | Inr encoded \<Rightarrow>
                (case decode_configuration encoded of
                   Inl err \<Rightarrow> Inl (Wrapped ''while decoding ObjectStore configuration'' [render_key key] err)
                 | Inr configuration \<Rightarrow>
                     if DestinationPath configuration = ''''
                     then Inl (Errorf ''ObjectStore has no destinationPath'' [render_key key])
                     else Inr configuration)))"

text \<open>What is made of an ObjectStore that was read.\<close>

definition derive_store :: "'w ObjectStoreReader \<Rightarrow> named \<Rightarrow> obj \<Rightarrow> error + DerivedObjectStore" where
  "derive_store r key object =
     (case NestedMap r object [''spec'', ''configuration''] of
        Inl err \<Rightarrow> Inl (Wrapped ''while reading ObjectStore spec.configuration'' [render_key key] err)
      | Inr None \<Rightarrow> Inl (Errorf ''ObjectStore has no spec.configuration'' [render_key key])
      | Inr (Some raw) \<Rightarrow>
          (case deriveConfiguration raw key of
             Inl err \<Rightarrow> Inl err
           | Inr configuration \<Rightarrow>
               (case NestedString r object [''spec'', ''retentionPolicy''] of
                  Inl err \<Rightarrow> Inl (Wrapped ''while reading ObjectStore spec.retentionPolicy'' [render_key key] err)
                | Inr retention \<Rightarrow>
                    Inr \<lparr>Derived_Configuration = configuration,
                         RetentionPolicy = (case retention of None \<Rightarrow> '''' | Some s \<Rightarrow> s)\<rparr>)))"

definition GetConfiguration :: "'w ObjectStoreReader \<Rightarrow> named \<Rightarrow> 'w \<Rightarrow> (error + DerivedObjectStore) \<times> 'w" where
  "GetConfiguration r key w =
     (case lookup r key w of
        Some cached \<Rightarrow> (Inr cached, w)
      | None \<Rightarrow>
          (case reader_Get r key w of
             (Inl err, w) \<Rightarrow>
               if errors_Is err KubeNoMatch then (Inl (Typed ObjectStoreCRDAbsent err), w) else (Inl err, w)
           | (Inr object, w) \<Rightarrow>
               (case derive_store r key object of
                  Inl err \<Rightarrow> (Inl err, w)
                | Inr d \<Rightarrow> (Inr d, store_derived r key d w))))"

section \<open>Resolving a ConfigStore\<close>

record Resolved =
  Res_Configuration :: ObjectStoreConfiguration
  Res_Destination :: Destination
  Res_Source :: string
  Res_Provider :: string
  InheritedRetention :: string

record 'w Resolver =
  Client_Secret :: "named \<Rightarrow> 'w \<Rightarrow> (error + (string, bytes) gmap) \<times> 'w"
  ObjectStores :: "'w ObjectStoreReader"
  Resolver_aws :: "'w aws"

definition resolve_configuration ::
  "'w Resolver \<Rightarrow> ConfigStore \<Rightarrow> 'w \<Rightarrow> (error + ObjectStoreConfiguration \<times> string \<times> string) \<times> 'w" where
  "resolve_configuration r store w =
     (case DerivedFrom store of
        Some name \<Rightarrow>
          (case GetConfiguration (ObjectStores r) (Store_Namespace store, name) w of
             (Inl err, w) \<Rightarrow> (Inl err, w)
           | (Inr found, w) \<Rightarrow>
               (Inr (Derived_Configuration found, RetentionPolicy found, ''ObjectStore/'' @ name), w))
      | None \<Rightarrow>
          (case Configuration store of
             Some configuration \<Rightarrow> (Inr (configuration, '''', ''Inline''), w)
           | None \<Rightarrow>
               (Inl (Errorf ''ConfigStore sets neither derivedFrom nor configuration''
                  [Store_Namespace store, Store_Name store]), w)))"

definition Resolve :: "'w Resolver \<Rightarrow> ConfigStore \<Rightarrow> 'w \<Rightarrow> (error + Resolved) \<times> 'w" where
  "Resolve r store w =
     (case resolve_configuration r store w of
        (Inl err, w) \<Rightarrow> (Inl err, w)
      | (Inr (configuration, inheritedRetention, source), w) \<Rightarrow>
          (case ParseDestination (DestinationPath configuration) of
             Inl err \<Rightarrow> (Inl (Wrapped ''ConfigStore'' [Store_Namespace store, Store_Name store] err), w)
           | Inr destination \<Rightarrow>
               (Inr \<lparr>Res_Configuration = configuration, Res_Destination = destination, Res_Source = source,
                     Res_Provider = ''s3'', InheritedRetention = inheritedRetention\<rparr>, w)))"

definition secretValue ::
  "'w Resolver \<Rightarrow> string \<Rightarrow> SecretKeySelector option \<Rightarrow> 'w \<Rightarrow> (error + string) \<times> 'w" where
  "secretValue r namespace sel w =
     (case sel of
        None \<Rightarrow> (Inr '''', w)
      | Some sel \<Rightarrow>
          if Secret_Name sel = '''' then (Inr '''', w)
          else (case Client_Secret r (namespace, Secret_Name sel) w of
                  (Inl err, w) \<Rightarrow> (Inl (Wrapped ''while reading Secret'' [namespace, Secret_Name sel] err), w)
                | (Inr data, w) \<Rightarrow>
                    (case gmap_get data (Secret_Key sel) of
                       None \<Rightarrow> (Inl (Errorf ''secret has no key'' [namespace, Secret_Name sel, Secret_Key sel]), w)
                     | Some v \<Rightarrow> (Inr v, w))))"

text \<open>The static credentials, read only when no role is inherited.\<close>

definition static_credentials ::
  "'w Resolver \<Rightarrow> string \<Rightarrow> S3Credentials \<Rightarrow> S3Options \<Rightarrow> 'w \<Rightarrow> (error + S3Options) \<times> 'w" where
  "static_credentials r namespace credentials options w =
     (if InheritFromIAMRole credentials then (Inr options, w)
      else (case secretValue r namespace (AccessKeyID credentials) w of
              (Inl err, w) \<Rightarrow> (Inl (Wrapped ''while reading s3Credentials.accessKeyId'' [] err), w)
            | (Inr accessKeyID, w) \<Rightarrow>
           (case secretValue r namespace (SecretAccessKey credentials) w of
              (Inl err, w) \<Rightarrow> (Inl (Wrapped ''while reading s3Credentials.secretAccessKey'' [] err), w)
            | (Inr secretAccessKey, w) \<Rightarrow>
           (case secretValue r namespace (SessionToken credentials) w of
              (Inl err, w) \<Rightarrow> (Inl (Wrapped ''while reading s3Credentials.sessionToken'' [] err), w)
            | (Inr sessionToken, w) \<Rightarrow>
                (Inr (options\<lparr>Opt_AccessKeyID := accessKeyID, Opt_SecretAccessKey := secretAccessKey,
                   Opt_SessionToken := sessionToken\<rparr>), w)))))"

definition Resolver_s3Backend :: "'w Resolver \<Rightarrow> string \<Rightarrow> Resolved \<Rightarrow> 'w \<Rightarrow> (error + 'w Backend) \<times> 'w" where
  "Resolver_s3Backend r namespace resolved w =
     (let options = \<lparr>Opt_Bucket = Bucket (Res_Destination resolved), Opt_Region = '''',
            Opt_EndpointURL = EndpointURL (Res_Configuration resolved), Opt_AccessKeyID = '''', Opt_SecretAccessKey = '''',
            Opt_SessionToken = '''', Opt_CABundle = [], Opt_InheritFromIAMRole = False\<rparr> in
      case S3Credentials_of (Res_Configuration resolved) of
        None \<Rightarrow> (Inl (Errorf ''the object store configuration has no s3Credentials; an S3 destination needs them'' []), w)
      | Some credentials \<Rightarrow>
     (case static_credentials r namespace credentials
             (options\<lparr>Opt_InheritFromIAMRole := InheritFromIAMRole credentials\<rparr>) w of
        (Inl err, w) \<Rightarrow> (Inl err, w)
      | (Inr options, w) \<Rightarrow>
     (case secretValue r namespace (Region credentials) w of
        (Inl err, w) \<Rightarrow> (Inl (Wrapped ''while reading s3Credentials.region'' [] err), w)
      | (Inr region, w) \<Rightarrow>
     (case (case EndpointCA (Res_Configuration resolved) of
              None \<Rightarrow> (Inr [], w)
            | Some ca \<Rightarrow> secretValue r namespace (Some ca) w) of
        (Inl err, w) \<Rightarrow> (Inl (Wrapped ''while reading endpointCA'' [] err), w)
      | (Inr bundle, w) \<Rightarrow>
          (map_sum id s3_backend (NewS3Backend (Resolver_aws r) (options\<lparr>Opt_Region := region, Opt_CABundle := bundle\<rparr>)), w)))))"

definition Resolver_Backend :: "'w Resolver \<Rightarrow> string \<Rightarrow> Resolved \<Rightarrow> 'w \<Rightarrow> (error + 'w Backend) \<times> 'w" where
  "Resolver_Backend r namespace resolved w =
     (let scheme = Scheme (Res_Destination resolved) in
      if scheme = ''s3'' then Resolver_s3Backend r namespace resolved w
      else if scheme = ''azure'' \<or> scheme = ''gs''
      then (Inl (Errorf ''object store scheme is not supported yet; only s3:// is implemented'' [scheme]), w)
      else (Inl (Errorf ''unsupported scheme'' [scheme]), w))"

definition LayoutFor :: "ConfigStore \<Rightarrow> Resolved \<Rightarrow> string \<Rightarrow> Layout" where
  "LayoutFor store resolved serverName =
     \<lparr>BasePath = Dest_Path (Res_Destination resolved), ServerName = serverName, Prefix = GetPrefix store\<rparr>"

section \<open>Providers\<close>

record 'w Provider =
  P_Resolve :: "ConfigStore \<Rightarrow> 'w \<Rightarrow> (error + Resolved) \<times> 'w"
  P_Backend :: "string \<Rightarrow> Resolved \<Rightarrow> 'w \<Rightarrow> (error + 'w Backend) \<times> 'w"

definition resolver_provider :: "'w Resolver \<Rightarrow> 'w Provider" where
  "resolver_provider r = \<lparr>P_Resolve = Resolve r, P_Backend = Resolver_Backend r\<rparr>"

definition Open :: "'w Provider \<Rightarrow> ConfigStore \<Rightarrow> string \<Rightarrow> 'w \<Rightarrow> (error + 'w SnapshotStore) \<times> 'w" where
  "Open provider configStore serverName w =
     (case P_Resolve provider configStore w of
        (Inl err, w) \<Rightarrow> (Inl err, w)
      | (Inr resolved, w) \<Rightarrow>
          (case P_Backend provider (Store_Namespace configStore) resolved w of
             (Inl err, w) \<Rightarrow> (Inl err, w)
           | (Inr backend, w) \<Rightarrow>
               (Inr \<lparr>Store_Backend = backend, Store_Layout = LayoutFor configStore resolved serverName\<rparr>, w)))"

text \<open>The provider of \<open>storetest\<close>: one fixed inline configuration over a given backend.\<close>

record 'w test_Provider =
  Test_Store :: "'w Backend"
  ResolveErr :: "error option"
  BackendErr :: "error option"

definition test_Resolve :: "'w test_Provider \<Rightarrow> ConfigStore \<Rightarrow> 'w \<Rightarrow> (error + Resolved) \<times> 'w" where
  "test_Resolve p configStore w =
     (case ResolveErr p of
        Some err \<Rightarrow> (Inl err, w)
      | None \<Rightarrow>
          (Inr \<lparr>Res_Configuration = zero_configuration\<lparr>DestinationPath := ''s3://backups/'',
                  EndpointURL := ''http://objectstore:9000''\<rparr>,
                Res_Destination = \<lparr>Scheme = ''s3'', Bucket = ''backups'', Dest_Path = ''''\<rparr>,
                Res_Source = ''Inline'', Res_Provider = ''s3'', InheritedRetention = ''''\<rparr>, w))"

definition test_Backend :: "'w test_Provider \<Rightarrow> string \<Rightarrow> Resolved \<Rightarrow> 'w \<Rightarrow> (error + 'w Backend) \<times> 'w" where
  "test_Backend p namespace resolved w =
     (case BackendErr p of Some err \<Rightarrow> (Inl err, w) | None \<Rightarrow> (Inr (Test_Store p), w))"

definition test_provider :: "'w test_Provider \<Rightarrow> 'w Provider" where
  "test_provider p = \<lparr>P_Resolve = test_Resolve p, P_Backend = test_Backend p\<rparr>"

text \<open>Seeding a history as a capture would write it; a failure ends the test.\<close>

definition SeedSnapshot ::
  "(bytes \<Rightarrow> string) \<Rightarrow> 'w Backend \<Rightarrow> string \<Rightarrow> int \<Rightarrow> time \<Rightarrow> bytes \<Rightarrow> 'w \<Rightarrow> (error + unit) \<times> 'w" where
  "SeedSnapshot sha backend serverName generation at specJSON w =
     (case FromJSON specJSON of
        Inl err \<Rightarrow> (Inl err, w)
      | Inr spec \<Rightarrow>
     (let content = \<lparr>Spec = spec, Labels = [], Annotations = []\<rparr> in
      case Checksum sha content of
        Inl err \<Rightarrow> (Inl err, w)
      | Inr checksum \<Rightarrow>
     (let history = \<lparr>Store_Backend = backend,
            Store_Layout = \<lparr>BasePath = '''', ServerName = serverName, Prefix = DefaultPrefix\<rparr>\<rparr> in
      case Write history
             (zero_snapshot\<lparr>APIVersion := APIVersion_const, Kind := Kind_const, CapturedAt := at, Generation := generation,
                Cluster := \<lparr>Ref_Name = serverName, Ref_Namespace = ''default'', Ref_UID = ''''\<rparr>,
                ContentOf := content, Checksum_of := checksum\<rparr>) w of
        (Inl err, w) \<Rightarrow> (Inl err, w)
      | (Inr _, w) \<Rightarrow> (Inr (), w))))"

section \<open>The cache\<close>

text \<open>
  The cache is the reader's own: setting it changes neither the clock nor anything the getter does
  not see, and an API read leaves it alone.
\<close>

definition reader_laws :: "'w ObjectStoreReader \<Rightarrow> bool" where
  "reader_laws r \<longleftrightarrow>
     (\<forall>c w. reader_cache r (reader_set_cache r c w) = c \<and> reader_now r (reader_set_cache r c w) = reader_now r w)
   \<and> (\<forall>key w. reader_cache r (snd (reader_Get r key w)) = reader_cache r w)"

text \<open>
  The same reader over a world with a log of what the API server answers. The log is written by reads
  alone: a \<open>Get\<close> that returns an ObjectStore adds its key, the clock at the answer and the object, and
  nothing else touches it. \<open>GetConfiguration\<close> runs unchanged over it.
\<close>

type_synonym api_log = "(named \<times> time \<times> obj) set"

definition logged :: "'w ObjectStoreReader \<Rightarrow> ('w \<times> api_log) ObjectStoreReader" where
  "logged r =
     \<lparr>reader_Get = (\<lambda>key (w, log). case reader_Get r key w of
        (Inl err, w) \<Rightarrow> (Inl err, w, log)
      | (Inr object, w) \<Rightarrow> (Inr object, w, insert (key, reader_now r w, object) log)),
      NestedMap = NestedMap r, NestedString = NestedString r, reader_ttl = reader_ttl r,
      reader_now = (\<lambda>(w, _). reader_now r w), reader_cache = (\<lambda>(w, _). reader_cache r w),
      reader_set_cache = (\<lambda>c (w, log). (reader_set_cache r c w, log))\<rparr>"

text \<open>
  The life of a reader: calls of \<open>GetConfiguration\<close>, whatever they answer, interleaved with anything
  else that leaves the cache alone (the clock, edits of ObjectStores).
\<close>

inductive reader_run :: "'w ObjectStoreReader \<Rightarrow> 'w \<Rightarrow> api_log \<Rightarrow> bool" for r where
  start: "reader_cache r w = [] \<Longrightarrow> reader_run r w {}"
| other: "reader_run r w log \<Longrightarrow> reader_cache r w' = reader_cache r w \<Longrightarrow> reader_run r w' log"
| call: "reader_run r w log \<Longrightarrow> GetConfiguration (logged r) key (w, log) = (res, w', log') \<Longrightarrow> reader_run r w' log'"

lemma logged_fields:
  "NestedMap (logged r) = NestedMap r" "NestedString (logged r) = NestedString r" "reader_ttl (logged r) = reader_ttl r"
  "reader_now (logged r) (w, log) = reader_now r w" "reader_cache (logged r) (w, log) = reader_cache r w"
  "reader_set_cache (logged r) c (w, log) = (reader_set_cache r c w, log)"
  "reader_Get (logged r) key (w, log) = (case reader_Get r key w of
     (Inl err, w) \<Rightarrow> (Inl err, w, log) | (Inr object, w) \<Rightarrow> (Inr object, w, insert (key, reader_now r w, object) log))"
  by (simp_all add: logged_def)

lemma logged_sel:
  "derive_store (logged r) = derive_store r" "lookup (logged r) key (w, log) = lookup r key w"
  "store_derived (logged r) key d (w, log) = (store_derived r key d w, log)"
  unfolding derive_store_def lookup_def store_derived_def fun_eq_iff logged_fields by simp_all

text \<open>The log changes nothing of what a call does.\<close>

lemma GetConfiguration_logged:
  "GetConfiguration (logged r) key (w, log) = (res, w', log') \<Longrightarrow> GetConfiguration r key w = (res, w')"
  by (auto simp: GetConfiguration_def logged_sel logged_fields split: option.splits prod.splits sum.splits if_splits)

lemma GetConfiguration_logs:
  assumes "GetConfiguration r key w = (res, w')"
  obtains log' where "GetConfiguration (logged r) key (w, log) = (res, w', log')"
proof -
  obtain res2 w2 log' where l: "GetConfiguration (logged r) key (w, log) = (res2, w2, log')" by (rule prod_cases3)
  then show thesis using GetConfiguration_logged [OF l] assms that by simp
qed

lemma GetConfiguration_hit: "lookup r key w = Some d \<Longrightarrow> GetConfiguration r key w = (Inr d, w)"
  by (simp add: GetConfiguration_def)

text \<open>
  What a call leaves in the cache and in the log: nothing new, or, of an answer that was not in the
  cache, the object it was derived from and when it was read.
\<close>

lemma GetConfiguration_effect:
  assumes "reader_laws r" "GetConfiguration (logged r) key (w, log) = (res, w', log')"
  shows "log \<subseteq> log' \<and>
    (reader_cache r w' = reader_cache r w \<and> (\<forall>d. res = Inr d \<longrightarrow> lookup r key w = Some d \<and> w' = w)
     \<or> (\<exists>object d. res = Inr d \<and> (key, reader_now r w', object) \<in> log' \<and> derive_store r key object = Inr d
        \<and> reader_cache r w' =
            gmap_set (reader_cache r w) key \<lparr>derived = d, expiresAt = reader_now r w' + reader_ttl r\<rparr>))"
proof (cases "lookup r key w")
  case None
  obtain answer w1 where get: "reader_Get r key w = (answer, w1)" by (cases "reader_Get r key w")
  have same: "reader_cache r w1 = reader_cache r w" using assms(1) get unfolding reader_laws_def by (metis snd_conv)
  show ?thesis
  proof (cases answer)
    case (Inl err)
    then have "reader_Get (logged r) key (w, log) = (Inl err, w1, log)" using get by (simp add: logged_fields)
    then show ?thesis using assms(2) None same by (auto simp: GetConfiguration_def logged_sel split: if_splits)
  next
    case (Inr object)
    let ?log = "insert (key, reader_now r w1, object) log"
    have read: "reader_Get (logged r) key (w, log) = (Inr object, w1, ?log)" using get Inr by (simp add: logged_fields)
    show ?thesis
    proof (cases "derive_store r key object")
      case (Inl err)
      then show ?thesis using assms(2) None read same by (auto simp: GetConfiguration_def logged_sel)
    next
      case (Inr d)
      then have "res = Inr d" "w' = store_derived r key d w1" "log' = ?log"
        using assms(2) None read by (auto simp: GetConfiguration_def logged_sel)
      then show ?thesis using assms(1) same Inr by (auto simp: store_derived_def reader_laws_def)
    qed
  qed
next
  case (Some d)
  then have "GetConfiguration (logged r) key (w, log) = (Inr d, w, log)" by (intro GetConfiguration_hit) (simp add: logged_sel)
  then show ?thesis using assms(2) Some by auto
qed

text \<open>Every entry of the cache is derived from an object the API server answered with, a ttl before it expires.\<close>

lemma reader_run_cache:
  assumes "reader_run r w log" "reader_laws r" "gmap_get (reader_cache r w) key = Some e"
  shows "\<exists>t object. (key, t, object) \<in> log \<and> derive_store r key object = Inr (derived e) \<and> expiresAt e = t + reader_ttl r"
  using assms
proof (induction arbitrary: e rule: reader_run.induct)
  case (call w log k res w' log')
  show ?case
    using GetConfiguration_effect [OF call.prems(1) call.hyps(2)]
  proof (elim conjE disjE exE)
    assume "log \<subseteq> log'" "reader_cache r w' = reader_cache r w"
    then show ?thesis using call.IH [OF call.prems(1)] call.prems(2) by auto
  next
    fix object d
    assume "log \<subseteq> log'" "(k, reader_now r w', object) \<in> log'" "derive_store r k object = Inr d"
      "reader_cache r w' = gmap_set (reader_cache r w) k \<lparr>derived = d, expiresAt = reader_now r w' + reader_ttl r\<rparr>"
    then show ?thesis
      using call.IH [OF call.prems(1), of e] call.prems(2) by (fastforce simp: go_map split: if_splits)
  qed
qed auto

text \<open>So whatever a call answers with was read from the API server, and at most the ttl ago.\<close>

lemma GetConfiguration_fresh:
  assumes "reader_run r w log" "reader_laws r" "0 \<le> reader_ttl r"
    and "GetConfiguration (logged r) key (w, log) = (Inr d, w', log')"
  shows "\<exists>t object. (key, t, object) \<in> log' \<and> derive_store r key object = Inr d \<and> reader_now r w' \<le> t + reader_ttl r"
  using GetConfiguration_effect [OF assms(2,4)]
proof (elim conjE disjE exE)
  assume "log \<subseteq> log'" "\<forall>x. Inr d = (Inr x :: error + DerivedObjectStore) \<longrightarrow> lookup r key w = Some x \<and> w' = w"
  then show ?thesis
    using reader_run_cache [OF assms(1,2), of key]
    by (fastforce simp: lookup_def split: option.splits if_splits)
next
  fix object x
  assume "Inr d = (Inr x :: error + DerivedObjectStore)" "(key, reader_now r w', object) \<in> log'" "derive_store r key object = Inr x"
  then show ?thesis using assms(3) by (intro exI [of _ "reader_now r w'"] exI [of _ object]) simp
qed

section \<open>Opening a history\<close>

text \<open>Opening succeeds with the layout of the server name in the resolved destination.\<close>

lemma Open_Inr:
  assumes "Open provider configStore serverName w = (Inr s, w')"
  shows "\<exists>resolved w1 w2. P_Resolve provider configStore w = (Inr resolved, w1)
    \<and> P_Backend provider (Store_Namespace configStore) resolved w1 = (Inr (Store_Backend s), w')
    \<and> Store_Layout s = LayoutFor configStore resolved serverName"
  using assms by (auto simp: Open_def split: prod.splits sum.splits)

lemma Open_test_provider:
  assumes "ResolveErr p = None" "BackendErr p = None"
  shows "Open (test_provider p) configStore serverName w =
    (Inr \<lparr>Store_Backend = Test_Store p,
          Store_Layout = \<lparr>BasePath = '''', ServerName = serverName, Prefix = GetPrefix configStore\<rparr>\<rparr>, w)"
  using assms by (simp add: Open_def test_provider_def test_Resolve_def test_Backend_def LayoutFor_def)

end
