(* ===== verification/Plugin_Config.thy ===== *)
theory Plugin_Config
  imports Snapshot
begin

text \<open>
  \<open>internal/cnpgi/metadata/constants.go\<close> and \<open>internal/cnpgi/operator/config/config.go\<close>: the
  plugin's parameters on a Cluster. A Cluster being created is seen as generic JSON by the admission
  webhook and as a typed object by the hooks; both go through \<open>NewFromParameters\<close>.
\<close>

section \<open>Parameters\<close>

definition ParameterSaveToStore :: string where "ParameterSaveToStore = ''saveToStore''"
definition ParameterSaveToServer :: string where "ParameterSaveToServer = ''saveToServer''"
definition ParameterRestoreFromStore :: string where "ParameterRestoreFromStore = ''restoreFromStore''"
definition ParameterRestoreFromServer :: string where "ParameterRestoreFromServer = ''restoreFromServer''"
definition ParameterRestorePolicy :: string where "ParameterRestorePolicy = ''restorePolicy''"

definition MutatingWebhookName :: string where
  "MutatingWebhookName = ''chronicle-restore.sharifmshaker.github.io''"

record PluginConfiguration =
  PC_Cluster :: "Cluster option"
  SaveToStore :: string
  SaveToServer :: string
  RestoreFromStore :: string
  RestoreFromServer :: string
  PC_RestorePolicy :: string
  Enabled :: bool
  Present :: bool

text \<open>Reading a Go map of strings: the empty string when the key is absent.\<close>

definition param :: "strmap \<Rightarrow> string \<Rightarrow> string" where
  "param m k = (case gmap_get m k of None \<Rightarrow> '''' | Some v \<Rightarrow> v)"

definition NewFromParameters :: "strmap \<Rightarrow> string \<Rightarrow> PluginConfiguration" where
  "NewFromParameters parameters clusterName =
     (let result = \<lparr>PC_Cluster = None,
            SaveToStore = param parameters ParameterSaveToStore,
            SaveToServer = clusterName,
            RestoreFromStore = param parameters ParameterRestoreFromStore,
            RestoreFromServer = param parameters ParameterRestoreFromServer,
            PC_RestorePolicy = param parameters ParameterRestorePolicy,
            Enabled = False, Present = False\<rparr>;
          server = param parameters ParameterSaveToServer
      in if server \<noteq> '''' then result\<lparr>SaveToServer := server\<rparr> else result)"

fun from_plugins :: "Cluster \<Rightarrow> PluginRef list \<Rightarrow> PluginConfiguration" where
  "from_plugins cluster [] =
     \<lparr>PC_Cluster = Some cluster, SaveToStore = '''', SaveToServer = Cluster_Name cluster, RestoreFromStore = '''',
      RestoreFromServer = '''', PC_RestorePolicy = '''', Enabled = False, Present = False\<rparr>"
| "from_plugins cluster (declaration # rest) =
     (if Plugin_Name declaration \<noteq> PluginName then from_plugins cluster rest
      else (NewFromParameters (Plugin_Parameters declaration) (Cluster_Name cluster))
             \<lparr>PC_Cluster := Some cluster, Present := True,
              Enabled := (case Plugin_Enabled declaration of None \<Rightarrow> True | Some e \<Rightarrow> e)\<rparr>)"

definition NewFromCluster :: "Cluster \<Rightarrow> PluginConfiguration" where
  "NewFromCluster cluster = from_plugins cluster (Cluster_Plugins cluster)"

definition Validate :: "PluginConfiguration \<Rightarrow> error option" where
  "Validate c =
     (if \<not> Present c \<or> \<not> Enabled c then None
      else if RestoreFromStore c \<noteq> '''' \<and> RestoreFromServer c = ''''
      then Some (Errorf ''is set but the server is missing''
             [ParameterRestoreFromStore, RestoreFromStore c, ParameterRestoreFromServer])
      else if RestoreFromServer c \<noteq> '''' \<and> RestoreFromStore c = ''''
      then Some (Errorf ''is set but the store is missing''
             [ParameterRestoreFromServer, RestoreFromServer c, ParameterRestoreFromStore])
      else if PC_RestorePolicy c \<noteq> '''' \<and> RestoreFromStore c = ''''
      then Some (Errorf ''is set but there is nothing to restore''
             [ParameterRestorePolicy, PC_RestorePolicy c, ParameterRestoreFromStore, ParameterRestoreFromServer])
      else None)"

definition IsSaveEnabled :: "PluginConfiguration \<Rightarrow> bool" where
  "IsSaveEnabled c \<longleftrightarrow> Present c \<and> Enabled c \<and> SaveToStore c \<noteq> ''''"

definition IsRestoreRequested :: "PluginConfiguration \<Rightarrow> bool" where
  "IsRestoreRequested c \<longleftrightarrow> Present c \<and> Enabled c \<and> RestoreFromStore c \<noteq> ''''"

text \<open>Namespace and name. The code dereferences the Cluster, which every caller has set.\<close>

definition SaveToKey :: "PluginConfiguration \<Rightarrow> string \<times> string" where
  "SaveToKey c = ((case PC_Cluster c of None \<Rightarrow> '''' | Some cluster \<Rightarrow> Cluster_Namespace cluster), SaveToStore c)"

section \<open>What a configuration says\<close>

text \<open>A configuration that passes validation names both halves of a source or neither.\<close>

lemma Validate_None:
  assumes "Present c" "Enabled c"
  shows "Validate c = None \<longleftrightarrow>
    (RestoreFromStore c = '''' \<longleftrightarrow> RestoreFromServer c = '''') \<and> (PC_RestorePolicy c \<noteq> '''' \<longrightarrow> RestoreFromStore c \<noteq> '''')"
  using assms by (auto simp: Validate_def)

text \<open>A disabled or absent plugin neither saves nor restores.\<close>

lemma NewFromCluster_absent:
  "PluginName \<notin> Plugin_Name ` set (Cluster_Plugins cluster) \<Longrightarrow>
     \<not> IsSaveEnabled (NewFromCluster cluster) \<and> \<not> IsRestoreRequested (NewFromCluster cluster)"
proof -
  have "PluginName \<notin> Plugin_Name ` set ps \<Longrightarrow> \<not> Present (from_plugins cluster ps)" for ps
    by (induction ps) auto
  then show "PluginName \<notin> Plugin_Name ` set (Cluster_Plugins cluster) \<Longrightarrow>
     \<not> IsSaveEnabled (NewFromCluster cluster) \<and> \<not> IsRestoreRequested (NewFromCluster cluster)"
    by (simp add: NewFromCluster_def IsSaveEnabled_def IsRestoreRequested_def)
qed

text \<open>The server name snapshots are filed under is never empty for a named cluster.\<close>

lemma from_plugins_server: "Cluster_Name cluster \<noteq> '''' \<Longrightarrow> SaveToServer (from_plugins cluster ps) \<noteq> ''''"
  by (induction ps) (auto simp: NewFromParameters_def Let_def)

lemma from_plugins_cluster: "PC_Cluster (from_plugins cluster ps) = Some cluster"
  by (induction ps) (auto simp: NewFromParameters_def Let_def)

lemma SaveToKey_NewFromCluster:
  "SaveToKey (NewFromCluster cluster) = (Cluster_Namespace cluster, SaveToStore (NewFromCluster cluster))"
  by (simp add: SaveToKey_def NewFromCluster_def from_plugins_cluster)

end
