(* ===== verification/Capture_Hook.thy ===== *)
theory Capture_Hook
  imports Resolver Plugin_Config
begin

text \<open>
  \<open>internal/cnpgi/operator\<close>: the reconciler hooks \<open>Pre\<close> and \<open>Post\<close>, the status RPC and the cache the
  two share. Decoding a request (\<open>object.GetKind\<close>, \<open>DecodeClusterLenient\<close>), reading a ConfigStore and
  the wall clock are parameters. The hooks' mutable state is the pair of the settled cache and the
  world; a nil cache is \<open>None\<close>. Log output is left out.
\<close>

section \<open>The settled cache\<close>

record settledEntry =
  entry_generation :: int
  entry_metadataChecksum :: string
  entry_snapshotKey :: string

type_synonym settledCache = "(string, settledEntry) gmap"

definition maxSettledEntries :: nat where
  "maxSettledEntries = 1024"

definition newSettledCache :: settledCache where
  "newSettledCache = []"

definition settled :: "settledCache option \<Rightarrow> Cluster \<Rightarrow> string \<Rightarrow> string option" where
  "settled c cluster metadataChecksum =
     (case c of
        None \<Rightarrow> None
      | Some entries \<Rightarrow>
          (case gmap_get entries (Cluster_UID cluster) of
             None \<Rightarrow> None
           | Some entry \<Rightarrow>
               if entry_generation entry \<noteq> Cluster_Generation cluster \<or> entry_metadataChecksum entry \<noteq> metadataChecksum
               then None else Some (entry_snapshotKey entry)))"

definition remember :: "settledCache option \<Rightarrow> Cluster \<Rightarrow> string \<Rightarrow> string \<Rightarrow> settledCache option" where
  "remember c cluster metadataChecksum snapshotKey =
     (case c of
        None \<Rightarrow> None
      | Some entries \<Rightarrow>
          (let entries = (if length entries \<ge> maxSettledEntries then [] else entries)
           in Some (gmap_set entries (Cluster_UID cluster)
                \<lparr>entry_generation = Cluster_Generation cluster, entry_metadataChecksum = metadataChecksum,
                 entry_snapshotKey = snapshotKey\<rparr>)))"

section \<open>The watermark\<close>

record ClusterStatus =
  LastSavedGeneration :: int
  LastSavedAt :: string
  SnapshotKey_of :: string
  Status_Checksum :: string
  MetadataChecksum :: string
  Status_Store :: string
  Status_ServerName :: string

definition clusterstatus_json :: "ClusterStatus \<Rightarrow> json" where
  "clusterstatus_json s = JObject (
     [(''lastSavedGeneration'', JNumber (FormatInt (LastSavedGeneration s)))]
     @ omit_empty ''lastSavedAt'' JString (LastSavedAt s)
     @ omit_empty ''snapshotKey'' JString (SnapshotKey_of s)
     @ omit_empty ''checksum'' JString (Status_Checksum s)
     @ omit_empty ''metadataChecksum'' JString (MetadataChecksum s)
     @ omit_empty ''store'' JString (Status_Store s)
     @ omit_empty ''serverName'' JString (Status_ServerName s))"

definition clusterstatus_field :: "ClusterStatus \<Rightarrow> string \<Rightarrow> json \<Rightarrow> error + ClusterStatus" where
  "clusterstatus_field s n v =
     (if n = ''lastSavedGeneration'' then map_sum id (\<lambda>x. s\<lparr>LastSavedGeneration := x\<rparr>) (decode_int64 (LastSavedGeneration s) v)
      else if n = ''lastSavedAt'' then map_sum id (\<lambda>x. s\<lparr>LastSavedAt := x\<rparr>) (decode_string (LastSavedAt s) v)
      else if n = ''snapshotKey'' then map_sum id (\<lambda>x. s\<lparr>SnapshotKey_of := x\<rparr>) (decode_string (SnapshotKey_of s) v)
      else if n = ''checksum'' then map_sum id (\<lambda>x. s\<lparr>Status_Checksum := x\<rparr>) (decode_string (Status_Checksum s) v)
      else if n = ''metadataChecksum'' then map_sum id (\<lambda>x. s\<lparr>MetadataChecksum := x\<rparr>) (decode_string (MetadataChecksum s) v)
      else if n = ''store'' then map_sum id (\<lambda>x. s\<lparr>Status_Store := x\<rparr>) (decode_string (Status_Store s) v)
      else map_sum id (\<lambda>x. s\<lparr>Status_ServerName := x\<rparr>) (decode_string (Status_ServerName s) v))"

definition clusterstatus_fields :: "string list" where
  "clusterstatus_fields = [''lastSavedGeneration'', ''lastSavedAt'', ''snapshotKey'', ''checksum'',
     ''metadataChecksum'', ''store'', ''serverName'']"

definition zero_clusterstatus :: ClusterStatus where
  "zero_clusterstatus = \<lparr>LastSavedGeneration = 0, LastSavedAt = '''', SnapshotKey_of = '''', Status_Checksum = '''',
     MetadataChecksum = '''', Status_Store = '''', Status_ServerName = ''''\<rparr>"

definition decode_clusterstatus :: "bytes \<Rightarrow> error + ClusterStatus" where
  "decode_clusterstatus raw =
     (case parse_whole raw of
        Inl err \<Rightarrow> Inl err
      | Inr doc \<Rightarrow> decode_struct clusterstatus_field clusterstatus_fields zero_clusterstatus doc)"

fun watermark_in :: "PluginStatus list \<Rightarrow> ClusterStatus option" where
  "watermark_in [] = None"
| "watermark_in (plugin # rest) =
     (if PluginStatus_Name plugin \<noteq> PluginName \<or> PluginStatus_Status plugin = '''' then watermark_in rest
      else (case decode_clusterstatus (PluginStatus_Status plugin) of Inl _ \<Rightarrow> None | Inr status \<Rightarrow> Some status))"

definition WatermarkFromCluster :: "Cluster \<Rightarrow> ClusterStatus option" where
  "WatermarkFromCluster cluster = watermark_in (Cluster_PluginStatus cluster)"

section \<open>The hooks\<close>

datatype behavior = BEHAVIOR_CONTINUE | BEHAVIOR_REQUEUE

datatype status_response = NoOpResponse | JSONStatusResponse bytes

text \<open>
  What a hook is wired to: the request decoders, the ConfigStore reader, the provider, the clock,
  the hash, CloudNativePG's tables and the version the build carries.
\<close>

record 'w hooks =
  H_GetKind :: "bytes \<Rightarrow> error + string"
  H_DecodeCluster :: "bytes \<Rightarrow> error + Cluster"
  H_ConfigStore :: "named \<Rightarrow> 'w \<Rightarrow> (error + ConfigStore) \<times> 'w"
  H_Resolver :: "'w Provider"
  H_now :: "'w \<Rightarrow> time"
  H_sha :: "bytes \<Rightarrow> string"
  H_cnpg :: cnpg
  H_Version :: string

record hook_request =
  ResourceDefinition :: bytes
  ClusterDefinition :: bytes

definition Pre :: "'w hooks \<Rightarrow> hook_request \<Rightarrow> error + behavior" where
  "Pre H request =
     (case H_GetKind H (ResourceDefinition request) of
        Inl err \<Rightarrow> Inl err
      | Inr kind \<Rightarrow>
     if kind \<noteq> ''Cluster'' then Inr BEHAVIOR_CONTINUE
     else (case H_DecodeCluster H (ClusterDefinition request) of
        Inl err \<Rightarrow> Inl err
      | Inr cluster \<Rightarrow>
          (let configuration = NewFromCluster cluster in
           if \<not> IsRestoreRequested configuration then Inr BEHAVIOR_CONTINUE
           else if gmap_get (Cluster_Annotations cluster) AnnotationRestoredFrom \<noteq> None then Inr BEHAVIOR_CONTINUE
           else Inl (Errorf ''the chronicle mutating webhook did not run for this cluster''
                  [Cluster_Name cluster, PluginName, ParameterRestoreFromStore, RestoreFromStore configuration,
                   AnnotationRestoredFrom, MutatingWebhookName]))))"

definition liveFingerprint :: "'w hooks \<Rightarrow> Cluster \<Rightarrow> string list \<Rightarrow> error + string" where
  "liveFingerprint H cluster configuredGroups =
     (let groups = EffectiveGroupNames configuredGroups in
      MetadataFingerprint (H_sha H) (Cluster_Labels cluster) (Cluster_Annotations cluster) groups
        (CaptureRulesDigest (H_cnpg H) (H_sha H) groups))"

text \<open>The comparison with the newest snapshot, and the write when it differs.\<close>

definition capture ::
  "'w hooks \<Rightarrow> Cluster \<Rightarrow> string \<Rightarrow> Snapshot \<Rightarrow> 'w SnapshotStore \<Rightarrow> settledCache option \<Rightarrow> 'w \<Rightarrow>
     (error + behavior) \<times> settledCache option \<times> 'w" where
  "capture H cluster fingerprint snap store c w =
     (let write = (\<lambda>w. case Write store snap w of
            (Inl err, w) \<Rightarrow> (Inl (Wrapped ''while writing snapshot for cluster'' [Cluster_Name cluster] err), c, w)
          | (Inr key, w) \<Rightarrow> (Inr BEHAVIOR_CONTINUE, remember c cluster fingerprint key, w)) in
      case Latest (H_sha H) store w of
        (Inr (latest, latestKey), w) \<Rightarrow>
          if Checksum_of latest = Checksum_of snap \<and> CaptureRules latest = CaptureRules snap
          then (Inr BEHAVIOR_CONTINUE, remember c cluster fingerprint latestKey, w)
          else write w
      | (Inl err, w) \<Rightarrow>
          if \<not> errors_Is err ErrNotFound
          then (Inl (Wrapped ''while reading the latest snapshot for cluster'' [Cluster_Name cluster] err), c, w)
          else write w)"

text \<open>What answers without any I/O: the watermark on the Cluster, or the cache.\<close>

definition already_captured :: "Cluster \<Rightarrow> string \<Rightarrow> settledCache option \<Rightarrow> bool" where
  "already_captured cluster fingerprint c \<longleftrightarrow>
     (case WatermarkFromCluster cluster of
        Some watermark \<Rightarrow>
          LastSavedGeneration watermark = Cluster_Generation cluster \<and> MetadataChecksum watermark = fingerprint
      | None \<Rightarrow> False)
     \<or> settled c cluster fingerprint \<noteq> None"

definition Post_cluster ::
  "'w hooks \<Rightarrow> Cluster \<Rightarrow> settledCache option \<Rightarrow> 'w \<Rightarrow> (error + behavior) \<times> settledCache option \<times> 'w" where
  "Post_cluster H cluster c w =
     (let configuration = NewFromCluster cluster in
      if \<not> IsSaveEnabled configuration then (Inr BEHAVIOR_CONTINUE, c, w)
      else (case H_ConfigStore H (SaveToKey configuration) w of
        (Inl err, w) \<Rightarrow>
          if errors_Is err KubeNotFound then (Inr BEHAVIOR_REQUEUE, c, w) else (Inl err, c, w)
      | (Inr configStore, w) \<Rightarrow>
     (case liveFingerprint H cluster (GetCaptureGroups configStore) of
        Inl err \<Rightarrow> (Inl (Wrapped ''while fingerprinting metadata of cluster'' [Cluster_Name cluster] err), c, w)
      | Inr fingerprint \<Rightarrow>
     if already_captured cluster fingerprint c then (Inr BEHAVIOR_CONTINUE, c, w)
     else (case Extract (H_cnpg H) (H_sha H) (H_now H w) (Some cluster)
             \<lparr>Opt_Groups = GetCaptureGroups configStore, Opt_PluginVersion = H_Version H, Opt_Now = 0\<rparr> of
        Inl err \<Rightarrow> (Inl (Wrapped ''while capturing cluster'' [Cluster_Name cluster] err), c, w)
      | Inr snap \<Rightarrow>
     (case Open (H_Resolver H) configStore (SaveToServer configuration) w of
        (Inl err, w) \<Rightarrow> (Inl (Wrapped ''while reaching ConfigStore'' [render_key (SaveToKey configuration)] err), c, w)
      | (Inr store, w) \<Rightarrow> capture H cluster fingerprint snap store c w)))))"

definition Post ::
  "'w hooks \<Rightarrow> hook_request \<Rightarrow> settledCache option \<Rightarrow> 'w \<Rightarrow> (error + behavior) \<times> settledCache option \<times> 'w" where
  "Post H request c w =
     (case H_GetKind H (ResourceDefinition request) of
        Inl err \<Rightarrow> (Inl err, c, w)
      | Inr kind \<Rightarrow>
     if kind \<noteq> ''Cluster'' then (Inr BEHAVIOR_CONTINUE, c, w)
     else (case H_DecodeCluster H (ClusterDefinition request) of
        Inl err \<Rightarrow> (Inl err, c, w)
      | Inr cluster \<Rightarrow> Post_cluster H cluster c w))"

text \<open>What the status published earlier still says of the store.\<close>

definition still_published :: "PluginConfiguration \<Rightarrow> Cluster \<Rightarrow> string \<Rightarrow> settledCache option \<Rightarrow> bool" where
  "still_published configuration cluster fingerprint c =
     (case WatermarkFromCluster cluster of
        None \<Rightarrow> False
      | Some published \<Rightarrow>
          Status_Store published = SaveToStore configuration \<and> Status_ServerName published = SaveToServer configuration
          \<and> (LastSavedGeneration published = Cluster_Generation cluster \<and> MetadataChecksum published = fingerprint
             \<or> settled c cluster fingerprint = Some (SnapshotKey_of published)))"

text \<open>The status that is published for a snapshot.\<close>

definition published_status :: "PluginConfiguration \<Rightarrow> Snapshot \<Rightarrow> string \<Rightarrow> string \<Rightarrow> ClusterStatus" where
  "published_status configuration latest key metadataChecksum =
     \<lparr>LastSavedGeneration = Generation latest, LastSavedAt = FormatRFC3339 (CapturedAt latest),
      SnapshotKey_of = key, Status_Checksum = Checksum_of latest, MetadataChecksum = metadataChecksum,
      Status_Store = SaveToStore configuration, Status_ServerName = SaveToServer configuration\<rparr>"

definition SetStatusInCluster ::
  "'w hooks \<Rightarrow> bytes \<Rightarrow> settledCache option \<Rightarrow> 'w \<Rightarrow> (error + status_response) \<times> 'w" where
  "SetStatusInCluster H request c w =
     (case H_DecodeCluster H request of
        Inl err \<Rightarrow> (Inl err, w)
      | Inr cluster \<Rightarrow>
     (let configuration = NewFromCluster cluster in
      if \<not> IsSaveEnabled configuration then (Inr NoOpResponse, w)
      else (case H_ConfigStore H (SaveToKey configuration) w of
        (Inl err, w) \<Rightarrow> if errors_Is err KubeNotFound then (Inr NoOpResponse, w) else (Inl err, w)
      | (Inr configStore, w) \<Rightarrow>
     (case liveFingerprint H cluster (GetCaptureGroups configStore) of
        Inl err \<Rightarrow> (Inl err, w)
      | Inr fingerprint \<Rightarrow>
     if still_published configuration cluster fingerprint c then (Inr NoOpResponse, w)
     else (case Open (H_Resolver H) configStore (SaveToServer configuration) w of
        (Inl err, w) \<Rightarrow> (Inr NoOpResponse, w)
      | (Inr snapshots, w) \<Rightarrow>
     (case Latest (H_sha H) snapshots w of
        (Inl err, w) \<Rightarrow> (Inr NoOpResponse, w)
      | (Inr (latest, key), w) \<Rightarrow>
     (case MetadataFingerprint (H_sha H) (Labels (ContentOf latest)) (Annotations (ContentOf latest))
             (CapturedGroups latest) (CaptureRules latest) of
        Inl err \<Rightarrow> (Inl err, w)
      | Inr metadataChecksum \<Rightarrow>
          (map_sum id JSONStatusResponse
             (Marshal (clusterstatus_json (published_status configuration latest key metadataChecksum))), w))))))))"

section \<open>The cache answers only what was confirmed\<close>

definition cache_ok :: "settledCache option \<Rightarrow> bool" where
  "cache_ok c \<longleftrightarrow> (case c of None \<Rightarrow> True | Some entries \<Rightarrow> gmap_ok entries \<and> length entries \<le> maxSettledEntries)"

lemma length_gmap_set: "length (gmap_set m k v) \<le> Suc (length m)"
  by (induction m k v rule: gmap_set.induct) auto

lemma remember_ok: "cache_ok c \<Longrightarrow> cache_ok (remember c cluster fp key)"
proof (cases c)
  case (Some entries)
  assume "cache_ok c"
  moreover have "length (gmap_set es k e) \<le> maxSettledEntries" if "length es < maxSettledEntries" for es k e
    using length_gmap_set [of es k e] that by simp
  ultimately show ?thesis
    using Some by (auto simp: cache_ok_def remember_def Let_def gmap_ok_set not_le) (simp add: maxSettledEntries_def)
qed (simp add: cache_ok_def remember_def)

lemma settled_remember: "settled (remember (Some entries) cluster fp key) cluster fp = Some key"
  by (simp add: settled_def remember_def Let_def go_map)

lemma settled_remember_iff:
  "settled (remember c cluster fp key) cluster' fp' = Some key' \<Longrightarrow>
     Cluster_UID cluster' = Cluster_UID cluster \<and> Cluster_Generation cluster' = Cluster_Generation cluster
       \<and> fp' = fp \<and> key' = key \<or> Cluster_UID cluster' \<noteq> Cluster_UID cluster \<and> settled c cluster' fp' = Some key'"
proof (cases c)
  case (Some entries)
  assume s: "settled (remember c cluster fp key) cluster' fp' = Some key'"
  define es where "es = (if length entries \<ge> maxSettledEntries then [] else entries)"
  have sub: "gmap_get es k = Some e \<Longrightarrow> gmap_get entries k = Some e" for k e by (simp add: es_def split: if_splits)
  have "remember c cluster fp key = Some (gmap_set es (Cluster_UID cluster) \<lparr>entry_generation = Cluster_Generation cluster,
      entry_metadataChecksum = fp, entry_snapshotKey = key\<rparr>)"
    by (simp add: remember_def Some Let_def es_def)
  with s sub [of "Cluster_UID cluster'"] show ?thesis
    by (auto simp: settled_def Some go_map split: option.splits if_splits)
qed (simp add: settled_def remember_def)

section \<open>The status survives the Cluster\<close>

lemma status_names: "n \<in> set clusterstatus_fields \<longleftrightarrow> n \<in> {''lastSavedGeneration'', ''lastSavedAt'',
  ''snapshotKey'', ''checksum'', ''metadataChecksum'', ''store'', ''serverName''}"
  by (auto simp: clusterstatus_fields_def)

lemmas status_steps = clusterstatus_field_def decode_string_def decode_int64_def ParseInt64_FormatInt

lemma decode_omit_string:
  assumes "n \<in> set ns" "\<And>x. f s n (JString x) = Inr (g x)" "x = '''' \<Longrightarrow> g x = s"
  shows "decode_fields f ns (omit_empty n JString x @ es) s = decode_fields f ns es (g x)"
  using assms by (simp add: omit_empty_def decode_fields_known del: decode_fields.simps(2))

lemma decode_clusterstatus_json:
  assumes "is_int64 (LastSavedGeneration s)"
  shows "decode_struct clusterstatus_field clusterstatus_fields zero_clusterstatus (clusterstatus_json s) = Inr s"
proof -
  have "decode_fields clusterstatus_field clusterstatus_fields
      (omit_empty ''serverName'' JString (Status_ServerName s)) t = Inr (t\<lparr>Status_ServerName := Status_ServerName s\<rparr>)"
    if "Status_ServerName t = ''''" for t
    using that by (simp add: omit_empty_def decode_fields_known status_names status_steps del: decode_fields.simps(2))
  with assms show ?thesis
    by (simp add: clusterstatus_json_def decode_struct_object decode_fields_known decode_omit_string
        status_names status_steps zero_clusterstatus_def del: decode_fields.simps(2))
qed

text \<open>The document a status is published as, field by field.\<close>

lemma clusterstatus_document:
  obtains doc where "clusterstatus_json s = JObject doc"
    "gmap_get doc ''lastSavedGeneration'' = Some (JNumber (FormatInt (LastSavedGeneration s)))"
    "\<forall>(name, value) \<in> set [(''lastSavedAt'', LastSavedAt s), (''snapshotKey'', SnapshotKey_of s),
       (''checksum'', Status_Checksum s), (''metadataChecksum'', MetadataChecksum s), (''store'', Status_Store s),
       (''serverName'', Status_ServerName s)]. gmap_get doc name = (if value = '''' then None else Some (JString value))"
proof -
  have f: "map_of (omit_empty n JString v @ es) k = (if n = k \<and> v \<noteq> '''' then Some (JString v) else map_of es k)"
    "map_of (omit_empty n JString v) k = (if n = k \<and> v \<noteq> '''' then Some (JString v) else None)" for n v es k
    by (simp_all add: omit_empty_def)
  show thesis by (rule that, unfold clusterstatus_json_def, rule refl) (simp_all add: gmap_get_def f del: map_of_append)
qed

definition status_texts :: "ClusterStatus \<Rightarrow> bool" where
  "status_texts s \<longleftrightarrow> list_all utf8_valid [LastSavedAt s, SnapshotKey_of s, Status_Checksum s, MetadataChecksum s,
     Status_Store s, Status_ServerName s]"

lemma status_json_printable:
  assumes "status_texts s"
  shows "printable (clusterstatus_json s)" "nesting (clusterstatus_json s) \<le> max_nesting_depth"
proof -
  have names: "list_all utf8_valid clusterstatus_fields" by code_simp
  then show "printable (clusterstatus_json s)"
    using assms valid_number_FormatInt [of "LastSavedGeneration s"]
    by (auto simp: clusterstatus_json_def clusterstatus_fields_def status_texts_def omit_empty_def)
  have "nesting (clusterstatus_json s) \<le> Suc 0"
    unfolding clusterstatus_json_def nesting_object_le by (auto simp: omit_empty_def)
  then show "nesting (clusterstatus_json s) \<le> max_nesting_depth" by (simp add: max_nesting_depth_def)
qed

text \<open>A status that was published and came back in the Cluster is read as it was.\<close>

lemma watermark_round_trip:
  assumes "is_int64 (LastSavedGeneration s)" "status_texts s" "Marshal (clusterstatus_json s) = Inr raw"
    and "Cluster_PluginStatus cluster = [\<lparr>PluginStatus_Name = PluginName, PluginStatus_Status = raw\<rparr>]"
  shows "WatermarkFromCluster cluster = Some s"
proof -
  have "parse_whole raw = Inr (clusterstatus_json s)"
    by (rule parse_whole_Marshal [OF assms(3) status_json_printable [OF assms(2)]])
  moreover have "raw \<noteq> ''''" using assms(3) by (auto simp: clusterstatus_json_def Marshal_def split: if_splits)
  ultimately show ?thesis
    using decode_clusterstatus_json [OF assms(1)] assms(4)
    by (simp add: WatermarkFromCluster_def decode_clusterstatus_def)
qed

section \<open>What a capture leaves behind\<close>

context object_store
begin

text \<open>
  When the hook goes through, the newest snapshot of the store has the content and the rules of the
  Cluster, and the cache names it; the store was written exactly when that was not so before.
\<close>

lemma capture_ensures:
  assumes "good w" "Store_Backend store = B" "writable (H_sha H) snap" "\<forall>raw. encode_snapshot snap = Inr raw \<longrightarrow> fits raw"
    and "capture H cluster fp snap store c w = (Inr b, c', w')"
  shows "good w' \<and> b = BEHAVIOR_CONTINUE \<and>
    (\<exists>latest key. latest_in (H_sha H) (Store_Layout store) (objs w') (latest, key)
      \<and> Checksum_of latest = Checksum_of snap \<and> CaptureRules latest = CaptureRules snap
      \<and> c' = remember c cluster fp key)
    \<and> (objs w' = objs w \<or> (\<exists>raw. encode_snapshot snap = Inr raw \<and>
         objs w' = (objs w)(snapshot_key (Store_Layout store) snap := Some raw, LatestKey (Store_Layout store) := Some raw)))"
proof -
  let ?l = "Store_Layout store"
  obtain res w1 where l: "Latest (H_sha H) store w = (res, w1)" "objs w1 = objs w" "good w1"
    "\<And>x. res = Inr x \<longleftrightarrow> latest_in (H_sha H) ?l (objs w) x"
    using Latest_refines [OF assms(1,2), of "H_sha H"] by blast
  obtain raw where raw: "encode_snapshot snap = Inr raw" "\<And>key. decodeSnapshot (H_sha H) raw key = Inr snap"
    using decodeSnapshot_encoded [OF assms(3)] by blast
  obtain w2 where w2: "Write store snap w1 = (Inr (snapshot_key ?l snap), w2)" "good w2"
    "objs w2 = (objs w1)(snapshot_key ?l snap := Some raw, LatestKey ?l := Some raw)"
    using Write_stores [OF l(3) assms(2) raw(1)] assms(4) raw(1) by blast
  have written: "latest_in (H_sha H) ?l (objs w2) (snap, snapshot_key ?l snap)"
    using w2(3) raw(2) by (simp add: latest_in_def)
  have wrote: ?thesis if "(Inr b, c', w') = (Inr BEHAVIOR_CONTINUE :: error + behavior, remember c cluster fp (snapshot_key ?l snap), w2)"
  proof -
    have "b = BEHAVIOR_CONTINUE" "c' = remember c cluster fp (snapshot_key ?l snap)" "w' = w2" using that by simp_all
    then show ?thesis using written w2(2,3) raw(1) l(2) by metis
  qed
  show ?thesis
  proof (cases res)
    case (Inl e)
    then show ?thesis
      using assms(5) l(1) w2(1) by (intro wrote) (auto simp: capture_def Let_def split: if_splits)
  next
    case (Inr x)
    obtain latest key where x: "x = (latest, key)" by (cases x)
    show ?thesis
    proof (cases "Checksum_of latest = Checksum_of snap \<and> CaptureRules latest = CaptureRules snap")
      case True
      then show ?thesis using assms(5) l Inr x by (auto simp: capture_def Let_def)
    next
      case False
      then show ?thesis using assms(5) l(1) Inr x w2(1) by (intro wrote) (auto simp: capture_def Let_def)
    qed
  qed
qed

end

section \<open>Repeating a hook\<close>

text \<open>A state already captured costs one read of the ConfigStore and changes nothing.\<close>

lemma Post_cluster_settled:
  assumes "IsSaveEnabled (NewFromCluster cluster)" "H_ConfigStore H (SaveToKey (NewFromCluster cluster)) w = (Inr cs, w')"
    and "liveFingerprint H cluster (GetCaptureGroups cs) = Inr fp" "already_captured cluster fp c"
  shows "Post_cluster H cluster c w = (Inr BEHAVIOR_CONTINUE, c, w')"
  using assms by (simp add: Post_cluster_def)

lemma liveFingerprint_total: "\<exists>fp. liveFingerprint H cluster gs = Inr fp"
  by (simp add: liveFingerprint_def Let_def MetadataFingerprint_total)

lemma EffectiveGroupNames_options: "ExtractOptions_groups \<lparr>Opt_Groups = gs, Opt_PluginVersion = v, Opt_Now = t\<rparr> = EffectiveGroupNames gs"
  by (simp add: ExtractOptions_groups_def EffectiveGroupNames_def)

lemma already_captured_remembered:
  "already_captured cluster fp (remember (Some entries) cluster fp key)"
  by (simp add: already_captured_def settled_remember)

lemma SetStatus_published:
  assumes "SetStatusInCluster H request c w = (Inr (JSONStatusResponse raw), w')"
  obtains cluster cs store latest key fp w1 w2 where
    "H_DecodeCluster H request = Inr cluster"
    "H_ConfigStore H (SaveToKey (NewFromCluster cluster)) w = (Inr cs, w1)"
    "Open (H_Resolver H) cs (SaveToServer (NewFromCluster cluster)) w1 = (Inr store, w2)"
    "Latest (H_sha H) store w2 = (Inr (latest, key), w')"
    "MetadataFingerprint (H_sha H) (Labels (ContentOf latest)) (Annotations (ContentOf latest))
       (CapturedGroups latest) (CaptureRules latest) = Inr fp"
    "Marshal (clusterstatus_json (published_status (NewFromCluster cluster) latest key fp)) = Inr raw"
  using assms unfolding SetStatusInCluster_def Let_def
  by (auto split: sum.splits prod.splits if_splits simp: map_sum_Inr_iff)

text \<open>Reading a snapshot as the latest one verifies it, whatever the backend does.\<close>

lemma Latest_verified:
  assumes "Latest sha s w = (Inr (snap, key), w')"
  shows "Checksum sha (ContentOf snap) = Inr (Checksum_of snap) \<and> content_ok (ContentOf snap)"
proof -
  obtain raw k where "decodeSnapshot sha raw k = Inr snap"
    using assms by (auto simp: Latest_def Read_def Let_def split: sum.splits prod.splits if_splits)
  then show ?thesis using decodeSnapshot_verified decode_snapshot_content_ok by blast
qed

section \<open>A Cluster with a status in it\<close>

definition with_status :: "bytes \<Rightarrow> Cluster \<Rightarrow> Cluster" where
  "with_status raw cluster =
     cluster\<lparr>Cluster_PluginStatus := [\<lparr>PluginStatus_Name = PluginName, PluginStatus_Status = raw\<rparr>]\<rparr>"

lemma from_plugins_with_status:
  "from_plugins (with_status raw cluster) ps = (from_plugins cluster ps)\<lparr>PC_Cluster := Some (with_status raw cluster)\<rparr>"
  by (induction ps) (auto simp: with_status_def NewFromParameters_def Let_def)

lemma NewFromCluster_with_status:
  "NewFromCluster (with_status raw cluster) = (NewFromCluster cluster)\<lparr>PC_Cluster := Some (with_status raw cluster)\<rparr>"
  by (simp add: NewFromCluster_def from_plugins_with_status) (simp add: with_status_def)

lemma with_status_same:
  "SaveToKey (NewFromCluster (with_status raw cluster)) = SaveToKey (NewFromCluster cluster)"
  "IsSaveEnabled (NewFromCluster (with_status raw cluster)) = IsSaveEnabled (NewFromCluster cluster)"
  "liveFingerprint H (with_status raw cluster) gs = liveFingerprint H cluster gs"
  "Cluster_Generation (with_status raw cluster) = Cluster_Generation cluster"
  unfolding NewFromCluster_with_status
  by (simp_all add: IsSaveEnabled_def liveFingerprint_def with_status_def SaveToKey_def NewFromCluster_def
      from_plugins_cluster)

lemma with_status_sel:
  "Cluster_ToMap (with_status raw cluster) = Cluster_ToMap cluster" "Cluster_Labels (with_status raw cluster) = Cluster_Labels cluster"
  "Cluster_Annotations (with_status raw cluster) = Cluster_Annotations cluster" "Cluster_Name (with_status raw cluster) = Cluster_Name cluster"
  "Cluster_Namespace (with_status raw cluster) = Cluster_Namespace cluster" "Cluster_UID (with_status raw cluster) = Cluster_UID cluster"
  "Status_Image (with_status raw cluster) = Status_Image cluster"
  by (simp_all add: with_status_def)

lemma Extract_with_status: "Extract C sha now (Some (with_status raw cluster)) opts = Extract C sha now (Some cluster) opts"
  by (simp only: Extract_def option.case with_status_sel with_status_same)

text \<open>
  The watermark of a snapshot captured from this state of the Cluster is the Cluster's own: its
  generation and the fingerprint of its metadata.
\<close>

lemma watermark_of_capture:
  assumes "Extract (H_cnpg H) (H_sha H) now (Some cluster) \<lparr>Opt_Groups = gs, Opt_PluginVersion = v, Opt_Now = 0\<rparr> = Inr snap"
    and "Cluster_ToMap cluster = Inr source"
  shows "Generation snap = Cluster_Generation cluster"
    "MetadataFingerprint (H_sha H) (Labels (ContentOf snap)) (Annotations (ContentOf snap)) (CapturedGroups snap)
       (CaptureRules snap) = liveFingerprint H cluster gs"
  using MetadataFingerprint_converges [OF assms] assms
  by (auto simp: EffectiveGroupNames_options liveFingerprint_def Let_def Extract_def split: sum.splits)

section \<open>A store whose bucket does not exist\<close>

lemma capture_missing_bucket:
  assumes "bucket_missing (S3_client b) (S3_bucket b) w" "Store_Backend store = s3_backend b"
  shows "\<exists>e. capture H cluster fp snap store c w = (Inl e, c, w)"
  using Latest_missing_bucket [OF assms, of "H_sha H"] by (auto simp: capture_def Let_def)

section \<open>The cache stays small\<close>

lemma capture_cache: "capture H cluster fp snap store c w = (res, c', w') \<Longrightarrow> c' = c \<or> (\<exists>key. c' = remember c cluster fp key)"
  by (auto simp: capture_def Let_def split: prod.splits sum.splits if_splits)

lemma Post_cache:
  assumes "Post H request c w = (res, c', w')"
  shows "c' = c \<or> (\<exists>cluster fp key. c' = remember c cluster fp key)"
proof -
  have "c' = c \<or> (\<exists>fp key. c' = remember c cluster fp key)" if "Post_cluster H cluster c w = (res, c', w')" for cluster
    using that capture_cache unfolding Post_cluster_def Let_def
    by (fastforce split: prod.splits sum.splits if_splits)
  then show ?thesis using assms by (auto simp: Post_def split: sum.splits if_splits)
qed

end
