(* ===== verification/Wired_Samples.thy ===== *)
theory Wired_Samples
  imports Capture_Hook Samples
begin

text \<open>
  The hooks of \<open>internal/cnpgi/operator\<close> wired to the in-memory backend of \<open>storetest\<close>: the concrete
  Cluster, ConfigStore, provider and history the witnesses of the hook and webhook properties run on.
\<close>

section \<open>A wired hook\<close>

text \<open>The hooks over the in-memory backend, with a hash that is the same for every text.\<close>

definition flat_sha :: "bytes \<Rightarrow> string" where
  "flat_sha s = ''00000000''"

definition sample_saved :: Cluster where
  "sample_saved = sample_cluster\<lparr>Cluster_Plugins :=
     [\<lparr>Plugin_Name = PluginName, Plugin_Enabled = None, Plugin_Parameters = [(''saveToStore'', ''archive'')]\<rparr>]\<rparr>"

definition sample_configstore :: ConfigStore where
  "sample_configstore = \<lparr>Store_Name = ''archive'', Store_Namespace = ''prod'', DerivedFrom = None,
     Configuration = None, Retention = '''', CaptureGroups = [''Gucs'', ''Instances'', ''Metadata''], Store_Prefix = ''''\<rparr>"

definition sample_provider :: "memory Provider" where
  "sample_provider = test_provider \<lparr>Test_Store = memory_backend, ResolveErr = None, BackendErr = None\<rparr>"

definition sample_hooks :: "memory hooks" where
  "sample_hooks = \<lparr>H_GetKind = (\<lambda>_. Inr ''Cluster''), H_DecodeCluster = (\<lambda>_. Inr sample_saved),
     H_ConfigStore = (\<lambda>_ w. (Inr sample_configstore, w)), H_Resolver = sample_provider,
     H_now = (\<lambda>_. sample_time), H_sha = flat_sha, H_cnpg = sample_cnpg, H_Version = ''1.0.0''\<rparr>"

definition sample_captured :: Snapshot where
  "sample_captured = sample_stored\<lparr>CaptureRules := ''sha256:00000000'', Checksum_of := ''sha256:00000000''\<rparr>"

definition sample_archive :: "memory SnapshotStore" where
  "sample_archive = \<lparr>Store_Backend = memory_backend,
     Store_Layout = \<lparr>BasePath = '''', ServerName = ''db'', Prefix = ''chronicle''\<rparr>\<rparr>"

lemma flat_digest: "digest flat_sha x = ''sha256:00000000''"
  by (simp add: digest_def flat_sha_def)

lemma sample_flat_checksum: "Checksum flat_sha sample_content = Inr ''sha256:00000000''"
  using sample_checksum by (auto simp: Checksum_def flat_digest split: sum.splits)

lemma sample_flat_rules: "CaptureRulesDigest C flat_sha gs = ''sha256:00000000''"
  by (simp add: CaptureRulesDigest_def flat_digest Let_def split: sum.splits)

lemma sample_saved_configuration:
  "IsSaveEnabled (NewFromCluster sample_saved)" "SaveToKey (NewFromCluster sample_saved) = (''prod'', ''archive'')"
  "SaveToServer (NewFromCluster sample_saved) = ''db''" "SaveToStore (NewFromCluster sample_saved) = ''archive''"
  by code_simp+

lemma sample_capture:
  "Extract sample_cnpg flat_sha sample_time (Some sample_saved)
     \<lparr>Opt_Groups = [''Gucs'', ''Instances'', ''Metadata''], Opt_PluginVersion = ''1.0.0'', Opt_Now = 0\<rparr> = Inr sample_captured"
proof -
  have "Cluster_ToMap sample_saved = Inr sample_tree" "Cluster_Labels sample_saved = Cluster_Labels sample_cluster"
    "Cluster_Annotations sample_saved = Cluster_Annotations sample_cluster"
    by (simp_all add: sample_saved_def sample_cluster_def)
  then show ?thesis
    by (simp add: Extract_def Let_def ExtractOptions_groups_def ExtractOptions_now_def sample_groups sample_denylist
        sample_sanitize sample_metadata sample_content_eta sample_flat_checksum sample_flat_rules sample_captured_def
        sample_stored_def del: extract_groups.simps)
      (simp add: sample_saved_def sample_cluster_def)
qed

lemma sample_captured_writable: "writable flat_sha sample_captured"
proof -
  have "snapshot_ok sample_captured" by code_simp
  moreover have "case snapshot_json sample_captured of Inl _ \<Rightarrow> False | Inr doc \<Rightarrow> printable doc \<and> nesting doc \<le> 10"
    by code_simp
  ultimately show ?thesis
    using sample_flat_checksum
    by (auto simp: writable_def sample_captured_def sample_stored_def max_nesting_depth_def split: sum.splits)
qed

lemma sample_hooks_sel [simp]:
  "H_ConfigStore sample_hooks k w = (Inr sample_configstore, w)" "H_sha sample_hooks = flat_sha"
  "H_cnpg sample_hooks = sample_cnpg" "H_now sample_hooks w = sample_time" "H_Version sample_hooks = ''1.0.0''"
  "H_Resolver sample_hooks = sample_provider" "H_DecodeCluster sample_hooks r = Inr sample_saved"
  "GetCaptureGroups sample_configstore = [''Gucs'', ''Instances'', ''Metadata'']"
  by (simp_all add: sample_hooks_def sample_configstore_def GetCaptureGroups_def)

lemma sample_open: "Open sample_provider sample_configstore ''db'' w = (Inr sample_archive, w)"
  by (simp add: sample_provider_def Open_test_provider sample_archive_def GetPrefix_def sample_configstore_def DefaultPrefix_def)

lemma sample_key: "snapshot_key (Store_Layout sample_archive) sample_captured =
    ''db/chronicle/snapshots/20260101T120000Z-g0000000007-00000000.json''"
  by code_simp

lemma sample_fresh: "\<not> already_captured sample_saved fp (Some [])"
  by (simp add: already_captured_def settled_def sample_saved_def sample_cluster_def WatermarkFromCluster_def)

lemma sample_history_written:
  obtains w where "memory_ok w"
    "fst (Latest flat_sha sample_archive w) = Inr (sample_captured, snapshot_key (Store_Layout sample_archive) sample_captured)"
proof -
  have "Store_Backend sample_archive = memory_backend" by (simp add: sample_archive_def)
  then show ?thesis
    using mem.Write_then_read [OF sample_memory_ok _ sample_captured_writable, of sample_archive] that by blast
qed


text \<open>The first capture of the sample Cluster into an empty store.\<close>

lemma sample_posted:
  obtains c' w' where "Post_cluster sample_hooks sample_saved (Some []) NewBackend = (Inr BEHAVIOR_CONTINUE, c', w')"
    "memory_ok w'" "fst (Latest flat_sha sample_archive w') = Inr (sample_captured, snapshot_key (Store_Layout sample_archive) sample_captured)"
proof -
  obtain fp where fp: "liveFingerprint sample_hooks sample_saved (GetCaptureGroups sample_configstore) = Inr fp"
    using liveFingerprint_total by blast
  have b: "Store_Backend sample_archive = memory_backend" by (simp add: sample_archive_def)
  have "case fst (Latest flat_sha sample_archive NewBackend) of Inl e \<Rightarrow> errors_Is e ErrNotFound | Inr _ \<Rightarrow> False"
    by code_simp
  then obtain e w1 where e: "Latest flat_sha sample_archive NewBackend = (Inl e, w1)" "errors_Is e ErrNotFound"
    by (cases "Latest flat_sha sample_archive NewBackend") (auto split: sum.splits)
  have "memory_ok w1" using mem.Latest_refines [OF sample_memory_ok b, of flat_sha] e(1) by auto
  then obtain w2 where w2: "memory_ok w2"
    "Write sample_archive sample_captured w1 = (Inr (snapshot_key (Store_Layout sample_archive) sample_captured), w2)"
    "fst (Latest flat_sha sample_archive w2) = Inr (sample_captured, snapshot_key (Store_Layout sample_archive) sample_captured)"
    using mem.Write_then_read [OF _ b sample_captured_writable] by blast
  then have "\<exists>c'. capture sample_hooks sample_saved fp sample_captured sample_archive (Some []) NewBackend
      = (Inr BEHAVIOR_CONTINUE, c', w2)"
    using e by (simp add: capture_def)
  then obtain c' where "Post_cluster sample_hooks sample_saved (Some []) NewBackend = (Inr BEHAVIOR_CONTINUE, c', w2)"
    using fp sample_fresh sample_capture sample_open by (auto simp: Post_cluster_def sample_saved_configuration)
  then show thesis using that w2(1,3) by blast
qed

end
