(* ===== verification/Plugin_Services.thy ===== *)
theory Plugin_Services
  imports Plugin_Config
begin

text \<open>
  What the plugin tells the CloudNativePG operator about itself: the Identity service
  (\<open>internal/cnpgi/identity/impl.go\<close>, with \<open>metadata.Data\<close>) and the capabilities of the two services it
  serves (\<open>GetCapabilities\<close> in \<open>internal/cnpgi/operator/reconciler.go\<close> and \<open>status.go\<close>). The version is set
  when the plugin is linked, so it is a parameter; the fields of \<open>Data\<close> that no code reads are kept as
  the code has them.
\<close>

record plugin_metadata =
  Meta_Name :: string
  Meta_Version :: string
  Meta_DisplayName :: string
  Meta_Description :: string
  Meta_ProjectUrl :: string
  Meta_RepositoryUrl :: string
  Meta_License :: string
  Meta_LicenseUrl :: string
  Meta_Maturity :: string

definition Data :: "string \<Rightarrow> plugin_metadata" where
  "Data version =
     \<lparr>Meta_Name = PluginName,
      Meta_Version = version,
      Meta_DisplayName = ''Chronicle for CloudNativePG'',
      Meta_Description = ''Snapshots CloudNativePG Cluster configuration to an object store and restores it on cluster creation.'',
      Meta_ProjectUrl = ''https://github.com/sharifmshaker/cnpg-i-chronicle'',
      Meta_RepositoryUrl = ''https://github.com/sharifmshaker/cnpg-i-chronicle'',
      Meta_License = ''Apache-2.0'',
      Meta_LicenseUrl = ''https://github.com/sharifmshaker/cnpg-i-chronicle/blob/main/LICENSE'',
      Meta_Maturity = ''alpha''\<rparr>"

text \<open>The constants of the CNPG-I protocol the answers use.\<close>

datatype service_type = TYPE_RECONCILER_HOOKS | TYPE_OPERATOR_SERVICE

datatype hook_kind = KIND_CLUSTER

datatype operator_rpc = RPC_TYPE_SET_STATUS_IN_CLUSTER

definition GetPluginMetadata :: "string \<Rightarrow> plugin_metadata" where
  "GetPluginMetadata version = Data version"

definition GetPluginCapabilities :: "service_type list" where
  "GetPluginCapabilities = [TYPE_RECONCILER_HOOKS, TYPE_OPERATOR_SERVICE]"

definition Probe :: bool where
  "Probe = True"

definition hook_capabilities :: "hook_kind list" where
  "hook_capabilities = [KIND_CLUSTER]"

definition operator_capabilities :: "operator_rpc list" where
  "operator_capabilities = [RPC_TYPE_SET_STATUS_IN_CLUSTER]"

text \<open>\<open>CNPGI.NeedLeaderElection\<close>: every replica serves.\<close>

definition NeedLeaderElection :: bool where
  "NeedLeaderElection = False"

end
