(* ===== verification/Plugin_Process.thy ===== *)
theory Plugin_Process
  imports Capture_Hook Plugin_Services
begin

text \<open>
  The process: the \<open>operator\<close> subcommand with its flags and the manager it assembles
  (\<open>internal/cmd/operator/cmd.go\<close>), the types it registers (\<open>api/v1/groupversion_info.go\<close>), \<open>main\<close>, and the gRPC
  server with its two services over one cache (\<open>internal/cnpgi/operator/start.go\<close>). cobra, viper and
  controller-runtime are parameters: what the code hands to them is data here.
\<close>

section \<open>The registered types\<close>

definition GroupVersion :: "string \<times> string" where
  "GroupVersion = (''chronicle.sharifmshaker.github.io'', ''v1'')"

definition addKnownTypes :: "((string \<times> string) \<times> string) list \<Rightarrow> ((string \<times> string) \<times> string) list" where
  "addKnownTypes scheme =
     scheme @ map (Pair GroupVersion) [''ConfigStore'', ''ConfigStoreList'', ''RestorePolicy'', ''RestorePolicyList'']"

section \<open>The command\<close>

datatype flag_default = StringFlag string | IntFlag int | BoolFlag bool

record flag =
  Flag_Name :: string
  Flag_Default :: flag_default
  Flag_Usage :: string

record command =
  Use :: string
  Short :: string
  Flags :: "flag list"
  RequiredTogether :: "string list list"
  MutuallyExclusive :: "string list list"

definition NewCmd :: command where
  "NewCmd = \<lparr>Use = ''operator'', Short = ''Run the plugin's operator-side services'',
     Flags = [
       \<lparr>Flag_Name = ''server-cert'', Flag_Default = StringFlag '''',
         Flag_Usage = ''TLS certificate presented to the CloudNativePG operator''\<rparr>,
       \<lparr>Flag_Name = ''server-key'', Flag_Default = StringFlag '''', Flag_Usage = ''Key for the server certificate''\<rparr>,
       \<lparr>Flag_Name = ''client-cert'', Flag_Default = StringFlag '''',
         Flag_Usage = ''CA used to verify the operator's client certificate''\<rparr>,
       \<lparr>Flag_Name = ''server-address'', Flag_Default = StringFlag '''',
         Flag_Usage = ''Address for the gRPC listener, e.g. :9090''\<rparr>,
       \<lparr>Flag_Name = ''plugin-path'', Flag_Default = StringFlag '''',
         Flag_Usage = ''Directory for a unix socket, when running as an operator sidecar''\<rparr>,
       \<lparr>Flag_Name = ''webhook-port'', Flag_Default = IntFlag 9443, Flag_Usage = ''Port for the restore admission webhook''\<rparr>,
       \<lparr>Flag_Name = ''webhook-cert-dir'', Flag_Default = StringFlag ''/server'',
         Flag_Usage = ''Directory holding the webhook's tls.crt and tls.key''\<rparr>,
       \<lparr>Flag_Name = ''metrics-bind-address'', Flag_Default = StringFlag ''0'',
         Flag_Usage = ''Address for the metrics endpoint, 0 to disable''\<rparr>,
       \<lparr>Flag_Name = ''health-probe-bind-address'', Flag_Default = StringFlag '':8081'',
         Flag_Usage = ''Address for the health probe endpoint''\<rparr>,
       \<lparr>Flag_Name = ''leader-elect'', Flag_Default = BoolFlag False, Flag_Usage = ''Enable leader election''\<rparr>],
     RequiredTogether = [[''server-cert'', ''server-key'', ''client-cert'', ''server-address'']],
     MutuallyExclusive = [[''server-cert'', ''plugin-path'']]\<rparr>"


section \<open>The manager\<close>

text \<open>Which reader a component is given: the manager's caching client, or the API server itself.\<close>

datatype reader = ManagerClient | ManagerAPIReader

record wired_resolver =
  WR_Client :: reader
  WR_ObjectStores :: reader
  WR_TTL :: int

record wired_controller =
  WC_For :: string
  WC_GenerationChanged :: bool
  WC_Named :: string
  WC_Client :: reader
  WC_Resolver :: "wired_resolver option"

record CNPGI =
  CNPGI_Client :: reader
  CNPGI_Resolver :: wired_resolver
  PluginPath :: string
  ServerCertPath :: string
  ServerKeyPath :: string
  ClientCertPath :: string
  ServerAddress :: string

record wired_webhook =
  WW_Client :: reader
  WW_Resolver :: wired_resolver

datatype health_check = Ping | WebhookStarted

record manager_options =
  MetricsBindAddress :: string
  HealthProbeBindAddress :: string
  LeaderElection :: bool
  LeaderElectionID :: string
  LeaderElectionReleaseOnCancel :: bool
  WebhookPort :: int
  WebhookCertDir :: string
  CacheDisableFor :: "string list"

record viper =
  GetString :: "string \<Rightarrow> string"
  GetInt :: "string \<Rightarrow> int"
  GetBool :: "string \<Rightarrow> bool"

record 'm manager_api =
  NewManager :: "manager_options \<Rightarrow> error + 'm"
  Complete :: "wired_controller \<Rightarrow> 'm \<Rightarrow> error option \<times> 'm"
  Manager_Add :: "CNPGI \<Rightarrow> 'm \<Rightarrow> error option \<times> 'm"
  Webhook_Register :: "string \<Rightarrow> wired_webhook \<Rightarrow> 'm \<Rightarrow> 'm"
  AddHealthzCheck :: "string \<Rightarrow> health_check \<Rightarrow> 'm \<Rightarrow> error option \<times> 'm"
  AddReadyzCheck :: "string \<Rightarrow> health_check \<Rightarrow> 'm \<Rightarrow> error option \<times> 'm"
  Manager_Start :: "'m \<Rightarrow> error option \<times> 'm"

definition store_SetupWithManager :: "reader \<Rightarrow> wired_resolver \<Rightarrow> wired_controller" where
  "store_SetupWithManager reader resolver =
     \<lparr>WC_For = ''ConfigStore'', WC_GenerationChanged = True, WC_Named = ''configstore'', WC_Client = reader,
      WC_Resolver = Some resolver\<rparr>"

definition policy_SetupWithManager :: "reader \<Rightarrow> wired_controller" where
  "policy_SetupWithManager reader =
     \<lparr>WC_For = ''RestorePolicy'', WC_GenerationChanged = True, WC_Named = ''restorepolicy'', WC_Client = reader,
      WC_Resolver = None\<rparr>"

text \<open>One fallible step of the start-up, and what follows when it succeeds.\<close>

definition attempt :: "string \<Rightarrow> error option \<times> 'm \<Rightarrow> ('m \<Rightarrow> error option \<times> 'm) \<Rightarrow> error option \<times> 'm" where
  "attempt what result rest =
     (case result of (Some err, m) \<Rightarrow> (Some (Wrapped what [] err), m) | (None, m) \<Rightarrow> rest m)"

definition run_options :: "viper \<Rightarrow> manager_options" where
  "run_options V =
     \<lparr>MetricsBindAddress = GetString V ''metrics-bind-address'',
      HealthProbeBindAddress = GetString V ''health-probe-bind-address'',
      LeaderElection = GetBool V ''leader-elect'',
      LeaderElectionID = ''chronicle.sharifmshaker.github.io'',
      LeaderElectionReleaseOnCancel = True,
      WebhookPort = GetInt V ''webhook-port'',
      WebhookCertDir = GetString V ''webhook-cert-dir'',
      CacheDisableFor = [''Secret'', ''Cluster'']\<rparr>"

definition run_resolver :: wired_resolver where
  "run_resolver = \<lparr>WR_Client = ManagerClient, WR_ObjectStores = ManagerAPIReader, WR_TTL = DefaultObjectStoreTTL\<rparr>"

definition run_server :: "viper \<Rightarrow> CNPGI" where
  "run_server V =
     \<lparr>CNPGI_Client = ManagerClient, CNPGI_Resolver = run_resolver,
      PluginPath = GetString V ''plugin-path'',
      ServerCertPath = GetString V ''server-cert'',
      ServerKeyPath = GetString V ''server-key'',
      ClientCertPath = GetString V ''client-cert'',
      ServerAddress = GetString V ''server-address''\<rparr>"

definition run :: "viper \<Rightarrow> 'm manager_api \<Rightarrow> error option \<times> 'm option" where
  "run V M =
     (case NewManager M (run_options V) of
        Inl err \<Rightarrow> (Some (Wrapped ''while creating the manager'' [] err), None)
      | Inr m \<Rightarrow> map_prod id Some (
          attempt ''while setting up the ConfigStore controller''
            (Complete M (store_SetupWithManager ManagerClient run_resolver) m) (\<lambda>m.
          attempt ''while setting up the RestorePolicy controller'' (Complete M (policy_SetupWithManager ManagerClient) m) (\<lambda>m.
          attempt ''while registering the plugin server'' (Manager_Add M (run_server V) m) (\<lambda>m.
          let m = Webhook_Register M ''/mutate-postgresql-cnpg-io-v1-cluster''
                \<lparr>WW_Client = ManagerAPIReader, WW_Resolver = run_resolver\<rparr> m in
          attempt ''while adding the health check'' (AddHealthzCheck M ''healthz'' Ping m) (\<lambda>m.
          attempt ''while adding the webhook readiness check'' (AddReadyzCheck M ''webhook'' WebhookStarted m) (\<lambda>m.
          attempt ''while running the manager'' (Manager_Start M m) (\<lambda>m. (None, m)))))))))"

text \<open>\<open>main\<close>: the root command with its one subcommand, what is printed on standard error and the exit code.\<close>

record root_command =
  Root_Use :: string
  Root_Short :: string
  Root_Commands :: "command list"

definition rootCmd :: root_command where
  "rootCmd = \<lparr>Root_Use = ''manager'',
     Root_Short = ''Chronicle: a configuration snapshot and restore plugin for CloudNativePG'', Root_Commands = [NewCmd]\<rparr>"

definition main :: "(root_command \<Rightarrow> error option) \<Rightarrow> string option \<times> int" where
  "main execute = (case execute rootCmd of None \<Rightarrow> (None, 0) | Some err \<Rightarrow> (Some (Error err), 1))"

subsection \<open>The order of the steps\<close>

datatype step = Completed wired_controller | Added CNPGI | Registered string wired_webhook
  | Healthz string health_check | Readyz string health_check | Started

definition record_step :: "(step \<Rightarrow> error option) \<Rightarrow> step \<Rightarrow> step list \<Rightarrow> error option \<times> step list" where
  "record_step fails s log = (case fails s of Some err \<Rightarrow> (Some err, log) | None \<Rightarrow> (None, log @ [s]))"

definition recorder :: "(step \<Rightarrow> error option) \<Rightarrow> step list manager_api" where
  "recorder fails =
     \<lparr>NewManager = (\<lambda>_. Inr []), Complete = (\<lambda>c. record_step fails (Completed c)),
      Manager_Add = (\<lambda>c. record_step fails (Added c)), Webhook_Register = (\<lambda>p h log. log @ [Registered p h]),
      AddHealthzCheck = (\<lambda>n c. record_step fails (Healthz n c)), AddReadyzCheck = (\<lambda>n c. record_step fails (Readyz n c)),
      Manager_Start = record_step fails Started\<rparr>"

text \<open>
  The manager starts last, with everything registered, and only when nothing before failed; readiness is
  the webhook's, and the webhook reads past the cache.
\<close>

lemma run_starts_last:
  assumes "run V (recorder fails) = (res, Some log)" "Started \<in> set log"
  shows "res = None \<and> log = [Completed (store_SetupWithManager ManagerClient run_resolver),
    Completed (policy_SetupWithManager ManagerClient), Added (run_server V),
    Registered ''/mutate-postgresql-cnpg-io-v1-cluster'' \<lparr>WW_Client = ManagerAPIReader, WW_Resolver = run_resolver\<rparr>,
    Healthz ''healthz'' Ping, Readyz ''webhook'' WebhookStarted, Started]"
  using assms by (auto simp: run_def recorder_def record_step_def attempt_def Let_def split: option.splits)

section \<open>Serving\<close>

text \<open>The RPCs of the identity, reconciler-hook and operator services.\<close>

datatype rpc = IdentityGetPluginMetadata | IdentityGetPluginCapabilities | IdentityProbe
  | HooksGetCapabilities | HooksPre hook_request | HooksPost hook_request
  | OperatorGetCapabilities | OperatorSetStatusInCluster bytes

datatype answer = MetadataAnswer plugin_metadata | CapabilitiesAnswer "service_type list" | ReadyAnswer bool
  | HooksAnswer "hook_kind list" | BehaviorAnswer behavior | OperatorAnswer "operator_rpc list" | StatusAnswer status_response

text \<open>\<open>Start\<close> gives both services one cache, which is empty at first.\<close>

definition Start :: "settledCache option" where
  "Start = Some newSettledCache"

definition serve ::
  "'w hooks \<Rightarrow> rpc \<Rightarrow> settledCache option \<Rightarrow> 'w \<Rightarrow> (error + answer) \<times> settledCache option \<times> 'w" where
  "serve H request cache w =
     (case request of
        IdentityGetPluginMetadata \<Rightarrow> (Inr (MetadataAnswer (GetPluginMetadata (H_Version H))), cache, w)
      | IdentityGetPluginCapabilities \<Rightarrow> (Inr (CapabilitiesAnswer GetPluginCapabilities), cache, w)
      | IdentityProbe \<Rightarrow> (Inr (ReadyAnswer Probe), cache, w)
      | HooksGetCapabilities \<Rightarrow> (Inr (HooksAnswer hook_capabilities), cache, w)
      | HooksPre q \<Rightarrow> (map_sum id BehaviorAnswer (Pre H q), cache, w)
      | HooksPost q \<Rightarrow> (case Post H q cache w of (res, cache, w) \<Rightarrow> (map_sum id BehaviorAnswer res, cache, w))
      | OperatorGetCapabilities \<Rightarrow> (Inr (OperatorAnswer operator_capabilities), cache, w)
      | OperatorSetStatusInCluster q \<Rightarrow>
          (case SetStatusInCluster H q cache w of (res, w) \<Rightarrow> (map_sum id StatusAnswer res, cache, w)))"

text \<open>A serving process: calls in any order, with the world changing in between.\<close>

inductive serving :: "'w hooks \<Rightarrow> settledCache option \<Rightarrow> 'w \<Rightarrow> bool" for H where
  started: "serving H Start w"
| answered: "serving H cache w \<Longrightarrow> serve H request cache w = (res, cache', w') \<Longrightarrow> serving H cache' w'"
| outside: "serving H cache w \<Longrightarrow> serving H cache w'"

lemma serve_cache:
  "serve H request c w = (res, c', w') \<Longrightarrow> c' = c \<or> (\<exists>cluster fp key. c' = remember c cluster fp key)"
  using Post_cache by (fastforce simp: serve_def split: rpc.splits prod.splits)

lemma remember_Some: "\<exists>entries. remember (Some es) cluster fp key = Some entries"
  by (simp add: remember_def Let_def)

lemma serving_cache: "serving H c w \<Longrightarrow> cache_ok c \<and> (\<exists>entries. c = Some entries)"
proof (induction rule: serving.induct)
  case (started w)
  show ?case by (simp add: Start_def newSettledCache_def cache_ok_def gmap_ok_def)
next
  case (answered cache w request res cache' w')
  then show ?case using serve_cache [OF answered(2)] remember_ok remember_Some by metis
qed

end
