(* ===== verification/Hook_Properties.thy ===== *)
theory Hook_Properties
  imports Wired_Samples Plugin_Process
begin

text \<open>
  Properties of the reconciler hooks and the status RPC (\<open>internal/cnpgi/operator\<close>): a capture that
  goes through is in the store, is not repeated, and is reported truthfully.
\<close>

section \<open>Capturing\<close>

text \<open>C20. A capture that goes through is in the store: whenever the Post hook continues after its
  slow path, the newest snapshot has the checksum and the capture rules of the Cluster, and the hook
  run again on the same Cluster answers from its cache without touching the store.\<close>

theorem post_captures_and_settles:
  assumes "object_store B objs good fits"
    and "IsSaveEnabled (NewFromCluster cluster)" "H_ConfigStore H (SaveToKey (NewFromCluster cluster)) w = (Inr cs, w1)"
    and "liveFingerprint H cluster (GetCaptureGroups cs) = Inr fp" "\<not> already_captured cluster fp (Some entries)"
    and "Extract (H_cnpg H) (H_sha H) (H_now H w1) (Some cluster)
      \<lparr>Opt_Groups = GetCaptureGroups cs, Opt_PluginVersion = H_Version H, Opt_Now = 0\<rparr> = Inr snap"
    and "Open (H_Resolver H) cs (SaveToServer (NewFromCluster cluster)) w1 = (Inr store, w2)"
    and "Store_Backend store = B" "good w2" "writable (H_sha H) snap" "\<forall>raw. encode_snapshot snap = Inr raw \<longrightarrow> fits raw"
    and "Post_cluster H cluster (Some entries) w = (Inr b, c', w')"
  shows "b = BEHAVIOR_CONTINUE
    \<and> (\<exists>latest key. latest_in (H_sha H) (Store_Layout store) (objs w') (latest, key)
         \<and> Checksum_of latest = Checksum_of snap \<and> CaptureRules latest = CaptureRules snap)
    \<and> (\<forall>v v'. H_ConfigStore H (SaveToKey (NewFromCluster cluster)) v = (Inr cs, v') \<longrightarrow>
         Post_cluster H cluster c' v = (Inr BEHAVIOR_CONTINUE, c', v'))"
proof -
  have "capture H cluster fp snap store (Some entries) w2 = (Inr b, c', w')"
    using assms(12) by (simp add: Post_cluster_def assms(2-7))
  from object_store.capture_ensures [OF assms(1,9,8,10,11) this]
  obtain latest key where l: "b = BEHAVIOR_CONTINUE" "latest_in (H_sha H) (Store_Layout store) (objs w') (latest, key)"
    "Checksum_of latest = Checksum_of snap" "CaptureRules latest = CaptureRules snap"
    "c' = remember (Some entries) cluster fp key"
    by blast
  then show ?thesis
    using Post_cluster_settled [OF assms(2) _ assms(4)] already_captured_remembered by metis
qed

theorem post_captures_and_settles_witness:
  "\<exists>c' w'. Post_cluster sample_hooks sample_saved (Some []) NewBackend = (Inr BEHAVIOR_CONTINUE, c', w')
    \<and> (\<exists>latest key. latest_in flat_sha (Store_Layout sample_archive) (gmap_get (Objects w')) (latest, key)
        \<and> Checksum_of latest = ''sha256:00000000'')
    \<and> Post_cluster sample_hooks sample_saved c' w' = (Inr BEHAVIOR_CONTINUE, c', w')"
proof -
  obtain fp where fp: "liveFingerprint sample_hooks sample_saved (GetCaptureGroups sample_configstore) = Inr fp"
    using liveFingerprint_total by blast
  have b: "Store_Backend sample_archive = memory_backend" by (simp add: sample_archive_def)
  obtain c' w' where run: "Post_cluster sample_hooks sample_saved (Some []) NewBackend = (Inr BEHAVIOR_CONTINUE, c', w')"
    by (rule sample_posted)
  have "(\<exists>latest key. latest_in flat_sha (Store_Layout sample_archive) (gmap_get (Objects w')) (latest, key)
        \<and> Checksum_of latest = Checksum_of sample_captured)
      \<and> Post_cluster sample_hooks sample_saved c' w' = (Inr BEHAVIOR_CONTINUE, c', w')"
    using post_captures_and_settles [where snap = sample_captured, OF mem.object_store_axioms
        sample_saved_configuration(1) _ fp sample_fresh _ _ b sample_memory_ok _ _ run]
      sample_capture sample_open sample_captured_writable
    by (fastforce simp: sample_saved_configuration)
  with run show ?thesis by (auto simp: sample_captured_def)
qed

text \<open>C21. The watermark settles: once the status published for a captured state is back in the
  Cluster, the Post hook recognises that state from the Cluster alone, whatever its cache holds.\<close>

theorem watermark_settles_the_hook:
  assumes "SetStatusInCluster H request c w = (Inr (JSONStatusResponse raw), w')"
    and "H_DecodeCluster H request = Inr cluster" "Cluster_ToMap cluster = Inr source"
    and "IsSaveEnabled (NewFromCluster cluster)" "H_ConfigStore H (SaveToKey (NewFromCluster cluster)) w = (Inr cs, w1)"
    and "Open (H_Resolver H) cs (SaveToServer (NewFromCluster cluster)) w1 = (Inr store, w2)"
    and "fst (Latest (H_sha H) store w2) = Inr (snap, key)"
    and "Extract (H_cnpg H) (H_sha H) now (Some cluster)
      \<lparr>Opt_Groups = GetCaptureGroups cs, Opt_PluginVersion = v, Opt_Now = 0\<rparr> = Inr snap"
    and "is_int64 (Cluster_Generation cluster)"
    and "\<forall>fp. liveFingerprint H cluster (GetCaptureGroups cs) = Inr fp \<longrightarrow>
      status_texts (published_status (NewFromCluster cluster) snap key fp)"
    and "H_ConfigStore H (SaveToKey (NewFromCluster cluster)) u = (Inr cs, u')"
  shows "Post_cluster H (with_status raw cluster) c' u = (Inr BEHAVIOR_CONTINUE, c', u')"
proof -
  obtain fp where m: "Marshal (clusterstatus_json (published_status (NewFromCluster cluster) snap key fp)) = Inr raw"
    and fp: "MetadataFingerprint (H_sha H) (Labels (ContentOf snap)) (Annotations (ContentOf snap))
       (CapturedGroups snap) (CaptureRules snap) = Inr fp"
    by (rule SetStatus_published [OF assms(1)]) (use assms(2,5-7) in auto)
  note live = watermark_of_capture [OF assms(8,3)]
  have "WatermarkFromCluster (with_status raw cluster) = Some (published_status (NewFromCluster cluster) snap key fp)"
    using assms(9,10) live fp
    by (intro watermark_round_trip [OF _ _ m]) (auto simp: published_status_def with_status_def)
  then have "already_captured (with_status raw cluster) fp c'"
    using live(1) by (simp add: already_captured_def published_status_def with_status_same)
  then show ?thesis
    using Post_cluster_settled [of "with_status raw cluster" H u cs u' fp c'] assms(4,11) live(2) fp
    by (simp add: with_status_same)
qed

lemma sample_status:
  assumes "fst (Latest flat_sha sample_archive w) = Inr (sample_captured, key)"
  obtains raw w' where "SetStatusInCluster sample_hooks request None w = (Inr (JSONStatusResponse raw), w')"
proof -
  obtain fp where fp: "liveFingerprint sample_hooks sample_saved (GetCaptureGroups sample_configstore) = Inr fp"
    using liveFingerprint_total by blast
  have "\<not> still_published (NewFromCluster sample_saved) sample_saved fp None"
    by (simp add: still_published_def WatermarkFromCluster_def sample_saved_def sample_cluster_def)
  moreover obtain w' where "Latest flat_sha sample_archive w = (Inr (sample_captured, key), w')"
    using assms by (cases "Latest flat_sha sample_archive w") auto
  moreover obtain mfp where "MetadataFingerprint flat_sha (Labels (ContentOf sample_captured))
      (Annotations (ContentOf sample_captured)) (CapturedGroups sample_captured) (CaptureRules sample_captured) = Inr mfp"
    using MetadataFingerprint_total by blast
  moreover have "numbers_ok (clusterstatus_json s)" for s
    by (auto simp: clusterstatus_json_def omit_empty_def valid_number_FormatInt)
  ultimately show thesis
    using that fp sample_open by (auto simp: SetStatusInCluster_def sample_saved_configuration Marshal_def)
qed

theorem watermark_settles_the_hook_witness:
  "\<exists>raw. Post_cluster sample_hooks (with_status raw sample_saved) None NewBackend = (Inr BEHAVIOR_CONTINUE, None, NewBackend)"
proof -
  let ?key = "snapshot_key (Store_Layout sample_archive) sample_captured"
  obtain w where w: "fst (Latest flat_sha sample_archive w) = Inr (sample_captured, ?key)"
    using sample_history_written by blast
  obtain raw w' where s: "SetStatusInCluster sample_hooks '''' None w = (Inr (JSONStatusResponse raw), w')"
    by (rule sample_status [OF w])
  have "liveFingerprint sample_hooks sample_saved gs = Inr fp \<Longrightarrow> fp = ''sha256:00000000''" for gs fp
    by (auto simp: liveFingerprint_def Let_def MetadataFingerprint_def flat_digest split: sum.splits prod.splits)
  moreover have "status_texts (published_status (NewFromCluster sample_saved) sample_captured ?key ''sha256:00000000'')"
    unfolding sample_key by code_simp
  moreover have "is_int64 (Cluster_Generation sample_saved)" by code_simp
  moreover have "Cluster_ToMap sample_saved = Inr sample_tree" by (simp add: sample_saved_def sample_cluster_def)
  ultimately show ?thesis
    using watermark_settles_the_hook [where snap = sample_captured and key = ?key and store = sample_archive and
        cluster = sample_saved and H = sample_hooks and cs = sample_configstore and w = w and ?w1.0 = w and ?w2.0 = w and
        u = NewBackend and u' = NewBackend and c' = None and source = sample_tree and v = "''1.0.0''" and
        now = sample_time, OF s] w sample_open sample_capture
    by (auto simp: sample_saved_configuration)
qed

section \<open>Reporting\<close>

text \<open>C22. The status never over-reports: whatever is published about a Cluster is a JSON object with the
  generation, the time, the key and the checksum of a snapshot that the call itself read from the
  history the Cluster saves to, in the ConfigStore it names, and that has that checksum, the fingerprint
  of the snapshot's metadata and rules, and the names of the store and the server. A field with an
  empty text is left out, the generation never.\<close>

theorem status_reports_a_stored_snapshot:
  assumes "SetStatusInCluster H request c w = (Inr (JSONStatusResponse raw), w')"
    and "H_DecodeCluster H request = Inr cluster" "conf = NewFromCluster cluster"
  shows "\<exists>cs store latest key fp doc w1 w2.
    H_ConfigStore H (Cluster_Namespace cluster, SaveToStore conf) w = (Inr cs, w1)
    \<and> Open (H_Resolver H) cs (SaveToServer conf) w1 = (Inr store, w2)
    \<and> Latest (H_sha H) store w2 = (Inr (latest, key), w')
    \<and> Checksum (H_sha H) (ContentOf latest) = Inr (Checksum_of latest)
    \<and> MetadataFingerprint (H_sha H) (Labels (ContentOf latest)) (Annotations (ContentOf latest))
        (CapturedGroups latest) (CaptureRules latest) = Inr fp
    \<and> Marshal (JObject doc) = Inr raw
    \<and> gmap_get doc ''lastSavedGeneration'' = Some (JNumber (FormatInt (Generation latest)))
    \<and> (\<forall>(name, value) \<in> set [(''lastSavedAt'', FormatRFC3339 (CapturedAt latest)), (''snapshotKey'', key),
          (''checksum'', Checksum_of latest), (''metadataChecksum'', fp), (''store'', SaveToStore conf),
          (''serverName'', SaveToServer conf)].
        gmap_get doc name = (if value = '''' then None else Some (JString value)))"
proof -
  obtain cs store latest key fp w1 w2 where steps: "H_ConfigStore H (SaveToKey conf) w = (Inr cs, w1)"
    "Open (H_Resolver H) cs (SaveToServer conf) w1 = (Inr store, w2)" "Latest (H_sha H) store w2 = (Inr (latest, key), w')"
    "MetadataFingerprint (H_sha H) (Labels (ContentOf latest)) (Annotations (ContentOf latest))
       (CapturedGroups latest) (CaptureRules latest) = Inr fp"
    and m: "Marshal (clusterstatus_json (published_status conf latest key fp)) = Inr raw"
    by (rule SetStatus_published [OF assms(1)]) (use assms(2,3) in auto)
  obtain doc where "clusterstatus_json (published_status conf latest key fp) = JObject doc"
    "gmap_get doc ''lastSavedGeneration'' = Some (JNumber (FormatInt (Generation latest)))"
    "\<forall>(name, value) \<in> set [(''lastSavedAt'', FormatRFC3339 (CapturedAt latest)), (''snapshotKey'', key),
       (''checksum'', Checksum_of latest), (''metadataChecksum'', fp), (''store'', SaveToStore conf),
       (''serverName'', SaveToServer conf)]. gmap_get doc name = (if value = '''' then None else Some (JString value))"
    by (rule clusterstatus_document [of "published_status conf latest key fp"]) (simp add: published_status_def)
  moreover have "Checksum (H_sha H) (ContentOf latest) = Inr (Checksum_of latest)" using Latest_verified [OF steps(3)] ..
  moreover have "SaveToKey conf = (Cluster_Namespace cluster, SaveToStore conf)" by (simp only: assms(3) SaveToKey_NewFromCluster)
  ultimately show ?thesis
    using steps m by (intro exI [of _ cs] exI [of _ store] exI [of _ latest] exI [of _ key] exI [of _ fp] exI [of _ doc]
      exI [of _ w1] exI [of _ w2]) (simp only: simp_thms)
qed

theorem status_reports_a_stored_snapshot_witness:
  "\<exists>w raw doc. fst (SetStatusInCluster sample_hooks '''' None w) = Inr (JSONStatusResponse raw) \<and> Marshal (JObject doc) = Inr raw
    \<and> gmap_get doc ''lastSavedGeneration'' = Some (JNumber ''7'')
    \<and> gmap_get doc ''lastSavedAt'' = Some (JString ''2026-01-01T12:00:00Z'')
    \<and> gmap_get doc ''snapshotKey'' = Some (JString ''db/chronicle/snapshots/20260101T120000Z-g0000000007-00000000.json'')
    \<and> gmap_get doc ''checksum'' = Some (JString ''sha256:00000000'')
    \<and> gmap_get doc ''store'' = Some (JString ''archive'') \<and> gmap_get doc ''serverName'' = Some (JString ''db'')"
proof -
  let ?key = "snapshot_key (Store_Layout sample_archive) sample_captured"
  obtain w where w: "fst (Latest flat_sha sample_archive w) = Inr (sample_captured, ?key)" using sample_history_written by blast
  obtain raw w' where s: "SetStatusInCluster sample_hooks '''' None w = (Inr (JSONStatusResponse raw), w')"
    by (rule sample_status [OF w])
  have "FormatInt (Generation sample_captured) = ''7''" "FormatRFC3339 (CapturedAt sample_captured) = ''2026-01-01T12:00:00Z''"
    "Checksum_of sample_captured = ''sha256:00000000''"
    by code_simp+
  then show ?thesis
    using status_reports_a_stored_snapshot [OF s sample_hooks_sel(7) refl] s w sample_open
    by (intro exI [of _ w] exI [of _ raw]) (auto simp: sample_saved_configuration sample_key)
qed

section \<open>The process\<close>

text \<open>C24. The cache the two services share is bounded: in every state a serving process can reach, by any
  calls in any order and whatever the world does in between, it is there and holds at most 1024 entries,
  one for each Cluster.\<close>

theorem settled_cache_stays_bounded:
  assumes "serving H c w"
  shows "\<exists>entries. c = Some entries \<and> gmap_ok entries \<and> length entries \<le> maxSettledEntries"
  using serving_cache [OF assms] by (auto simp: cache_ok_def)

theorem settled_cache_stays_bounded_witness:
  "\<exists>res c' w' entries. serve sample_hooks (HooksPost \<lparr>ResourceDefinition = '''', ClusterDefinition = ''''\<rparr>) Start NewBackend
      = (res, c', w') \<and> c' = Some entries \<and> length entries \<le> maxSettledEntries"
proof -
  obtain res c' w' where s: "serve sample_hooks (HooksPost \<lparr>ResourceDefinition = '''', ClusterDefinition = ''''\<rparr>) Start NewBackend
      = (res, c', w')"
    by (metis prod_cases3)
  from settled_cache_stays_bounded [OF serving.answered [OF serving.started s]] s show ?thesis by blast
qed

text \<open>C23. Confirming a state stops the polling: when the Post hook finds that a changed Cluster needs no new
  snapshot, a status call with the same cache answers from what is published already, and neither opens
  nor reads the store, however long the published generation stays behind.\<close>

theorem confirmed_state_stops_polling:
  assumes "IsSaveEnabled (NewFromCluster cluster)" "H_ConfigStore H (SaveToKey (NewFromCluster cluster)) w = (Inr cs, w1)"
    and "liveFingerprint H cluster (GetCaptureGroups cs) = Inr fp" "\<not> already_captured cluster fp (Some entries)"
    and "Extract (H_cnpg H) (H_sha H) (H_now H w1) (Some cluster)
      \<lparr>Opt_Groups = GetCaptureGroups cs, Opt_PluginVersion = H_Version H, Opt_Now = 0\<rparr> = Inr snap"
    and "Open (H_Resolver H) cs (SaveToServer (NewFromCluster cluster)) w1 = (Inr store, w2)"
    and "Latest (H_sha H) store w2 = (Inr (latest, key), w3)"
    and "Checksum_of latest = Checksum_of snap" "CaptureRules latest = CaptureRules snap"
    and "WatermarkFromCluster cluster = Some published" "SnapshotKey_of published = key"
    and "Status_Store published = SaveToStore (NewFromCluster cluster)"
    and "Status_ServerName published = SaveToServer (NewFromCluster cluster)"
    and "H_DecodeCluster H request = Inr cluster" "H_ConfigStore H (SaveToKey (NewFromCluster cluster)) u = (Inr cs, u')"
  shows "\<exists>c'. Post_cluster H cluster (Some entries) w = (Inr BEHAVIOR_CONTINUE, c', w3)
    \<and> SetStatusInCluster H request c' u = (Inr NoOpResponse, u')"
proof -
  let ?c = "remember (Some entries) cluster fp key"
  have "Post_cluster H cluster (Some entries) w = (Inr BEHAVIOR_CONTINUE, ?c, w3)"
    by (simp add: Post_cluster_def capture_def assms(1-9))
  moreover have "still_published (NewFromCluster cluster) cluster fp ?c"
    using settled_remember [of entries cluster fp key] by (simp add: still_published_def assms(10-13))
  then have "SetStatusInCluster H request ?c u = (Inr NoOpResponse, u')"
    by (simp add: SetStatusInCluster_def assms(1,3,14,15))
  ultimately show ?thesis by blast
qed

lemma redecoded:
  "H_ConfigStore (H\<lparr>H_DecodeCluster := d\<rparr>) = H_ConfigStore H" "H_Resolver (H\<lparr>H_DecodeCluster := d\<rparr>) = H_Resolver H"
  "H_now (H\<lparr>H_DecodeCluster := d\<rparr>) = H_now H" "H_sha (H\<lparr>H_DecodeCluster := d\<rparr>) = H_sha H"
  "H_cnpg (H\<lparr>H_DecodeCluster := d\<rparr>) = H_cnpg H" "H_Version (H\<lparr>H_DecodeCluster := d\<rparr>) = H_Version H"
  by simp_all

definition sample_behind :: "string \<Rightarrow> ClusterStatus" where
  "sample_behind key = \<lparr>LastSavedGeneration = 6, LastSavedAt = ''2026-01-01T12:00:00Z'', SnapshotKey_of = key,
     Status_Checksum = ''sha256:00000000'', MetadataChecksum = ''sha256:00000000'', Status_Store = ''archive'',
     Status_ServerName = ''db''\<rparr>"

theorem confirmed_state_stops_polling_witness:
  "\<exists>raw w w' c'. fst (Latest flat_sha sample_archive w) = Inr (sample_captured, snapshot_key (Store_Layout sample_archive) sample_captured)
    \<and> Post_cluster sample_hooks (with_status raw sample_saved) (Some []) w = (Inr BEHAVIOR_CONTINUE, c', w')
    \<and> SetStatusInCluster (sample_hooks\<lparr>H_DecodeCluster := (\<lambda>_. Inr (with_status raw sample_saved))\<rparr>) '''' c' NewBackend
      = (Inr NoOpResponse, NewBackend)"
proof -
  let ?key = "snapshot_key (Store_Layout sample_archive) sample_captured"
  let ?s = "sample_behind ?key"
  obtain raw where raw: "Marshal (clusterstatus_json ?s) = Inr raw"
  proof -
    have "numbers_ok (clusterstatus_json ?s)" by (auto simp: clusterstatus_json_def omit_empty_def valid_number_FormatInt)
    then show thesis using that by (auto simp: Marshal_def)
  qed
  let ?cluster = "with_status raw sample_saved"
  let ?H = "sample_hooks\<lparr>H_DecodeCluster := (\<lambda>_. Inr ?cluster)\<rparr>"
  have texts: "status_texts ?s" "is_int64 (LastSavedGeneration ?s)" unfolding sample_key by code_simp+
  have mark: "WatermarkFromCluster ?cluster = Some ?s"
    by (rule watermark_round_trip [OF texts(2,1) raw]) (simp add: with_status_def)
  have conf: "IsSaveEnabled (NewFromCluster ?cluster)" "SaveToKey (NewFromCluster ?cluster) = (''prod'', ''archive'')"
    "SaveToServer (NewFromCluster ?cluster) = ''db''" "SaveToStore (NewFromCluster ?cluster) = ''archive''"
    using sample_saved_configuration by (simp_all add: with_status_same) (simp_all add: NewFromCluster_with_status)
  obtain fp where fp: "liveFingerprint ?H ?cluster (GetCaptureGroups sample_configstore) = Inr fp" using liveFingerprint_total by blast
  have fresh: "\<not> already_captured ?cluster fp (Some [])"
    by (simp add: already_captured_def settled_def mark) (simp add: sample_behind_def with_status_def sample_saved_def sample_cluster_def)
  have capture: "Extract sample_cnpg flat_sha sample_time (Some ?cluster)
      \<lparr>Opt_Groups = [''Gucs'', ''Instances'', ''Metadata''], Opt_PluginVersion = ''1.0.0'', Opt_Now = 0\<rparr> = Inr sample_captured"
    using sample_capture by (simp only: Extract_with_status)
  obtain w where w: "fst (Latest flat_sha sample_archive w) = Inr (sample_captured, ?key)" using sample_history_written by blast
  then obtain w' where l: "Latest flat_sha sample_archive w = (Inr (sample_captured, ?key), w')"
    by (cases "Latest flat_sha sample_archive w") auto
  have same: "Post_cluster ?H cl c v = Post_cluster sample_hooks cl c v" for cl c v
    unfolding Post_cluster_def capture_def liveFingerprint_def redecoded ..
  have named: "SnapshotKey_of ?s = ?key" "Status_Store ?s = ''archive''" "Status_ServerName ?s = ''db''"
    by (simp_all add: sample_behind_def)
  have "\<exists>c'. Post_cluster ?H ?cluster (Some []) w = (Inr BEHAVIOR_CONTINUE, c', w')
      \<and> SetStatusInCluster ?H '''' c' NewBackend = (Inr NoOpResponse, NewBackend)"
    using confirmed_state_stops_polling [where H = ?H and cluster = ?cluster and cs = sample_configstore and w = w and ?w1.0 = w and
        ?w2.0 = w and ?w3.0 = w' and snap = sample_captured and latest = sample_captured and key = ?key and store = sample_archive and
        published = ?s and request = "''''" and u = NewBackend and u' = NewBackend and entries = "[]" and fp = fp]
      fp fresh capture l mark conf named sample_open by simp
  then show ?thesis using w same by auto
qed

end
