(* ===== verification/Restore_Webhook.thy ===== *)
theory Restore_Webhook
  imports Restore_Plan Restore_Select Resolver Plugin_Config
begin

text \<open>
  \<open>internal/webhook/cluster_mutate.go\<close>: the admission webhook that restores a captured
  configuration into a Cluster being created. \<open>Handle\<close> reads the plugin's parameters from the
  generic JSON of the Cluster, \<open>restore\<close> selects a snapshot, plans and applies the edits and stamps
  the record of the restore onto the Cluster. The Kubernetes reader, the clock, the expression
  environment and CloudNativePG's tables and time parser are the fields of \<open>ClusterRestorer\<close>; a
  reader that runs past \<open>resolveTimeout\<close> answers with an error. A JSON patch is kept as the document
  it was computed from and the one it produces.
\<close>

section \<open>Requests, responses and the record\<close>

record admission_request =
  Req_Raw :: bytes
  Req_Namespace :: string

datatype admission_response =
    Allowed string
  | Denied error
  | Errored nat error
  | PatchResponseFromRaw bytes bytes

record ('w, 'p) ClusterRestorer =
  R_ConfigStore :: "named \<Rightarrow> 'w \<Rightarrow> (error + ConfigStore) \<times> 'w"
  R_RestorePolicy :: "named \<Rightarrow> 'w \<Rightarrow> (error + RestorePolicy) \<times> 'w"
  R_Backups :: backup_reader
  R_Resolver :: "'w Provider"
  R_now :: "'w \<Rightarrow> time"
  R_sha :: "bytes \<Rightarrow> string"
  R_cnpg :: cnpg
  R_celenv :: "'p celenv"
  R_ParseTargetTime :: "string \<Rightarrow> error + time"

record RestoreRecord =
  Rec_Store :: string
  Rec_Policy :: string
  Rec_ServerName :: string
  Rec_SnapshotKey :: string
  Rec_Generation :: int
  Rec_CapturedAt :: time
  Rec_RestoredAt :: time
  Rec_Changed :: nat
  Rec_Skipped :: nat
  AlignedWith :: string
  Transformed :: "string list"

text \<open>What \<open>json.Marshal\<close> makes of a record; a time beyond four-digit years is refused.\<close>

definition restorerecord_json :: "RestoreRecord \<Rightarrow> error + json" where
  "restorerecord_json r =
     (case FormatRFC3339Nano (Rec_CapturedAt r) of
        Inl err \<Rightarrow> Inl err
      | Inr capturedAt \<Rightarrow>
     (case FormatRFC3339Nano (Rec_RestoredAt r) of
        Inl err \<Rightarrow> Inl err
      | Inr restoredAt \<Rightarrow> Inr (JObject (
          [(''store'', JString (Rec_Store r)),
           (''policy'', JString (Rec_Policy r)),
           (''serverName'', JString (Rec_ServerName r)),
           (''snapshotKey'', JString (Rec_SnapshotKey r)),
           (''generation'', JNumber (FormatInt (Rec_Generation r))),
           (''capturedAt'', JString capturedAt),
           (''restoredAt'', JString restoredAt),
           (''changedPaths'', JNumber (FormatInt (int (Rec_Changed r)))),
           (''skippedPaths'', JNumber (FormatInt (int (Rec_Skipped r))))]
          @ omit_empty ''alignedWith'' JString (AlignedWith r)
          @ omit_empty ''transformed'' strings_json (Transformed r)))))"

section \<open>The plugin's parameters in generic JSON\<close>

text \<open>A Go type assertion to \<open>string\<close>, the empty string when it fails.\<close>

fun as_string :: "json option \<Rightarrow> string" where
  "as_string (Some (JString s)) = s"
| "as_string _ = ''''"

definition string_entries :: "obj \<Rightarrow> strmap" where
  "string_entries m = concat (map (\<lambda>(k, v). case v of JString s \<Rightarrow> [(k, s)] | _ \<Rightarrow> []) m)"

fun find_parameters :: "json list \<Rightarrow> strmap option" where
  "find_parameters [] = None"
| "find_parameters (JObject declaration # entries) =
     (if as_string (gmap_get declaration ''name'') \<noteq> PluginName then find_parameters entries
      else if gmap_get declaration ''enabled'' = Some (JBool False) then None
      else (case gmap_get declaration ''parameters'' of
              Some (JObject parameters) \<Rightarrow> Some (string_entries parameters)
            | _ \<Rightarrow> Some []))"
| "find_parameters (_ # entries) = find_parameters entries"

definition pluginParameters :: "obj \<Rightarrow> strmap option" where
  "pluginParameters cluster =
     (case Get cluster ''spec.plugins'' of
        Some (JArray entries) \<Rightarrow> find_parameters entries
      | _ \<Rightarrow> None)"

definition checkSourceIsNotAlsoDestination :: "PluginConfiguration \<Rightarrow> error option" where
  "checkSourceIsNotAlsoDestination c =
     (if SaveToStore c = '''' \<or> RestoreFromStore c = '''' then None
      else if SaveToStore c \<noteq> RestoreFromStore c then None
      else if SaveToServer c \<noteq> RestoreFromServer c then None
      else Some (Errorf ''this cluster would save snapshots to the same store and server name it is restoring from''
             [SaveToStore c, SaveToServer c, ParameterSaveToStore, ParameterSaveToServer]))"

section \<open>Restoring\<close>

definition policySkips :: "RestorePolicy option \<Rightarrow> SkipRule list" where
  "policySkips policy = (case policy of None \<Rightarrow> [] | Some p \<Rightarrow> Skip p)"

definition policyTransforms :: "RestorePolicy option \<Rightarrow> TransformRule list" where
  "policyTransforms policy = (case policy of None \<Rightarrow> [] | Some p \<Rightarrow> Transform p)"

definition load ::
  "('w, 'p) ClusterRestorer \<Rightarrow> string \<Rightarrow> PluginConfiguration \<Rightarrow> 'w \<Rightarrow>
     (error + ConfigStore \<times> RestorePolicy option) \<times> 'w" where
  "load R namespace configuration w =
     (let storeKey = (namespace, RestoreFromStore configuration) in
      case R_ConfigStore R storeKey w of
        (Inl err, w) \<Rightarrow>
          (Inl (if errors_Is err KubeNotFound
                then Errorf ''names a ConfigStore which does not exist''
                       [ParameterRestoreFromStore, RestoreFromStore configuration, namespace]
                else Wrapped ''while reading ConfigStore'' [render_key storeKey] err), w)
      | (Inr configStore, w) \<Rightarrow>
          if PC_RestorePolicy configuration = '''' then (Inr (configStore, None), w)
          else (let policyKey = (namespace, PC_RestorePolicy configuration) in
            case R_RestorePolicy R policyKey w of
              (Inl err, w) \<Rightarrow>
                (Inl (if errors_Is err KubeNotFound
                      then Errorf ''RestorePolicy does not exist'' [PC_RestorePolicy configuration, namespace]
                      else Wrapped ''while reading RestorePolicy'' [render_key policyKey] err), w)
            | (Inr policy, w) \<Rightarrow> (Inr (configStore, Some policy), w)))"

definition restored_from_path :: "string list" where
  "restored_from_path = [''metadata'', ''annotations'', AnnotationRestoredFrom]"

text \<open>The Cluster with the record on it, and its encoding.\<close>

definition annotateWithRecord :: "obj \<Rightarrow> RestoreRecord \<Rightarrow> error + obj \<times> bytes" where
  "annotateWithRecord cluster record =
     (case restorerecord_json record of
        Inl err \<Rightarrow> Inl (Wrapped ''while recording the restore'' [] err)
      | Inr doc \<Rightarrow>
     (case Marshal doc of
        Inl err \<Rightarrow> Inl (Wrapped ''while recording the restore'' [] err)
      | Inr encoded \<Rightarrow>
     (case SetSegments cluster restored_from_path (JString encoded) of
        (cluster, ok) \<Rightarrow>
          if \<not> ok then Inl (Errorf ''cannot annotate the cluster with the restore record'' [])
          else (case Marshal (JObject cluster) of
                  Inl err \<Rightarrow> Inl (Wrapped ''while re-encoding the restored cluster'' [] err)
                | Inr patched \<Rightarrow> Inr (cluster, patched)))))"

definition restore_record :: "ConfigStore \<Rightarrow> PluginConfiguration \<Rightarrow> Resolution \<Rightarrow> Plan \<Rightarrow> time \<Rightarrow> RestoreRecord" where
  "restore_record configStore configuration resolution p now =
     \<lparr>Rec_Store = Store_Name configStore, Rec_Policy = PC_RestorePolicy configuration,
      Rec_ServerName = RestoreFromServer configuration, Rec_SnapshotKey = Res_Key resolution,
      Rec_Generation = Generation (Res_Snapshot resolution), Rec_CapturedAt = CapturedAt (Res_Snapshot resolution),
      Rec_RestoredAt = now, Rec_Changed = length (Changes p), Rec_Skipped = length (Exclusions p),
      AlignedWith = (case Res_Target resolution of None \<Rightarrow> '''' | Some target \<Rightarrow> Detail target),
      Transformed = TransformedPaths p\<rparr>"

definition restore_from ::
  "('w, 'p) ClusterRestorer \<Rightarrow> PluginConfiguration \<Rightarrow> ConfigStore \<Rightarrow> Resolution \<Rightarrow> SkipSet \<Rightarrow> 'p TransformSet \<Rightarrow>
     obj \<Rightarrow> time \<Rightarrow> error + RestoreRecord \<times> obj \<times> bytes" where
  "restore_from R configuration configStore resolution skips transforms cluster now =
     (case BuildPlan (R_cnpg R) (R_celenv R) (Some (Res_Snapshot resolution)) skips transforms of
        Inl err \<Rightarrow> Inl err
      | Inr p \<Rightarrow>
     if Changes p = []
     then Inl (Errorf ''restoring would change nothing: all of the snapshot's paths are skipped or denied''
            [Res_Key resolution, FormatInt (int (length (Exclusions p))), PC_RestorePolicy configuration])
     else (case Plan_Apply p cluster of
        Inl err \<Rightarrow> Inl err
      | Inr cluster \<Rightarrow>
     (let record = restore_record configStore configuration resolution p now in
      case annotateWithRecord cluster record of
        Inl err \<Rightarrow> Inl err
      | Inr (cluster, patched) \<Rightarrow> Inr (record, cluster, patched))))"

text \<open>The snapshot the policy's mode selects; without a policy a recovering Cluster aligns with its target.\<close>

definition select_snapshot ::
  "('w, 'p) ClusterRestorer \<Rightarrow> string \<Rightarrow> RestorePolicy option \<Rightarrow> obj \<Rightarrow> 'w SnapshotStore \<Rightarrow> 'w \<Rightarrow>
     (error + Resolution) \<times> 'w" where
  "select_snapshot R namespace policy cluster source =
     (let bootstrapsFromRecovery = (Get cluster ''spec.bootstrap.recovery'' \<noteq> None);
          mode = ResolveMode policy bootstrapsFromRecovery in
      Select \<lparr>sel_sha = R_sha R, sel_store = source, sel_ParseTargetTime = R_ParseTargetTime R\<rparr> mode policy
        (Some \<lparr>Align_Cluster = Some cluster, Align_Namespace = namespace,
               Align_Backups = Some (KubeBackupLookup (R_Backups R))\<rparr>))"

definition restore ::
  "('w, 'p) ClusterRestorer \<Rightarrow> string \<Rightarrow> PluginConfiguration \<Rightarrow> obj \<Rightarrow> 'w \<Rightarrow>
     (error + RestoreRecord \<times> obj \<times> bytes) \<times> 'w" where
  "restore R namespace configuration cluster w =
     (case load R namespace configuration w of
        (Inl err, w) \<Rightarrow> (Inl err, w)
      | (Inr (configStore, policy), w) \<Rightarrow>
     (case CompileRules (R_cnpg R) (R_celenv R) (policySkips policy) (policyTransforms policy) of
        Inl err \<Rightarrow> (Inl (Wrapped ''RestorePolicy is not usable'' [PC_RestorePolicy configuration] err), w)
      | Inr (skips, transforms) \<Rightarrow>
     (case Open (R_Resolver R) configStore (RestoreFromServer configuration) w of
        (Inl err, w) \<Rightarrow> (Inl (Wrapped ''while opening ConfigStore'' [Store_Name configStore] err), w)
      | (Inr source, w) \<Rightarrow>
     (case select_snapshot R namespace policy cluster source w of
        (Inl err, w) \<Rightarrow>
          (Inl (Wrapped ''while selecting a snapshot'' [RestoreFromServer configuration, Store_Name configStore] err), w)
      | (Inr resolution, w) \<Rightarrow>
          (restore_from R configuration configStore resolution skips transforms cluster (R_now R w), w)))))"

section \<open>Admission\<close>

definition request_namespace :: "admission_request \<Rightarrow> obj \<Rightarrow> string" where
  "request_namespace request cluster =
     (if Req_Namespace request = '''' then as_string (Get cluster ''metadata.namespace'') else Req_Namespace request)"

text \<open>What the manifest asks of the webhook, before anything is read.\<close>

definition restore_configuration :: "obj \<Rightarrow> strmap \<Rightarrow> PluginConfiguration" where
  "restore_configuration cluster parameters =
     (NewFromParameters parameters (as_string (Get cluster ''metadata.name'')))\<lparr>Present := True, Enabled := True\<rparr>"

definition Handle :: "('w, 'p) ClusterRestorer \<Rightarrow> admission_request \<Rightarrow> 'w \<Rightarrow> admission_response \<times> 'w" where
  "Handle R request w =
     (case FromJSON (Req_Raw request) of
        Inl err \<Rightarrow> (Errored 400 (Wrapped ''cannot decode the Cluster being created'' [] err), w)
      | Inr cluster \<Rightarrow>
     (let namespace = request_namespace request cluster in
      case pluginParameters cluster of
        None \<Rightarrow> (Allowed ''the chronicle plugin is not configured on this cluster'', w)
      | Some parameters \<Rightarrow>
     (let configuration = restore_configuration cluster parameters in
      case Validate configuration of
        Some err \<Rightarrow> (Denied err, w)
      | None \<Rightarrow>
     (case checkSourceIsNotAlsoDestination configuration of
        Some err \<Rightarrow> (Denied err, w)
      | None \<Rightarrow>
     if \<not> IsRestoreRequested configuration then (Allowed ''no chronicle restore configured'', w)
     else if GetSegments cluster restored_from_path \<noteq> None then (Allowed ''already restored'', w)
     else (case restore R namespace configuration cluster w of
        (Inl err, w) \<Rightarrow> (Denied err, w)
      | (Inr (record, _, patched), w) \<Rightarrow> (PatchResponseFromRaw (Req_Raw request) patched, w))))))"


section \<open>What an admitted restore went through\<close>

text \<open>Whatever is selected was read from the store and verified.\<close>

lemma read_ref_verified:
  "read_ref S key w = (Inr resolution, w') \<Longrightarrow> \<exists>raw k. decodeSnapshot (sel_sha S) raw k = Inr (Res_Snapshot resolution)"
  by (auto simp: read_ref_def Read_def split: sum.splits prod.splits) blast

lemma read_latest_verified:
  "read_latest S target w = (Inr resolution, w') \<Longrightarrow> \<exists>raw k. decodeSnapshot (sel_sha S) raw k = Inr (Res_Snapshot resolution)"
  by (auto simp: read_latest_def Latest_def Read_def Let_def split: sum.splits prod.splits if_splits) blast+

lemma SelectAtOrBefore_verified:
  "SelectAtOrBefore S moment w = (Inr resolution, w') \<Longrightarrow>
     \<exists>raw k. decodeSnapshot (sel_sha S) raw k = Inr (Res_Snapshot resolution)"
  using read_ref_verified by (fastforce simp: SelectAtOrBefore_def split: sum.splits prod.splits if_splits option.splits)

lemma selectAligned_verified:
  assumes "selectAligned S policy alignment w = (Inr resolution, w')"
  shows "\<exists>raw k. decodeSnapshot (sel_sha S) raw k = Inr (Res_Snapshot resolution)"
  using assms SelectAtOrBefore_verified [of S] read_latest_verified [of S]
  by (fastforce simp: selectAligned_def split: sum.splits prod.splits if_splits option.splits)

lemma Select_verified:
  assumes "Select S mode policy alignment w = (Inr resolution, w')"
  shows "\<exists>raw k. decodeSnapshot (sel_sha S) raw k = Inr (Res_Snapshot resolution)"
proof -
  have "selectByGeneration S g w = (Inr resolution, w') \<Longrightarrow> ?thesis" for g
    using read_ref_verified [of S] by (fastforce simp: selectByGeneration_def split: sum.splits prod.splits option.splits)
  with assms show ?thesis
    using SelectAtOrBefore_verified read_latest_verified selectAligned_verified
    by (fastforce simp: Select_def split: if_splits option.splits)
qed

lemma annotateWithRecord_Inr:
  assumes "annotateWithRecord cluster record = Inr (tree, patched)"
  obtains doc encoded where "restorerecord_json record = Inr doc" "Marshal doc = Inr encoded"
    "SetSegments cluster restored_from_path (JString encoded) = (tree, True)" "Marshal (JObject tree) = Inr patched"
  using assms by (auto simp: annotateWithRecord_def split: sum.splits prod.splits if_splits)

lemma restore_from_Inr:
  assumes "restore_from R configuration configStore resolution skips t cluster now = Inr (record, tree, patched)"
  obtains p cluster' where "BuildPlan (R_cnpg R) (R_celenv R) (Some (Res_Snapshot resolution)) skips t = Inr p"
    "Changes p \<noteq> []" "Plan_Apply p cluster = Inr cluster'"
    "record = restore_record configStore configuration resolution p now"
    "annotateWithRecord cluster' record = Inr (tree, patched)"
  using assms by (auto simp: restore_from_def Let_def split: sum.splits prod.splits if_splits)

text \<open>The steps of a restore that went through, in order.\<close>

lemma restore_Inr:
  assumes "restore R namespace configuration cluster w = (Inr (record, tree, patched), w')"
  obtains configStore policy skips t source resolution w1 w2 where
    "load R namespace configuration w = (Inr (configStore, policy), w1)"
    "CompileRules (R_cnpg R) (R_celenv R) (policySkips policy) (policyTransforms policy) = Inr (skips, t)"
    "Open (R_Resolver R) configStore (RestoreFromServer configuration) w1 = (Inr source, w2)"
    "select_snapshot R namespace policy cluster source w2 = (Inr resolution, w')"
    "restore_from R configuration configStore resolution skips t cluster (R_now R w') = Inr (record, tree, patched)"
  using assms by (auto simp: restore_def split: sum.splits prod.splits)

lemma select_snapshot_verified:
  "select_snapshot R namespace policy cluster source w = (Inr resolution, w') \<Longrightarrow>
     \<exists>raw k. decodeSnapshot (R_sha R) raw k = Inr (Res_Snapshot resolution)"
  using Select_verified by (fastforce simp: select_snapshot_def Let_def)

lemma Handle_patched:
  assumes "Handle R request w = (PatchResponseFromRaw original patched, w')"
  obtains cluster parameters rr tree where
    "original = Req_Raw request" "FromJSON (Req_Raw request) = Inr cluster" "pluginParameters cluster = Some parameters"
    "Validate (restore_configuration cluster parameters) = None"
    "checkSourceIsNotAlsoDestination (restore_configuration cluster parameters) = None"
    "IsRestoreRequested (restore_configuration cluster parameters)"
    "GetSegments cluster restored_from_path = None"
    "restore R (request_namespace request cluster) (restore_configuration cluster parameters) cluster w = (Inr (rr, tree, patched), w')"
  using assms by (auto simp: Handle_def Let_def split: sum.splits prod.splits option.splits if_splits)


section \<open>What a restore does to the Cluster\<close>

lemma restored_from_denied: "IsDeniedMetadataKey AnnotationRestoredFrom"
  by code_simp

lemma restored_from_beside:
  assumes "d \<in> set DeniedPaths"
  shows "parallel restored_from_path (Split d @ r)"
proof -
  have "list_all (\<lambda>d. \<not> prefix restored_from_path (Split d) \<and> \<not> prefix (Split d) restored_from_path \<and> length (Split d) \<le> 2) DeniedPaths"
    by code_simp
  with assms have d: "\<not> prefix restored_from_path (Split d)" "\<not> prefix (Split d) restored_from_path" "length (Split d) \<le> 2"
    by (auto simp: list_all_iff)
  then have "parallel restored_from_path (Split d)" by (simp add: parallel_def)
  then show ?thesis using parallel_append [of restored_from_path "Split d" "[]" r] by simp
qed

text \<open>The final tree, seen from the one the plan produced.\<close>

lemma annotate_frame:
  assumes "annotateWithRecord cluster rr = Inr (tree, patched)" "parallel restored_from_path q"
  shows "GetSegments tree q = GetSegments cluster q"
  using annotateWithRecord_Inr [OF assms(1)] SetSegments_frame [OF assms(2)] by (metis fst_conv)

lemma annotate_stamp:
  assumes "annotateWithRecord cluster rr = Inr (tree, patched)"
  shows "\<exists>doc encoded. restorerecord_json rr = Inr doc \<and> Marshal doc = Inr encoded
    \<and> GetSegments tree restored_from_path = Some (JString encoded) \<and> Marshal (JObject tree) = Inr patched"
  using annotateWithRecord_Inr [OF assms] SetSegments_get_same by (metis fst_conv snd_conv)

lemma restore_from_keeps_denied:
  assumes "restore_from R configuration configStore resolution skips t cluster now = Inr (rr, tree, patched)"
    and "decodeSnapshot sha raw k = Inr (Res_Snapshot resolution)" "d \<in> set DeniedPaths"
  shows "GetSegments tree (Split d @ r) = GetSegments cluster (Split d @ r)"
proof -
  have ok: "content_ok (ContentOf (Res_Snapshot resolution))"
    using decodeSnapshot_verified [OF assms(2)] decode_snapshot_content_ok by blast
  show ?thesis
    by (rule restore_from_Inr [OF assms(1)])
      (simp add: annotate_frame [OF _ restored_from_beside [OF assms(3)]] plan_keeps_denied [OF _ ok _ assms(3)])
qed

lemma restore_from_takes_effect:
  assumes "restore_from R configuration configStore resolution skips t cluster now = Inr (rr, tree, patched)"
    and "decodeSnapshot sha raw k = Inr (Res_Snapshot resolution)"
    and "l \<in> set (WalkLeaves (restorableTree (ContentOf (Res_Snapshot resolution))))" "restored skips l"
  shows "\<exists>v. restored_value (R_cnpg R) (R_celenv R) t l = Inr v \<and> GetSegments tree (Segments l) = Some v"
proof -
  have ok: "content_ok (ContentOf (Res_Snapshot resolution))"
    using decodeSnapshot_verified [OF assms(2)] decode_snapshot_content_ok by blast
  have "parallel (Segments l) (restored_from_path @ [])"
    using restored_beside_denied_key [OF ok assms(3) _ restored_from_denied, of "''annotations''" "[]"] assms(4)
    by (simp add: restored_def restored_from_path_def)
  then have beside: "parallel restored_from_path (Segments l)" by (simp add: parallel_commute)
  obtain p cluster' where b: "BuildPlan (R_cnpg R) (R_celenv R) (Some (Res_Snapshot resolution)) skips t = Inr p"
    "Plan_Apply p cluster = Inr cluster'" "annotateWithRecord cluster' rr = Inr (tree, patched)"
    using restore_from_Inr [OF assms(1)] by metis
  obtain v where "restored_value (R_cnpg R) (R_celenv R) t l = Inr v"
    using BuildPlan_changes(2) [OF b(1) assms(3,4)] by blast
  then show ?thesis
    using plan_takes_effect [OF b(1) ok b(2) assms(3,4)] annotate_frame [OF b(3) beside] by simp
qed

text \<open>The plugin's parameters, the name and the namespace lie at denied paths.\<close>

lemma denied_frame:
  assumes "\<forall>d \<in> set DeniedPaths. \<forall>r. GetSegments tree (Split d @ r) = GetSegments cluster (Split d @ r)"
  shows "pluginParameters tree = pluginParameters cluster" "Get tree ''metadata.name'' = Get cluster ''metadata.name''"
    "Get tree ''metadata.namespace'' = Get cluster ''metadata.namespace''"
proof -
  have "list_all (List.member DeniedPaths) [''spec.plugins'', ''metadata.name'', ''metadata.namespace'']" by code_simp
  then have "Get tree d = Get cluster d" if "d \<in> {''spec.plugins'', ''metadata.name'', ''metadata.namespace''}" for d
    using that assms [rule_format, of d "[]"] by (auto simp: Get_def List.member_iff)
  then show "pluginParameters tree = pluginParameters cluster" "Get tree ''metadata.name'' = Get cluster ''metadata.name''"
    "Get tree ''metadata.namespace'' = Get cluster ''metadata.namespace''"
    by (simp_all add: pluginParameters_def)
qed


text \<open>A second look at a restored Cluster, by whichever instance of the webhook.\<close>

lemma Handle_already_restored:
  assumes "FromJSON (Req_Raw request) = Inr cluster" "pluginParameters cluster = Some parameters"
    and "Validate (restore_configuration cluster parameters) = None"
    and "checkSourceIsNotAlsoDestination (restore_configuration cluster parameters) = None"
    and "IsRestoreRequested (restore_configuration cluster parameters)"
    and "GetSegments cluster restored_from_path \<noteq> None"
  shows "Handle R request w = (Allowed ''already restored'', w)"
  using assms by (auto simp: Handle_def Let_def)

section \<open>The same parameters in both forms\<close>

text \<open>
  A plugin entry of the manifest in generic JSON, and the same entry decoded: \<open>enabled\<close> and
  \<open>parameters\<close> may be absent, and every parameter is a string.
\<close>

fun declares :: "json \<Rightarrow> PluginRef \<Rightarrow> bool" where
  "declares (JObject entry) ref \<longleftrightarrow>
     gmap_get entry ''name'' = Some (JString (Plugin_Name ref))
     \<and> gmap_get entry ''enabled'' = map_option JBool (Plugin_Enabled ref)
     \<and> (gmap_get entry ''parameters'' = Some (strmap_json (Plugin_Parameters ref))
        \<or> gmap_get entry ''parameters'' = None \<and> Plugin_Parameters ref = [])"
| "declares _ _ \<longleftrightarrow> False"

lemma string_entries_strings: "string_entries (map (\<lambda>(k, v). (k, JString v)) m) = m"
  by (induction m) (auto simp: string_entries_def)

lemma declares_JObject:
  "declares e ref \<Longrightarrow> \<exists>entry. e = JObject entry"
  by (cases "(e, ref)" rule: declares.cases) auto

lemma find_parameters_declared:
  assumes "list_all2 declares entries ps"
  shows "case find_parameters entries of
      None \<Rightarrow> \<not> (Present (from_plugins cluster ps) \<and> Enabled (from_plugins cluster ps))
    | Some parameters \<Rightarrow> from_plugins cluster ps =
        (NewFromParameters parameters (Cluster_Name cluster))\<lparr>PC_Cluster := Some cluster, Present := True, Enabled := True\<rparr>"
  using assms
proof (induction rule: list_all2_induct)
  case (Cons e entries ref ps)
  then obtain entry where e: "e = JObject entry" using declares_JObject by blast
  show ?case
  proof (cases "Plugin_Name ref = PluginName")
    case True
    then show ?thesis
      using Cons.hyps e by (auto simp: strmap_json_def string_entries_strings split: option.splits)
  qed (use Cons e in \<open>auto split: option.splits\<close>)
qed simp

lemma NewFromParameters_cluster: "PC_Cluster (NewFromParameters ps n) = None"
  by (simp add: NewFromParameters_def Let_def)


lemma parameters_read_alike:
  assumes "Get tree ''spec.plugins'' = Some (JArray entries)" "list_all2 declares entries (Cluster_Plugins cluster)"
    and "Get tree ''metadata.name'' = Some (JString (Cluster_Name cluster))"
  shows "case pluginParameters tree of
      None \<Rightarrow> \<not> IsSaveEnabled (NewFromCluster cluster) \<and> \<not> IsRestoreRequested (NewFromCluster cluster)
    | Some parameters \<Rightarrow> NewFromCluster cluster = (restore_configuration tree parameters)\<lparr>PC_Cluster := Some cluster\<rparr>"
  using find_parameters_declared [OF assms(2), of cluster] assms(1,3)
  by (auto simp: pluginParameters_def NewFromCluster_def IsSaveEnabled_def IsRestoreRequested_def restore_configuration_def
      split: option.splits)

lemma Handle_shared_history:
  assumes "FromJSON (Req_Raw request) = Inr cluster" "pluginParameters cluster = Some parameters"
    and "SaveToStore (restore_configuration cluster parameters) = RestoreFromStore (restore_configuration cluster parameters)"
    and "SaveToServer (restore_configuration cluster parameters) = RestoreFromServer (restore_configuration cluster parameters)"
    and "RestoreFromStore (restore_configuration cluster parameters) \<noteq> ''''"
  shows "\<exists>err. Handle R request w = (Denied err, w)"
  using assms by (auto simp: Handle_def Let_def checkSourceIsNotAlsoDestination_def split: option.splits)

end
