(* ===== verification/Webhook_Properties.thy ===== *)
theory Webhook_Properties
  imports Restore_Webhook Wired_Samples
begin

text \<open>
  Properties of the restore webhook (\<open>internal/webhook\<close>), end to end: what an admitted restore put into
  the Cluster, that it happens once, that it satisfies the guard of the reconciler hooks, and what is
  refused.
\<close>

section \<open>A webhook over the in-memory backend\<close>

definition sample_manifest :: obj where
  "sample_manifest = [
     (''metadata'', JObject [(''labels'', JObject [(''cnpg.io/cluster'', JString ''db2'')]), (''name'', JString ''db2'')]),
     (''spec'', JObject [
        (''instances'', JNumber ''1''),
        (''plugins'', JArray [JObject [
           (''name'', JString PluginName),
           (''parameters'', JObject [(''restoreFromServer'', JString ''db''), (''restoreFromStore'', JString ''archive''),
              (''saveToStore'', JString ''archive'')])]])])]"

definition sample_parameters :: strmap where
  "sample_parameters = [(''restoreFromServer'', ''db''), (''restoreFromStore'', ''archive''), (''saveToStore'', ''archive'')]"

definition sample_restorer :: "(memory, string) ClusterRestorer" where
  "sample_restorer = \<lparr>R_ConfigStore = (\<lambda>_ w. (Inr sample_configstore, w)),
     R_RestorePolicy = (\<lambda>_ w. (Inl (Sentinel KubeNotFound), w)),
     R_Backups = \<lparr>get_backup = (\<lambda>_ _. Inl (Sentinel KubeNotFound)), list_backups = (\<lambda>_. Inr [])\<rparr>,
     R_Resolver = sample_provider, R_now = (\<lambda>_. sample_time), R_sha = flat_sha, R_cnpg = sample_cnpg,
     R_celenv = sample_celenv, R_ParseTargetTime = (\<lambda>_. Inr 0)\<rparr>"

lemma sample_manifest_request:
  "pluginParameters sample_manifest = Some sample_parameters"
  "Validate (restore_configuration sample_manifest sample_parameters) = None"
  "checkSourceIsNotAlsoDestination (restore_configuration sample_manifest sample_parameters) = None"
  "IsRestoreRequested (restore_configuration sample_manifest sample_parameters)"
  "GetSegments sample_manifest restored_from_path = None"
  "RestoreFromServer (restore_configuration sample_manifest sample_parameters) = ''db''"
  "PC_RestorePolicy (restore_configuration sample_manifest sample_parameters) = ''''"
  "Get sample_manifest ''spec.bootstrap.recovery'' = None"
  "CompileRules sample_cnpg sample_celenv [] [] = Inr ([], \<lparr>byPath = [], order = []\<rparr>)"
  by code_simp+

lemma sample_manifest_raw:
  obtains raw where "FromJSON raw = Inr sample_manifest"
proof -
  have ok: "obj_ok sample_manifest" "printable (JObject sample_manifest)" "nesting (JObject sample_manifest) \<le> 10"
    by code_simp+
  then obtain raw where raw: "Marshal (JObject sample_manifest) = Inr raw" using Marshal_printable by blast
  have "(10::nat) \<le> max_nesting_depth" by (simp add: max_nesting_depth_def)
  with ok(3) have "nesting (JObject sample_manifest) \<le> max_nesting_depth" by (rule le_trans)
  then show thesis using that FromJSON_Marshal [OF raw ok(1,2)] by blast
qed

lemma sample_restore_from:
  "case restore_from sample_restorer (restore_configuration sample_manifest sample_parameters) sample_configstore
     \<lparr>Res_Snapshot = sample_captured, Res_Key = snapshot_key (Store_Layout sample_archive) sample_captured, Res_Target = None\<rparr>
     [] \<lparr>byPath = [], order = []\<rparr> sample_manifest sample_time of
     Inl _ \<Rightarrow> False
   | Inr (rr, tree, patched) \<Rightarrow> obj_ok tree \<and> printable (JObject tree) \<and> nesting (JObject tree) \<le> 10"
  unfolding sample_key by code_simp

lemma sample_restore:
  assumes "Latest flat_sha sample_archive w = (Inr (sample_captured, snapshot_key (Store_Layout sample_archive) sample_captured), w')"
  obtains rr tree patched where
    "restore sample_restorer ''prod'' (restore_configuration sample_manifest sample_parameters) sample_manifest w = (Inr (rr, tree, patched), w')"
    "FromJSON patched = Inr tree"
proof -
  let ?c = "restore_configuration sample_manifest sample_parameters"
  let ?key = "snapshot_key (Store_Layout sample_archive) sample_captured"
  obtain rr tree patched where f: "restore_from sample_restorer ?c sample_configstore
      \<lparr>Res_Snapshot = sample_captured, Res_Key = ?key, Res_Target = None\<rparr>
      [] \<lparr>byPath = [], order = []\<rparr> sample_manifest sample_time = Inr (rr, tree, patched)"
    and ok: "obj_ok tree" "printable (JObject tree)" "nesting (JObject tree) \<le> 10"
    using sample_restore_from by (auto split: sum.splits simp del: json_ok.simps printable.simps nesting.simps)
  have "Marshal (JObject tree) = Inr patched" using restore_from_Inr [OF f] annotate_stamp by metis
  moreover have "nesting (JObject tree) \<le> max_nesting_depth" using ok(3) by (rule le_trans) (simp add: max_nesting_depth_def)
  ultimately have "FromJSON patched = Inr tree" using FromJSON_Marshal ok(1,2) by blast
  moreover have "load sample_restorer ''prod'' ?c w = (Inr (sample_configstore, None), w)"
    by (simp add: load_def sample_restorer_def sample_manifest_request)
  moreover have "ResolveMode None False = SelectLatest" by code_simp
  ultimately show thesis
    using that [of rr tree patched] f assms sample_open
    by (simp add: restore_def select_snapshot_def policySkips_def policyTransforms_def sample_manifest_request Select_def
        read_latest_def sample_restorer_def)
qed

text \<open>The webhook's answer to the sample manifest, on a store whose newest snapshot is the sample capture.\<close>

lemma sample_admitted_at:
  assumes "fst (Latest flat_sha sample_archive w) = Inr (sample_captured, snapshot_key (Store_Layout sample_archive) sample_captured)"
  obtains raw patched w' rr tree where "FromJSON raw = Inr sample_manifest"
    "Handle sample_restorer \<lparr>Req_Raw = raw, Req_Namespace = ''prod''\<rparr> w = (PatchResponseFromRaw raw patched, w')"
    "restore sample_restorer ''prod'' (restore_configuration sample_manifest sample_parameters) sample_manifest w = (Inr (rr, tree, patched), w')"
    "FromJSON patched = Inr tree"
proof -
  obtain raw where raw: "FromJSON raw = Inr sample_manifest" by (rule sample_manifest_raw)
  obtain w' where "Latest flat_sha sample_archive w = (Inr (sample_captured, snapshot_key (Store_Layout sample_archive) sample_captured), w')"
    using assms by (cases "Latest flat_sha sample_archive w") auto
  then obtain rr tree patched where r: "restore sample_restorer ''prod'' (restore_configuration sample_manifest sample_parameters)
      sample_manifest w = (Inr (rr, tree, patched), w')" "FromJSON patched = Inr tree"
    by (rule sample_restore)
  then have "Handle sample_restorer \<lparr>Req_Raw = raw, Req_Namespace = ''prod''\<rparr> w = (PatchResponseFromRaw raw patched, w')"
    by (simp add: Handle_def raw sample_manifest_request request_namespace_def)
  then show thesis using that raw r by blast
qed

lemma sample_admitted:
  obtains raw w patched w' rr tree where "FromJSON raw = Inr sample_manifest"
    "Handle sample_restorer \<lparr>Req_Raw = raw, Req_Namespace = ''prod''\<rparr> w = (PatchResponseFromRaw raw patched, w')"
    "restore sample_restorer ''prod'' (restore_configuration sample_manifest sample_parameters) sample_manifest w = (Inr (rr, tree, patched), w')"
    "FromJSON patched = Inr tree"
  using sample_history_written sample_admitted_at by metis

section \<open>What an admitted restore is\<close>

text \<open>C25. An admitted restore puts verified content into the Cluster: the snapshot was selected from the
  history the manifest names and passed verification, and the document the webhook's patch produces has
  every one of its values the policy does not skip, transformed by the policy, while everything denied is
  the manifest's, and the restored-from annotation is set.\<close>

theorem webhook_restores_verified_content:
  assumes "Handle R request w = (PatchResponseFromRaw original patched, w')"
  shows "\<exists>cluster parameters configStore policy skips t source resolution raw k w1 w2 tree.
    FromJSON (Req_Raw request) = Inr cluster \<and> pluginParameters cluster = Some parameters
    \<and> load R (request_namespace request cluster) (restore_configuration cluster parameters) w = (Inr (configStore, policy), w1)
    \<and> CompileRules (R_cnpg R) (R_celenv R) (policySkips policy) (policyTransforms policy) = Inr (skips, t)
    \<and> Open (R_Resolver R) configStore (RestoreFromServer (restore_configuration cluster parameters)) w1 = (Inr source, w2)
    \<and> select_snapshot R (request_namespace request cluster) policy cluster source w2 = (Inr resolution, w')
    \<and> decodeSnapshot (R_sha R) raw k = Inr (Res_Snapshot resolution)
    \<and> Marshal (JObject tree) = Inr patched
    \<and> (\<forall>l \<in> set (WalkLeaves (restorableTree (ContentOf (Res_Snapshot resolution)))). restored skips l \<longrightarrow>
        (\<exists>v. restored_value (R_cnpg R) (R_celenv R) t l = Inr v \<and> GetSegments tree (Segments l) = Some v))
    \<and> (\<forall>d \<in> set DeniedPaths. \<forall>r. GetSegments tree (Split d @ r) = GetSegments cluster (Split d @ r))
    \<and> GetSegments tree restored_from_path \<noteq> None"
proof (rule Handle_patched [OF assms])
  fix cluster parameters rr tree
  assume c: "FromJSON (Req_Raw request) = Inr cluster" "pluginParameters cluster = Some parameters"
    and run: "restore R (request_namespace request cluster) (restore_configuration cluster parameters) cluster w = (Inr (rr, tree, patched), w')"
  show ?thesis
  proof (rule restore_Inr [OF run])
    fix configStore policy skips t source resolution w1 w2
    assume steps: "load R (request_namespace request cluster) (restore_configuration cluster parameters) w = (Inr (configStore, policy), w1)"
      "CompileRules (R_cnpg R) (R_celenv R) (policySkips policy) (policyTransforms policy) = Inr (skips, t)"
      "Open (R_Resolver R) configStore (RestoreFromServer (restore_configuration cluster parameters)) w1 = (Inr source, w2)"
      "select_snapshot R (request_namespace request cluster) policy cluster source w2 = (Inr resolution, w')"
      and f: "restore_from R (restore_configuration cluster parameters) configStore resolution skips t cluster (R_now R w')
        = Inr (rr, tree, patched)"
    obtain raw k where d: "decodeSnapshot (R_sha R) raw k = Inr (Res_Snapshot resolution)"
      using select_snapshot_verified [OF steps(4)] by blast
    have "GetSegments tree restored_from_path \<noteq> None \<and> Marshal (JObject tree) = Inr patched"
      using restore_from_Inr [OF f] annotate_stamp by (metis option.simps(3))
    then show ?thesis
      using c steps d restore_from_takes_effect [OF f d] restore_from_keeps_denied [OF f d] by blast
  qed
qed

theorem webhook_restores_verified_content_witness:
  "\<exists>raw w patched w' tree. Handle sample_restorer \<lparr>Req_Raw = raw, Req_Namespace = ''prod''\<rparr> w = (PatchResponseFromRaw raw patched, w')
    \<and> Marshal (JObject tree) = Inr patched \<and> pluginParameters tree = Some sample_parameters"
proof -
  obtain raw w patched w' where r: "FromJSON raw = Inr sample_manifest"
    "Handle sample_restorer \<lparr>Req_Raw = raw, Req_Namespace = ''prod''\<rparr> w = (PatchResponseFromRaw raw patched, w')"
    by (rule sample_admitted)
  obtain tree where "Marshal (JObject tree) = Inr patched"
    "\<forall>d \<in> set DeniedPaths. \<forall>r. GetSegments tree (Split d @ r) = GetSegments sample_manifest (Split d @ r)"
    using webhook_restores_verified_content [OF r(2)] r(1) by force
  then show ?thesis using r(2) denied_frame(1) sample_manifest_request(1) by metis
qed

text \<open>C26. A restore happens once: the Cluster an admission produced is admitted unchanged by every later
  call of the webhook, whatever the store, the policies and the clock have become.\<close>

theorem webhook_restores_once:
  assumes "Handle R request w = (PatchResponseFromRaw original patched, w')"
    and "FromJSON (Req_Raw request) = Inr cluster" "pluginParameters cluster = Some parameters"
    and "restore R (request_namespace request cluster) (restore_configuration cluster parameters) cluster w = (Inr (rr, tree, patched), w')"
    and "FromJSON (Req_Raw again) = Inr tree"
  shows "Handle R' again v = (Allowed ''already restored'', v)"
proof -
  have c: "Validate (restore_configuration cluster parameters) = None"
      "checkSourceIsNotAlsoDestination (restore_configuration cluster parameters) = None"
      "IsRestoreRequested (restore_configuration cluster parameters)"
    using Handle_patched [OF assms(1)] assms(2,3) by (metis Inr_inject option.inject)+
  obtain configStore policy skips t source resolution w2 where
      s: "select_snapshot R (request_namespace request cluster) policy cluster source w2 = (Inr resolution, w')"
    and f: "restore_from R (restore_configuration cluster parameters) configStore resolution skips t cluster (R_now R w')
        = Inr (rr, tree, patched)"
    using restore_Inr [OF assms(4)] by metis
  obtain raw k where d: "decodeSnapshot (R_sha R) raw k = Inr (Res_Snapshot resolution)"
    using select_snapshot_verified [OF s] by blast
  have stamp: "GetSegments tree restored_from_path \<noteq> None"
    using restore_from_Inr [OF f] annotate_stamp by (metis option.simps(3))
  have keep: "pluginParameters tree = pluginParameters cluster" "Get tree ''metadata.name'' = Get cluster ''metadata.name''"
    using denied_frame restore_from_keeps_denied [OF f d] by blast+
  then have "restore_configuration tree parameters = restore_configuration cluster parameters"
    by (simp add: restore_configuration_def)
  then show ?thesis
    using Handle_already_restored [OF assms(5) _ _ _ _ stamp, of parameters] c keep(1) assms(3) by simp
qed

theorem webhook_restores_once_witness:
  "\<exists>raw w patched w'. Handle sample_restorer \<lparr>Req_Raw = raw, Req_Namespace = ''prod''\<rparr> w = (PatchResponseFromRaw raw patched, w')
    \<and> Handle sample_restorer \<lparr>Req_Raw = patched, Req_Namespace = ''prod''\<rparr> NewBackend = (Allowed ''already restored'', NewBackend)"
proof (rule sample_admitted)
  fix raw w patched w' rr tree
  assume s: "FromJSON raw = Inr sample_manifest"
    "Handle sample_restorer \<lparr>Req_Raw = raw, Req_Namespace = ''prod''\<rparr> w = (PatchResponseFromRaw raw patched, w')"
    "restore sample_restorer ''prod'' (restore_configuration sample_manifest sample_parameters) sample_manifest w = (Inr (rr, tree, patched), w')"
    "FromJSON patched = Inr tree"
  have "Handle sample_restorer \<lparr>Req_Raw = patched, Req_Namespace = ''prod''\<rparr> NewBackend = (Allowed ''already restored'', NewBackend)"
    by (rule webhook_restores_once [OF s(2), of sample_manifest sample_parameters rr tree])
      (use s sample_manifest_request(1) in \<open>simp_all add: request_namespace_def\<close>)
  with s(2) show ?thesis by blast
qed

text \<open>C27. A restored Cluster gets past the guard of the reconciler: whatever the patch of an admission
  produced, if decoding keeps the restored-from annotation, the Pre hook continues on it.\<close>

theorem restored_cluster_passes_guard:
  assumes "Handle R request w = (PatchResponseFromRaw original patched, w')"
    and "H_GetKind H definition = Inr ''Cluster''" "H_DecodeCluster H patched = Inr created"
    and "\<And>tree. Marshal (JObject tree) = Inr patched \<Longrightarrow> GetSegments tree restored_from_path \<noteq> None \<Longrightarrow>
        gmap_get (Cluster_Annotations created) AnnotationRestoredFrom \<noteq> None"
  shows "Pre H \<lparr>ResourceDefinition = definition, ClusterDefinition = patched\<rparr> = Inr BEHAVIOR_CONTINUE"
proof (rule Handle_patched [OF assms(1)])
  fix cluster parameters rr tree
  assume "restore R (request_namespace request cluster) (restore_configuration cluster parameters) cluster w = (Inr (rr, tree, patched), w')"
  then obtain configStore resolution skips t where
    "restore_from R (restore_configuration cluster parameters) configStore resolution skips t cluster (R_now R w') = Inr (rr, tree, patched)"
    by (rule restore_Inr)
  then have "GetSegments tree restored_from_path \<noteq> None \<and> Marshal (JObject tree) = Inr patched"
    using restore_from_Inr annotate_stamp by (metis option.simps(3))
  then have "gmap_get (Cluster_Annotations created) AnnotationRestoredFrom \<noteq> None" using assms(4) by blast
  then show ?thesis using assms(2,3) by (simp add: Pre_def Let_def)
qed

definition annotated_hooks :: "memory hooks" where
  "annotated_hooks = sample_hooks\<lparr>H_DecodeCluster :=
     (\<lambda>raw. case FromJSON raw of
        Inl err \<Rightarrow> Inl err
      | Inr tree \<Rightarrow> Inr (sample_saved\<lparr>Cluster_Annotations :=
          (case GetSegments tree restored_from_path of Some (JString s) \<Rightarrow> [(AnnotationRestoredFrom, s)] | _ \<Rightarrow> [])\<rparr>))\<rparr>"

theorem restored_cluster_passes_guard_witness:
  "\<exists>raw w patched w'. Handle sample_restorer \<lparr>Req_Raw = raw, Req_Namespace = ''prod''\<rparr> w = (PatchResponseFromRaw raw patched, w')
    \<and> Pre annotated_hooks \<lparr>ResourceDefinition = '''', ClusterDefinition = patched\<rparr> = Inr BEHAVIOR_CONTINUE"
proof (rule sample_admitted)
  fix raw w patched w' rr tree
  assume s: "FromJSON raw = Inr sample_manifest"
    "Handle sample_restorer \<lparr>Req_Raw = raw, Req_Namespace = ''prod''\<rparr> w = (PatchResponseFromRaw raw patched, w')"
    "restore sample_restorer ''prod'' (restore_configuration sample_manifest sample_parameters) sample_manifest w = (Inr (rr, tree, patched), w')"
    "FromJSON patched = Inr tree"
  obtain configStore resolution skips t where
    "restore_from sample_restorer (restore_configuration sample_manifest sample_parameters) configStore resolution skips t sample_manifest (R_now sample_restorer w')
      = Inr (rr, tree, patched)"
    by (rule restore_Inr [OF s(3)])
  then obtain encoded where "GetSegments tree restored_from_path = Some (JString encoded)"
    using restore_from_Inr annotate_stamp by metis
  then have "Pre annotated_hooks \<lparr>ResourceDefinition = '''', ClusterDefinition = patched\<rparr> = Inr BEHAVIOR_CONTINUE"
    by (intro restored_cluster_passes_guard [where created = "sample_saved\<lparr>Cluster_Annotations := [(AnnotationRestoredFrom, encoded)]\<rparr>", OF s(2)])
      (simp_all add: annotated_hooks_def sample_hooks_def s(4))
  with s(2) show ?thesis by blast
qed

section \<open>Capture and restore read the same parameters\<close>

text \<open>C28. The webhook, reading generic JSON, and the hooks, reading a decoded Cluster, agree on the
  plugin's configuration: it is absent or disabled for both, or the same for both.\<close>

theorem parameters_agree:
  assumes "Get tree ''spec.plugins'' = Some (JArray entries)" "list_all2 declares entries (Cluster_Plugins cluster)"
    and "Get tree ''metadata.name'' = Some (JString (Cluster_Name cluster))"
  shows "case pluginParameters tree of
      None \<Rightarrow> \<not> IsSaveEnabled (NewFromCluster cluster) \<and> \<not> IsRestoreRequested (NewFromCluster cluster)
    | Some parameters \<Rightarrow> NewFromCluster cluster = (restore_configuration tree parameters)\<lparr>PC_Cluster := Some cluster\<rparr>"
  by (rule parameters_read_alike [OF assms])

definition sample_twin :: Cluster where
  "sample_twin = sample_saved\<lparr>Cluster_Name := ''db2'', Cluster_Plugins :=
     [\<lparr>Plugin_Name = PluginName, Plugin_Enabled = None, Plugin_Parameters = sample_parameters\<rparr>]\<rparr>"

definition sample_entry :: json where
  "sample_entry = JObject [(''name'', JString PluginName), (''parameters'', strmap_json sample_parameters)]"

lemma sample_twin_declared:
  "Get sample_manifest ''spec.plugins'' = Some (JArray [sample_entry])"
  "list_all2 declares [sample_entry] (Cluster_Plugins sample_twin)"
  "Get sample_manifest ''metadata.name'' = Some (JString (Cluster_Name sample_twin))"
  by code_simp+

theorem parameters_agree_witness:
  "NewFromCluster sample_twin = (restore_configuration sample_manifest sample_parameters)\<lparr>PC_Cluster := Some sample_twin\<rparr>"
  using parameters_agree [OF sample_twin_declared] sample_manifest_request(1) by simp

section \<open>What is refused\<close>

text \<open>C29. No Cluster is created that would write into the history it restores from: of a Cluster that the
  webhook lets through and that saves to the ConfigStore it restores from, as the hooks decode it, no
  key the captures read or write is one the restore reads, so long as both server names are single path
  segments. The condition is needed: the guard compares names as they are written, while keys ignore
  the slashes around one, so \<open>db/\<close> and \<open>db\<close> pass the guard and are one history (the lemma below).\<close>

theorem admitted_histories_are_apart:
  assumes "Handle R request w = (response, w')" "\<And>err. response \<noteq> Denied err"
    and "FromJSON (Req_Raw request) = Inr tree" "Get tree ''spec.plugins'' = Some (JArray entries)"
    and "list_all2 declares entries (Cluster_Plugins cluster)"
    and "Get tree ''metadata.name'' = Some (JString (Cluster_Name cluster))" "IsRestoreRequested (NewFromCluster cluster)"
    and "SaveToStore (NewFromCluster cluster) = RestoreFromStore (NewFromCluster cluster)"
    and "one_segment (SaveToServer (NewFromCluster cluster))" "one_segment (RestoreFromServer (NewFromCluster cluster))"
    and "in_history (LayoutFor configStore resolved (SaveToServer (NewFromCluster cluster))) k"
  shows "\<not> in_history (LayoutFor configStore resolved (RestoreFromServer (NewFromCluster cluster))) k"
proof -
  have "SaveToServer (NewFromCluster cluster) \<noteq> RestoreFromServer (NewFromCluster cluster)"
  proof
    assume same: "SaveToServer (NewFromCluster cluster) = RestoreFromServer (NewFromCluster cluster)"
    obtain parameters where p: "pluginParameters tree = Some parameters"
      "NewFromCluster cluster = (restore_configuration tree parameters)\<lparr>PC_Cluster := Some cluster\<rparr>"
      using parameters_read_alike [OF assms(4-6)] assms(7) by (auto split: option.splits)
    with same assms(7,8) have "\<exists>err. Handle R request w = (Denied err, w)"
      using Handle_shared_history [OF assms(3) p(1)] by (simp add: IsRestoreRequested_def)
    with assms(1,2) show False by auto
  qed
  then show ?thesis by (intro histories_share_no_key [OF _ _ _ _ assms(11)]) (simp_all add: LayoutFor_def assms(9,10))
qed

lemma slashed_server_evades_guard:
  assumes "RestoreFromServer c = s" "SaveToServer c = s @ ''/''"
  shows "checkSourceIsNotAlsoDestination c = None"
    "in_history (LayoutFor configStore resolved (SaveToServer c)) k \<longleftrightarrow> in_history (LayoutFor configStore resolved (RestoreFromServer c)) k"
proof -
  show "checkSourceIsNotAlsoDestination c = None" using assms by (simp add: checkSourceIsNotAlsoDestination_def)
  have "Trim (s @ ''/'') CHR ''/'' = Trim s CHR ''/''"
    by (cases "\<forall>x \<in> set s. x = CHR ''/''")
      (simp_all add: Trim_def dropWhile_append dropWhile_eq_Nil_conv [THEN iffD2])
  then show "in_history (LayoutFor configStore resolved (SaveToServer c)) k \<longleftrightarrow> in_history (LayoutFor configStore resolved (RestoreFromServer c)) k"
    using assms by (intro in_history_trimmed) (simp_all add: LayoutFor_def)
qed

definition sample_resolved :: Resolved where
  "sample_resolved = \<lparr>Res_Configuration = zero_configuration, Res_Destination = \<lparr>Scheme = ''s3'', Bucket = ''backups'', Dest_Path = ''pg''\<rparr>,
     Res_Source = ''Inline'', Res_Provider = ''s3'', InheritedRetention = ''''\<rparr>"

theorem admitted_histories_are_apart_witness:
  "in_history (LayoutFor sample_configstore sample_resolved (SaveToServer (NewFromCluster sample_twin))) ''pg/db2/chronicle/latest.json''
    \<and> \<not> in_history (LayoutFor sample_configstore sample_resolved (RestoreFromServer (NewFromCluster sample_twin))) ''pg/db2/chronicle/latest.json''"
proof (rule sample_admitted)
  fix raw w patched w'
  assume s: "FromJSON raw = Inr sample_manifest"
    "Handle sample_restorer \<lparr>Req_Raw = raw, Req_Namespace = ''prod''\<rparr> w = (PatchResponseFromRaw raw patched, w')"
  have c: "IsRestoreRequested (NewFromCluster sample_twin)"
    "SaveToStore (NewFromCluster sample_twin) = RestoreFromStore (NewFromCluster sample_twin)"
    "SaveToServer (NewFromCluster sample_twin) = ''db2''" "RestoreFromServer (NewFromCluster sample_twin) = ''db''"
    "in_history (LayoutFor sample_configstore sample_resolved ''db2'') ''pg/db2/chronicle/latest.json''"
    by code_simp+
  then show ?thesis
    using admitted_histories_are_apart [OF s(2) _ _ sample_twin_declared c(1,2), of sample_configstore sample_resolved
        "''pg/db2/chronicle/latest.json''"] s(1)
    by (simp add: one_segment_def)
qed

end
