(* ===== verification/Controllers.thy ===== *)
theory Controllers
  imports Restore_Plan Resolver Retention_Plan Plugin_Config
begin

text \<open>
  \<open>internal/controller\<close>: the reconciler of a ConfigStore, which publishes whether the store is usable
  and enforces its retention, the reconciler of a RestorePolicy, which publishes whether its rules
  compile, and the comparison of statuses both use. The Kubernetes client, the clock and
  \<open>meta.SetStatusCondition\<close> are parameters; logging is left out.
\<close>

section \<open>Statuses\<close>

definition ConditionReady :: string where "ConditionReady = ''Ready''"
definition ReasonResolved :: string where "ReasonResolved = ''Resolved''"
definition ReasonObjectStoreMissing :: string where "ReasonObjectStoreMissing = ''ObjectStoreNotFound''"
definition ReasonObjectStoreCRDAbsent :: string where "ReasonObjectStoreCRDAbsent = ''ObjectStoreCRDNotInstalled''"
definition ReasonConfigurationInvalid :: string where "ReasonConfigurationInvalid = ''ConfigurationInvalid''"
definition ReasonObjectStoreUnreachable :: string where "ReasonObjectStoreUnreachable = ''ObjectStoreUnreachable''"

text \<open>A \<open>metav1.Condition\<close>; its status is \<open>ConditionTrue\<close>, \<open>ConditionFalse\<close> or \<open>ConditionUnknown\<close>.\<close>

record condition =
  Cond_Type :: string
  Cond_Status :: string
  Cond_ObservedGeneration :: int
  Cond_LastTransitionTime :: time
  Cond_Reason :: string
  Cond_Message :: string

definition ready_condition :: "bool \<Rightarrow> string \<Rightarrow> string \<Rightarrow> condition" where
  "ready_condition ready why message =
     \<lparr>Cond_Type = ConditionReady, Cond_Status = (if ready then ''True'' else ''False''), Cond_ObservedGeneration = 0,
      Cond_LastTransitionTime = 0, Cond_Reason = why, Cond_Message = message\<rparr>"

record ResolvedStore =
  RS_DestinationPath :: string
  RS_EndpointURL :: string
  RS_Provider :: string
  RS_Retention :: string
  RS_CaptureGroups :: "string list"
  RS_Source :: string
  RS_ObservedAt :: "time option"

record ConfigStoreStatus =
  Status_Resolved :: "ResolvedStore option"
  Status_Conditions :: "condition list"

text \<open>The objects the controllers read, with their status.\<close>

record store_object =
  Store_Spec :: ConfigStore
  Store_Status :: ConfigStoreStatus

record policy_object =
  Policy_Spec :: RestorePolicy
  Policy_Conditions :: "condition list"

subsection \<open>Comparison\<close>

definition untimed :: "condition \<Rightarrow> condition" where
  "untimed c = c\<lparr>Cond_LastTransitionTime := 0\<rparr>"

definition equalConditions :: "condition list \<Rightarrow> condition list \<Rightarrow> bool" where
  "equalConditions a b \<longleftrightarrow> length a = length b \<and> list_all2 (\<lambda>left right. untimed left = untimed right) a b"

definition equalStatus :: "ConfigStoreStatus \<Rightarrow> ConfigStoreStatus \<Rightarrow> bool" where
  "equalStatus a b \<longleftrightarrow>
     equalConditions (Status_Conditions a) (Status_Conditions b)
     \<and> (case (Status_Resolved a, Status_Resolved b) of
          (None, None) \<Rightarrow> True
        | (Some left, Some right) \<Rightarrow> left\<lparr>RS_ObservedAt := None\<rparr> = right\<lparr>RS_ObservedAt := None\<rparr>
        | _ \<Rightarrow> False)"

section \<open>The checks behind Ready\<close>

text \<open>
  \<open>fmt.Sprintf("%dd", int(window.Hours()/24))\<close>. \<open>Hours\<close> is exact for the whole days of a window in
  range; a window that wrapped around is divided exactly here and in floating point there.
\<close>

definition describeRetention :: "int \<Rightarrow> string" where
  "describeRetention window =
     (if window = 0 then RetentionForever
      else FormatInt (sgn window * (\<bar>window\<bar> div day)) @ ''d'')"

definition effectiveRetention :: "ConfigStore \<Rightarrow> Resolved \<Rightarrow> error + int" where
  "effectiveRetention configStore resolved =
     (let value = GetRetention configStore in
      if value = RetentionForever then Inr 0
      else if value = RetentionInherit then
        (if InheritedRetention resolved = ''''
         then Inl (Errorf ''retention is inherited, but the object store this derives from sets no retentionPolicy'' [RetentionInherit])
         else wrap ''inherited'' [] (ParseRetentionWindow (InheritedRetention resolved)))
      else ParseRetentionWindow value)"

definition validateCaptureGroups :: "string list \<Rightarrow> error option" where
  "validateCaptureGroups configured =
     (let unknown = filter (\<lambda>name. LookupGroup name = None) configured in
      if unknown = [] then None
      else Some (Errorf ''unknown capture group(s)'' [Join unknown '', '', Join GroupNames '', '']))"

record 'w checkedStore =
  checked_resolved :: Resolved
  checked_backend :: "'w Backend"
  checked_retention :: int
  bucketMissing :: bool

definition check :: "'w Provider \<Rightarrow> ConfigStore \<Rightarrow> 'w \<Rightarrow> (string \<times> error + 'w checkedStore) \<times> 'w" where
  "check provider configStore w =
     (case P_Resolve provider configStore w of
        (Inl err, w) \<Rightarrow>
          (Inl (if errors_Is err ObjectStoreCRDAbsent then ReasonObjectStoreCRDAbsent
                else if errors_Is err KubeNotFound then ReasonObjectStoreMissing
                else ReasonConfigurationInvalid, err), w)
      | (Inr resolved, w) \<Rightarrow>
     (case validateCaptureGroups (GetCaptureGroups configStore) of
        Some err \<Rightarrow> (Inl (ReasonConfigurationInvalid, err), w)
      | None \<Rightarrow>
     (case effectiveRetention configStore resolved of
        Inl err \<Rightarrow> (Inl (ReasonConfigurationInvalid, err), w)
      | Inr retention \<Rightarrow>
     (case P_Backend provider (Store_Namespace configStore) resolved w of
        (Inl err, w) \<Rightarrow> (Inl (ReasonConfigurationInvalid, err), w)
      | (Inr backend, w) \<Rightarrow>
     (let result = (\<lambda>missing. \<lparr>checked_resolved = resolved, checked_backend = backend, checked_retention = retention,
            bucketMissing = missing\<rparr>) in
      case B_Check backend (Dest_Path (Res_Destination resolved)) w of
        (None, w) \<Rightarrow> (Inr (result False), w)
      | (Some err, w) \<Rightarrow>
          if \<not> errors_Is err ErrBucketNotFound then (Inl (ReasonObjectStoreUnreachable, err), w)
          else (Inr (result True), w))))))"

section \<open>Retention\<close>

text \<open>The loop over the plan, which stops at the first key that cannot be deleted.\<close>

fun delete_keys :: "'w Backend \<Rightarrow> string list \<Rightarrow> 'w \<Rightarrow> 'w" where
  "delete_keys backend [] w = w"
| "delete_keys backend (key # keys) w =
     (case B_Delete backend key w of
        (Some err, w) \<Rightarrow> w
      | (None, w) \<Rightarrow> delete_keys backend keys w)"

definition pruneSuperseded :: "'w Backend \<Rightarrow> ConfigStore \<Rightarrow> Resolved \<Rightarrow> string \<Rightarrow> time \<Rightarrow> 'w \<Rightarrow> 'w" where
  "pruneSuperseded backend configStore resolved serverName cutoff w =
     (case List_refs \<lparr>Store_Backend = backend, Store_Layout = LayoutFor configStore resolved serverName\<rparr> w of
        (Inl err, w) \<Rightarrow> w
      | (Inr refs, w) \<Rightarrow> delete_keys backend (PlanRetention refs cutoff) w)"

text \<open>The histories this store holds for the clusters of its namespace.\<close>

definition saves_to :: "ConfigStore \<Rightarrow> Cluster \<Rightarrow> bool" where
  "saves_to configStore cluster \<longleftrightarrow>
     IsSaveEnabled (NewFromCluster cluster) \<and> SaveToStore (NewFromCluster cluster) = Store_Name configStore"

fun prune_clusters :: "'w Backend \<Rightarrow> ConfigStore \<Rightarrow> Resolved \<Rightarrow> time \<Rightarrow> Cluster list \<Rightarrow> 'w \<Rightarrow> 'w" where
  "prune_clusters backend configStore resolved cutoff [] w = w"
| "prune_clusters backend configStore resolved cutoff (cluster # clusters) w =
     prune_clusters backend configStore resolved cutoff clusters
       (if saves_to configStore cluster
        then pruneSuperseded backend configStore resolved (SaveToServer (NewFromCluster cluster)) cutoff w
        else w)"

record 'w store_reconciler =
  C_Get :: "named \<Rightarrow> 'w \<Rightarrow> (error + store_object) \<times> 'w"
  C_ListClusters :: "string \<Rightarrow> 'w \<Rightarrow> (error + Cluster list) \<times> 'w"
  C_PatchStatus :: "store_object \<Rightarrow> store_object \<Rightarrow> 'w \<Rightarrow> error option \<times> 'w"
  C_SetStatusCondition :: "time \<Rightarrow> condition list \<Rightarrow> condition \<Rightarrow> condition list"
  C_now :: "'w \<Rightarrow> time"
  C_Resolver :: "'w Provider"

definition enforceRetention :: "'w store_reconciler \<Rightarrow> ConfigStore \<Rightarrow> 'w checkedStore \<Rightarrow> 'w \<Rightarrow> 'w" where
  "enforceRetention r configStore checked w =
     (if checked_retention checked = 0 \<or> bucketMissing checked then w
      else (case C_ListClusters r (Store_Namespace configStore) w of
              (Inl err, w) \<Rightarrow> w
            | (Inr clusters, w) \<Rightarrow>
                prune_clusters (checked_backend checked) configStore (checked_resolved checked)
                  (C_now r w + int64 (- checked_retention checked)) clusters w))"

section \<open>Reconciling a ConfigStore\<close>

datatype requeue = NoRequeue | RequeueAfter int

definition resyncInterval :: int where "resyncInterval = 10 * 60 * nanos_per_second"
definition notReadyRetryInterval :: int where "notReadyRetryInterval = 60 * nanos_per_second"

definition patchStatus :: "'w store_reconciler \<Rightarrow> store_object \<Rightarrow> store_object \<Rightarrow> 'w \<Rightarrow> error option \<times> 'w" where
  "patchStatus r original updated w =
     (if equalStatus (Store_Status original) (Store_Status updated) then (None, w) else C_PatchStatus r original updated w)"

definition resolved_message :: "'w checkedStore \<Rightarrow> string" where
  "resolved_message checked =
     ''Object store configuration resolved from '' @ Res_Source (checked_resolved checked)
     @ (if bucketMissing checked
        then ''; bucket '' @ quoted (Bucket (Res_Destination (checked_resolved checked)))
          @ '' does not exist yet and is created on first write''
        else '''')"

definition resolved_status :: "ConfigStore \<Rightarrow> 'w checkedStore \<Rightarrow> time \<Rightarrow> ResolvedStore" where
  "resolved_status configStore checked now =
     \<lparr>RS_DestinationPath = DestinationPath (Res_Configuration (checked_resolved checked)),
      RS_EndpointURL = EndpointURL (Res_Configuration (checked_resolved checked)),
      RS_Provider = Res_Provider (checked_resolved checked),
      RS_Retention = describeRetention (checked_retention checked),
      RS_CaptureGroups = EffectiveGroupNames (GetCaptureGroups configStore),
      RS_Source = Res_Source (checked_resolved checked), RS_ObservedAt = Some now\<rparr>"

text \<open>The status a check leads to.\<close>

definition status_after ::
  "(time \<Rightarrow> condition list \<Rightarrow> condition \<Rightarrow> condition list) \<Rightarrow> time \<Rightarrow> string \<times> error + 'w checkedStore \<Rightarrow> store_object \<Rightarrow> ConfigStoreStatus" where
  "status_after set_condition now verdict object =
     (case verdict of
        Inl (why, err) \<Rightarrow>
          \<lparr>Status_Resolved = None,
           Status_Conditions = set_condition now (Status_Conditions (Store_Status object)) (ready_condition False why (Error err))\<rparr>
      | Inr checked \<Rightarrow>
          \<lparr>Status_Resolved = Some (resolved_status (Store_Spec object) checked now),
           Status_Conditions = set_condition now (Status_Conditions (Store_Status object))
             (ready_condition True ReasonResolved (resolved_message checked))\<rparr>)"

definition Reconcile_store :: "'w store_reconciler \<Rightarrow> named \<Rightarrow> 'w \<Rightarrow> (error + requeue) \<times> 'w" where
  "Reconcile_store r req w =
     (case C_Get r req w of
        (Inl err, w) \<Rightarrow> (if errors_Is err KubeNotFound then Inr NoRequeue else Inl err, w)
      | (Inr original, w) \<Rightarrow>
     (case check (C_Resolver r) (Store_Spec original) w of
        (verdict, w) \<Rightarrow>
     (let updated = original\<lparr>Store_Status := status_after (C_SetStatusCondition r) (C_now r w) verdict original\<rparr>;
          w = (case verdict of Inl _ \<Rightarrow> w | Inr checked \<Rightarrow> enforceRetention r (Store_Spec original) checked w);
          after = (case verdict of Inl _ \<Rightarrow> notReadyRetryInterval | Inr _ \<Rightarrow> resyncInterval)
      in case patchStatus r original updated w of
           (Some err, w) \<Rightarrow> (Inl err, w)
         | (None, w) \<Rightarrow> (Inr (RequeueAfter after), w))))"

section \<open>Reconciling a RestorePolicy\<close>

record ('w, 'p) policy_reconciler =
  PR_Get :: "named \<Rightarrow> 'w \<Rightarrow> (error + policy_object) \<times> 'w"
  PR_PatchStatus :: "policy_object \<Rightarrow> policy_object \<Rightarrow> 'w \<Rightarrow> error option \<times> 'w"
  PR_SetStatusCondition :: "time \<Rightarrow> condition list \<Rightarrow> condition \<Rightarrow> condition list"
  PR_now :: "'w \<Rightarrow> time"
  PR_cnpg :: cnpg
  PR_celenv :: "'p celenv"

definition policy_condition :: "cnpg \<Rightarrow> 'p celenv \<Rightarrow> RestorePolicy \<Rightarrow> condition" where
  "policy_condition C env policy =
     (case CompileRules C env (Skip policy) (Transform policy) of
        Inl err \<Rightarrow> ready_condition False ReasonConfigurationInvalid (Error err)
      | Inr _ \<Rightarrow> ready_condition True ReasonResolved ''Rules are valid'')"

definition Reconcile_policy :: "('w, 'p) policy_reconciler \<Rightarrow> named \<Rightarrow> 'w \<Rightarrow> (error + requeue) \<times> 'w" where
  "Reconcile_policy r req w =
     (case PR_Get r req w of
        (Inl err, w) \<Rightarrow> (if errors_Is err KubeNotFound then Inr NoRequeue else Inl err, w)
      | (Inr original, w) \<Rightarrow>
     (let conditions = PR_SetStatusCondition r (PR_now r w) (Policy_Conditions original)
            (policy_condition (PR_cnpg r) (PR_celenv r) (Policy_Spec original)) in
      if equalConditions (Policy_Conditions original) conditions then (Inr NoRequeue, w)
      else (case PR_PatchStatus r original (original\<lparr>Policy_Conditions := conditions\<rparr>) w of
              (Some err, w) \<Rightarrow> (Inl err, w)
            | (None, w) \<Rightarrow> (Inr NoRequeue, w))))"


section \<open>What a published status means\<close>

text \<open>
  What \<open>meta.SetStatusCondition\<close> documents, transition times aside: the condition of the same type is
  replaced, and appended when there is none.
\<close>

fun upsert :: "condition list \<Rightarrow> condition \<Rightarrow> condition list" where
  "upsert [] c = [c]"
| "upsert (x # xs) c = (if Cond_Type x = Cond_Type c then c # xs else x # upsert xs c)"

definition sets_condition :: "(time \<Rightarrow> condition list \<Rightarrow> condition \<Rightarrow> condition list) \<Rightarrow> bool" where
  "sets_condition f \<longleftrightarrow> (\<forall>now cs c. map untimed (f now cs c) = upsert (map untimed cs) (untimed c))"

lemma upsert_upsert: "upsert (upsert cs c) c = upsert cs c"
  by (induction cs) auto

lemma upsert_find: "find (\<lambda>x. Cond_Type x = Cond_Type c) (upsert cs c) = Some c"
  by (induction cs) auto

lemma equalConditions_untimed: "equalConditions a b \<longleftrightarrow> map untimed a = map untimed b"
  by (auto simp: equalConditions_def list_all2_conv_all_nth intro: nth_equalityI)
    (metis length_map nth_map)+

lemma set_twice_equal:
  "sets_condition f \<Longrightarrow> equalConditions (f now cs c) (f now' (f now cs c) c)"
  by (simp add: equalConditions_untimed sets_condition_def upsert_upsert)

text \<open>A status published for a verdict is the status the same verdict leads to again.\<close>

lemma status_after_settles:
  assumes "sets_condition f" "Store_Status object = status_after f t0 verdict object0" "Store_Spec object0 = Store_Spec object"
  shows "equalStatus (Store_Status object) (status_after f now verdict object)"
  using assms(2,3) set_twice_equal [OF assms(1)]
  by (cases verdict) (auto simp: equalStatus_def status_after_def resolved_status_def split: prod.splits)

text \<open>The verdict can be read off the Ready condition.\<close>

lemma status_after_ready:
  assumes "sets_condition f"
  shows "\<exists>c. find (\<lambda>c. Cond_Type c = ConditionReady) (map untimed (Status_Conditions (status_after f now verdict object))) = Some c
    \<and> (Cond_Status c = ''True'' \<longleftrightarrow> \<not> isl verdict)"
proof -
  have r: "Cond_Type (untimed (ready_condition b why m)) = ConditionReady"
    "Cond_Status (untimed (ready_condition b why m)) = (if b then ''True'' else ''False'')" for b why m
    by (simp_all add: ready_condition_def untimed_def)
  show ?thesis
    using assms upsert_find [of "untimed (ready_condition b why m)" for b why m]
    by (cases verdict) (auto simp: status_after_def sets_condition_def r split: prod.splits)
qed

section \<open>What the checks establish\<close>

lemma check_Inr:
  assumes "check provider configStore w = (Inr checked, w')"
  obtains w1 w2 where "P_Resolve provider configStore w = (Inr (checked_resolved checked), w1)"
    "validateCaptureGroups (GetCaptureGroups configStore) = None"
    "effectiveRetention configStore (checked_resolved checked) = Inr (checked_retention checked)"
    "P_Backend provider (Store_Namespace configStore) (checked_resolved checked) w1 = (Inr (checked_backend checked), w2)"
    "\<exists>err. B_Check (checked_backend checked) (Dest_Path (Res_Destination (checked_resolved checked))) w2 = (err, w')
      \<and> (err = None \<and> \<not> bucketMissing checked \<or> (\<exists>e. err = Some e \<and> errors_Is e ErrBucketNotFound \<and> bucketMissing checked))"
  using assms by (auto simp: check_def Let_def split: prod.splits sum.splits option.splits if_splits)

lemma validateCaptureGroups_None:
  "validateCaptureGroups gs = None \<longleftrightarrow> (\<forall>g \<in> set gs. LookupGroup g \<noteq> None)"
  by (auto simp: validateCaptureGroups_def Let_def filter_empty_conv)

end
