(* ===== verification/Retention_Sweep.thy ===== *)
theory Retention_Sweep
  imports Controllers Restore_Select
begin

text \<open>
  What \<open>enforceRetention\<close> and \<open>pruneSuperseded\<close> of \<open>internal/controller/configstore_controller.go\<close> do to
  the object store: whatever part of the sweep succeeds, every selection inside the window, and the
  latest snapshot, stay what they were, for every history of the store.
\<close>

section \<open>The chosen snapshot\<close>

text \<open>The newest snapshot of a history not after a moment.\<close>

definition chosen :: "(string \<Rightarrow> bytes option) \<Rightarrow> Layout \<Rightarrow> time \<Rightarrow> SnapshotRef \<Rightarrow> bool" where
  "chosen objs l m r \<longleftrightarrow> r \<in> refs_of objs l \<and> Ref_CapturedAt r \<le> m
     \<and> (\<forall>r' \<in> refs_of objs l. Ref_CapturedAt r' \<le> m \<longrightarrow> ref_order r' \<le> ref_order r)"

text \<open>A history whose snapshots all lie directly under its prefix, as the plugin writes them.\<close>

definition flat_history :: "(string \<Rightarrow> bytes option) \<Rightarrow> Layout \<Rightarrow> bool" where
  "flat_history objs l \<longleftrightarrow> (\<forall>r \<in> refs_of objs l. direct_ref (butlast (SnapshotsPrefix l)) r)"

definition without :: "string set \<Rightarrow> (string \<Rightarrow> bytes option) \<Rightarrow> string \<Rightarrow> bytes option" where
  "without D objs k = (if k \<in> D then None else objs k)"

lemma without_empty [simp]: "without {} objs = objs"
  by (simp add: without_def fun_eq_iff)

lemma without_without: "without D (without E objs) = without (D \<union> E) objs"
  by (simp add: without_def fun_eq_iff)

lemma refs_of_without: "refs_of (without D objs) l = {r \<in> refs_of objs l. Key r \<notin> D}"
  by (auto simp: refs_of_def without_def)

lemma flat_history_without: "flat_history objs l \<Longrightarrow> flat_history (without D objs) l"
  by (auto simp: flat_history_def refs_of_without)

lemma newest_at_or_before_iff:
  assumes "sorted (map ref_order refs)"
  shows "newest_at_or_before refs m None = Some r \<longleftrightarrow>
    r \<in> set refs \<and> Ref_CapturedAt r \<le> m \<and> (\<forall>r' \<in> set refs. Ref_CapturedAt r' \<le> m \<longrightarrow> ref_order r' \<le> ref_order r)"
    (is "_ \<longleftrightarrow> ?rhs r")
proof
  assume "newest_at_or_before refs m None = Some r"
  then show "?rhs r" using newest_at_or_before_Some [OF assms] by blast
next
  assume r: "?rhs r"
  then obtain r0 where r0: "newest_at_or_before refs m None = Some r0"
    using newest_at_or_before_None [OF assms, of m] by fastforce
  then have "?rhs r0" using newest_at_or_before_Some [OF assms] by blast
  with r have "ref_order r = ref_order r0" by (intro antisym) auto
  with r0 show "newest_at_or_before refs m None = Some r" using ref_order_inj by (simp add: inj_eq)
qed

lemma newest_is_chosen:
  "set refs = refs_of objs l \<Longrightarrow> sorted (map ref_order refs) \<Longrightarrow>
     newest_at_or_before refs m None = Some r \<longleftrightarrow> chosen objs l m r"
  by (simp add: newest_at_or_before_iff chosen_def)

lemma PlanRetention_keys: "set (PlanRetention refs cutoff) \<subseteq> Key ` set refs"
  by (auto simp: PlanRetention_def Let_def split: if_splits dest!: in_set_takeD)

text \<open>A key lies directly under one prefix only.\<close>

lemma sep_last:
  assumes "a @ x # u = b @ x # v" "x \<notin> set u" "x \<notin> set v"
  shows "a = b"
proof -
  have "rev (a @ x # u) = rev (b @ x # v)" using assms(1) by (rule arg_cong)
  then have "rev u @ x # rev a = rev v @ x # rev b" by (simp only: rev_append rev.simps append_assoc append.simps)
  then have "rev u = rev v" using sep_unique [of x "rev u" "rev v" "rev a" "rev b"] assms(2,3) by simp
  with assms(1) show ?thesis by simp
qed

lemma flat_histories_apart:
  assumes "flat_history objs l" "flat_history objs l'" "r \<in> refs_of objs l" "r' \<in> refs_of objs l'" "Key r = Key r'"
  shows "SnapshotsPrefix l = SnapshotsPrefix l'"
proof -
  have "direct_ref (butlast (SnapshotsPrefix l)) r" "direct_ref (butlast (SnapshotsPrefix l')) r'"
    using assms(1-4) by (auto simp: flat_history_def)
  then obtain n n' where n: "Key r = butlast (SnapshotsPrefix l) @ ''/'' @ n" "CHR ''/'' \<notin> set n"
    "Key r' = butlast (SnapshotsPrefix l') @ ''/'' @ n'" "CHR ''/'' \<notin> set n'"
    using direct_ref_key by metis
  have "butlast (SnapshotsPrefix l) = butlast (SnapshotsPrefix l')"
    by (rule sep_last [of _ "CHR ''/''" n _ n']) (use n assms(5) in auto)
  moreover obtain p p' where "SnapshotsPrefix l = p @ ''/''" "SnapshotsPrefix l' = p' @ ''/''"
    using SnapshotsPrefix_slash by metis
  ultimately show ?thesis by simp
qed

text \<open>Carrying out part of a plan for one history, as seen by any history.\<close>

lemma prune_keeps_chosen:
  assumes "flat_history objs l'" "set refs = refs_of objs l'" "sorted (map ref_order refs)" "distinct (map Key refs)"
    and "D \<subseteq> set (PlanRetention refs cutoff)" "flat_history objs l" "cutoff \<le> m"
  shows "chosen (without D objs) l m r \<longleftrightarrow> chosen objs l m r"
proof (cases "SnapshotsPrefix l = SnapshotsPrefix l'")
  case True
  then have refs: "set refs = refs_of objs l" using assms(2) by (simp add: refs_of_def)
  have "history (butlast (SnapshotsPrefix l')) refs"
    using assms(1-4) by (auto simp: history_def list_all_iff flat_history_def)
  then have "newest_at_or_before (filter (\<lambda>r. Key r \<notin> D) refs) m None = newest_at_or_before refs m None"
    by (rule retention_keeps_selection) (use assms in auto)
  moreover have "set (filter (\<lambda>r. Key r \<notin> D) refs) = refs_of (without D objs) l"
    using refs by (auto simp: refs_of_without)
  ultimately show ?thesis
    using newest_is_chosen [OF refs assms(3)] newest_is_chosen [of "filter (\<lambda>r. Key r \<notin> D) refs" "without D objs" l m r]
      sorted_filter [OF assms(3)] by simp
next
  case False
  have "Key r \<notin> D" if "r \<in> refs_of objs l" for r
  proof
    assume "Key r \<in> D"
    then obtain r' where "r' \<in> refs_of objs l'" "Key r = Key r'"
      using assms(2,5) PlanRetention_keys [of refs cutoff] by auto
    then show False using flat_histories_apart [OF assms(6,1) that] False by blast
  qed
  then have "refs_of (without D objs) l = refs_of objs l" by (auto simp: refs_of_without)
  then show ?thesis by (simp add: chosen_def)
qed

text \<open>No deleted key is a history's pointer to its latest snapshot.\<close>

lemma LatestKey_not_parsed: "\<exists>err. ParseSnapshotKey (LatestKey l) = Inl err"
proof -
  have "Trim ''latest.json'' CHR ''/'' = ''latest.json''" "CHR ''/'' \<notin> set ''latest.json''" by code_simp+
  then have "path_Base (LatestKey l) = ''latest.json''"
    using path_Base_append(1) [of "''latest.json''" "Trim (Root l) CHR ''/''"] path_Base_append(2) [of "''latest.json''"]
    by (cases "Trim (Root l) CHR ''/'' = ''''") (simp_all add: LatestKey_def joinKey_def)
  moreover have "snapshotKeyPattern ''latest.json'' = None" by code_simp
  ultimately show ?thesis by (simp add: ParseSnapshotKey_def)
qed


section \<open>The sweep over a backend whose deletions may fail\<close>

text \<open>What the sweep keeps of the objects, as one relation between before and after.\<close>

definition keeps_answers :: "time \<Rightarrow> (string \<Rightarrow> bytes option) \<Rightarrow> (string \<Rightarrow> bytes option) \<Rightarrow> bool" where
  "keeps_answers cutoff before after \<longleftrightarrow> (\<exists>D. after = without D before
     \<and> (\<forall>k \<in> D. \<exists>x. ParseSnapshotKey k = Inr x)
     \<and> (\<forall>l m r. flat_history before l \<longrightarrow> cutoff \<le> m \<longrightarrow> (chosen after l m r \<longleftrightarrow> chosen before l m r)))"

lemma keeps_answers_refl: "keeps_answers cutoff before before"
  unfolding keeps_answers_def by (rule exI [of _ "{}"]) simp

lemma keeps_answers_trans:
  assumes "keeps_answers cutoff a b" "keeps_answers cutoff b c"
  shows "keeps_answers cutoff a c"
proof -
  obtain D E where d: "b = without D a" "\<forall>k \<in> D. \<exists>x. ParseSnapshotKey k = Inr x"
      "\<forall>l m r. flat_history a l \<longrightarrow> cutoff \<le> m \<longrightarrow> (chosen b l m r \<longleftrightarrow> chosen a l m r)"
    and e: "c = without E b" "\<forall>k \<in> E. \<exists>x. ParseSnapshotKey k = Inr x"
      "\<forall>l m r. flat_history b l \<longrightarrow> cutoff \<le> m \<longrightarrow> (chosen c l m r \<longleftrightarrow> chosen b l m r)"
    using assms unfolding keeps_answers_def by blast
  have "flat_history a l \<Longrightarrow> flat_history b l" for l by (simp add: d(1) flat_history_without)
  then show ?thesis
    unfolding keeps_answers_def using d e by (intro exI [of _ "E \<union> D"]) (auto simp: without_without)
qed

context pruned_store
begin

lemma delete_keys_without:
  assumes "good w"
  shows "\<exists>D \<subseteq> set keys. objs (delete_keys B keys w) = without D (objs w) \<and> good (delete_keys B keys w)"
  using assms
proof (induction keys arbitrary: w)
  case Nil
  then show ?case by auto
next
  case (Cons key keys)
  obtain res w' where d: "B_Delete B key w = (res, w')" "good w'"
    "objs w' = (objs w)(key := None) \<or> res \<noteq> None \<and> objs w' = objs w"
    using delete_attempts [OF Cons.prems] by blast
  have gone: "(objs w)(key := None) = without {key} (objs w)" by (auto simp: without_def)
  show ?case
  proof (cases res)
    case None
    obtain D where "D \<subseteq> set keys" "objs (delete_keys B keys w') = without D (objs w')" "good (delete_keys B keys w')"
      using Cons.IH [OF d(2)] by blast
    then show ?thesis using d None gone by (intro exI [of _ "D \<union> {key}"]) (auto simp: without_without)
  next
    case (Some err)
    show ?thesis
      using d Some gone by (intro exI [of _ "if objs w' = objs w then {} else {key}"]) auto
  qed
qed

lemma pruneSuperseded_keeps:
  assumes "good w" "flat_history (objs w) (LayoutFor configStore resolved server)"
  shows "good (pruneSuperseded B configStore resolved server cutoff w)
    \<and> keeps_answers cutoff (objs w) (objs (pruneSuperseded B configStore resolved server cutoff w))"
proof -
  let ?s = "\<lparr>Store_Backend = B, Store_Layout = LayoutFor configStore resolved server\<rparr>"
  obtain refs w1 where l: "List_refs ?s w = (Inr refs, w1)" "objs w1 = objs w" "good w1"
    "set refs = refs_of (objs w) (LayoutFor configStore resolved server)" "sorted (map ref_order refs)" "distinct (map Key refs)"
    using List_refs_exact [OF assms(1), of ?s] by auto
  obtain D where d: "D \<subseteq> set (PlanRetention refs cutoff)"
    "objs (delete_keys B (PlanRetention refs cutoff) w1) = without D (objs w)" "good (delete_keys B (PlanRetention refs cutoff) w1)"
    using delete_keys_without [OF l(3), of "PlanRetention refs cutoff"] l(2) by auto
  have "\<exists>x. ParseSnapshotKey k = Inr x" if k: "k \<in> D" for k
    using k d(1) l(4) PlanRetention_keys [of refs cutoff] by (force simp: refs_of_def)
  then have "keeps_answers cutoff (objs w) (without D (objs w))"
    unfolding keeps_answers_def using prune_keeps_chosen [OF assms(2) l(4-6) d(1)] by blast
  then show ?thesis using l(1) d(2,3) by (simp add: pruneSuperseded_def)
qed

text \<open>The histories the sweep visits are flat.\<close>

lemma prune_clusters_keeps:
  assumes "good w"
    and "\<forall>c \<in> set clusters. saves_to configStore c \<longrightarrow>
      flat_history (objs w) (LayoutFor configStore resolved (SaveToServer (NewFromCluster c)))"
  shows "good (prune_clusters B configStore resolved cutoff clusters w)
    \<and> keeps_answers cutoff (objs w) (objs (prune_clusters B configStore resolved cutoff clusters w))"
  using assms
proof (induction clusters arbitrary: w)
  case (Cons c clusters)
  let ?w = "if saves_to configStore c then pruneSuperseded B configStore resolved (SaveToServer (NewFromCluster c)) cutoff w else w"
  have step: "good ?w" "keeps_answers cutoff (objs w) (objs ?w)"
    using pruneSuperseded_keeps [OF Cons.prems(1), of configStore resolved "SaveToServer (NewFromCluster c)" cutoff] Cons.prems
      keeps_answers_refl by auto
  then have "flat_history (objs w) l \<Longrightarrow> flat_history (objs ?w) l" for l
    unfolding keeps_answers_def using flat_history_without by metis
  then have "good (prune_clusters B configStore resolved cutoff clusters ?w)
    \<and> keeps_answers cutoff (objs ?w) (objs (prune_clusters B configStore resolved cutoff clusters ?w))"
    using Cons.IH [OF step(1)] Cons.prems(2) by simp
  then show ?case using keeps_answers_trans [OF step(2)] by simp
qed (simp add: keeps_answers_refl)

end

section \<open>What a sweep deletes\<close>

lemma PlanRetention_old:
  assumes "k \<in> set (PlanRetention refs cutoff)"
  shows "\<exists>r \<in> set refs. Key r = k \<and> Ref_CapturedAt r < cutoff"
proof -
  let ?o = "sort_key Key refs"
  let ?w = "takeWhile (\<lambda>r. Ref_CapturedAt r < cutoff) ?o"
  have "k \<in> Key ` set (take (length ?w - 1) ?o)"
    using assms by (auto simp: PlanRetention_def find_anchor_takeWhile Let_def nat_diff_distrib split: if_splits)
  moreover have "take (length ?w - 1) ?o = take (length ?w - 1) ?w"
    by (metis diff_le_self min.absorb1 take_take takeWhile_eq_take)
  ultimately obtain r where "r \<in> set ?w" "Key r = k" by (auto dest: in_set_takeD)
  then show ?thesis by (metis set_sort set_takeWhileD)
qed

text \<open>The keys a sweep may remove: old snapshots of the histories it visits.\<close>

definition swept_key :: "ConfigStore \<Rightarrow> Resolved \<Rightarrow> Cluster list \<Rightarrow> time \<Rightarrow> string \<Rightarrow> bool" where
  "swept_key configStore resolved clusters cutoff k \<longleftrightarrow>
     (\<exists>c \<in> set clusters. saves_to configStore c
       \<and> HasPrefix k (SnapshotsPrefix (LayoutFor configStore resolved (SaveToServer (NewFromCluster c))))
       \<and> (\<exists>t g. ParseSnapshotKey k = Inr (t, g) \<and> t < cutoff))"

context pruned_store
begin

lemma pruneSuperseded_removes:
  assumes "good w"
  shows "\<exists>D. good (pruneSuperseded B configStore resolved server cutoff w)
    \<and> objs (pruneSuperseded B configStore resolved server cutoff w) = without D (objs w)
    \<and> (\<forall>k \<in> D. HasPrefix k (SnapshotsPrefix (LayoutFor configStore resolved server))
        \<and> (\<exists>t g. ParseSnapshotKey k = Inr (t, g) \<and> t < cutoff))"
proof -
  let ?s = "\<lparr>Store_Backend = B, Store_Layout = LayoutFor configStore resolved server\<rparr>"
  obtain refs w1 where l: "List_refs ?s w = (Inr refs, w1)" "objs w1 = objs w" "good w1"
    "set refs = refs_of (objs w) (LayoutFor configStore resolved server)"
    using List_refs_exact [OF assms, of ?s] by auto
  obtain D where d: "D \<subseteq> set (PlanRetention refs cutoff)"
    "objs (delete_keys B (PlanRetention refs cutoff) w1) = without D (objs w)" "good (delete_keys B (PlanRetention refs cutoff) w1)"
    using delete_keys_without [OF l(3), of "PlanRetention refs cutoff"] l(2) by auto
  have "HasPrefix k (SnapshotsPrefix (LayoutFor configStore resolved server)) \<and> (\<exists>t g. ParseSnapshotKey k = Inr (t, g) \<and> t < cutoff)"
    if "k \<in> D" for k
    using PlanRetention_old [of k refs cutoff] that d(1) l(4) by (fastforce simp: refs_of_def)
  then show ?thesis using l(1) d(2,3) by (auto simp: pruneSuperseded_def)
qed

lemma prune_clusters_removes:
  assumes "good w"
  shows "\<exists>D. good (prune_clusters B configStore resolved cutoff clusters w)
    \<and> objs (prune_clusters B configStore resolved cutoff clusters w) = without D (objs w)
    \<and> (\<forall>k \<in> D. swept_key configStore resolved clusters cutoff k)"
  using assms
proof (induction clusters arbitrary: w)
  case (Cons c clusters)
  let ?w = "if saves_to configStore c then pruneSuperseded B configStore resolved (SaveToServer (NewFromCluster c)) cutoff w else w"
  obtain D where d: "good ?w" "objs ?w = without D (objs w)" "\<forall>k \<in> D. swept_key configStore resolved [c] cutoff k"
  proof (cases "saves_to configStore c")
    case True
    then show thesis
      using that pruneSuperseded_removes [OF Cons.prems, of configStore resolved "SaveToServer (NewFromCluster c)" cutoff]
      by (auto simp: swept_key_def)
  next
    case False
    then show thesis using that [of "{}"] Cons.prems by simp
  qed
  obtain E where e: "good (prune_clusters B configStore resolved cutoff clusters ?w)"
    "objs (prune_clusters B configStore resolved cutoff clusters ?w) = without E (objs ?w)"
    "\<forall>k \<in> E. swept_key configStore resolved clusters cutoff k"
    using Cons.IH [OF d(1)] by blast
  then show ?case using d(2,3) by (intro exI [of _ "E \<union> D"]) (auto simp: without_without swept_key_def)
qed (auto intro: exI [of _ "{}"])

end

section \<open>What a restore sees of a sweep\<close>

lemma keeps_answers_chosen:
  assumes "keeps_answers cutoff before after" "flat_history before l" "cutoff \<le> m"
  shows "chosen after l m r \<longleftrightarrow> chosen before l m r" "chosen after l m r \<Longrightarrow> after (Key r) = before (Key r)"
proof -
  show "chosen after l m r \<longleftrightarrow> chosen before l m r" using assms unfolding keeps_answers_def by blast
  assume "chosen after l m r"
  then have "after (Key r) \<noteq> None" by (auto simp: chosen_def refs_of_def)
  moreover obtain D where "after = without D before" using assms(1) unfolding keeps_answers_def by blast
  ultimately show "after (Key r) = before (Key r)" by (auto simp: without_def split: if_splits)
qed

lemma keeps_answers_pointer: "keeps_answers cutoff before after \<Longrightarrow> after (LatestKey l) = before (LatestKey l)"
  using LatestKey_not_parsed [of l] unfolding keeps_answers_def without_def by (metis Inl_Inr_False)

text \<open>The newest snapshot of all is the one chosen at every late enough moment.\<close>

lemma newest_chosen:
  "r \<in> refs_of objs l \<and> (\<forall>r' \<in> refs_of objs l. ref_order r' \<le> ref_order r)
   \<longleftrightarrow> (\<forall>m \<ge> max cutoff (Ref_CapturedAt r). chosen objs l m r)" (is "?lhs \<longleftrightarrow> ?rhs")
proof
  show ?rhs if ?lhs using that by (simp add: chosen_def)
next
  assume c: ?rhs
  have "ref_order r' \<le> ref_order r" if "r' \<in> refs_of objs l" for r'
    using c [rule_format, of "max (max cutoff (Ref_CapturedAt r)) (Ref_CapturedAt r')"] that by (simp add: chosen_def)
  moreover have "r \<in> refs_of objs l"
    using c [rule_format, of "max cutoff (Ref_CapturedAt r)"] by (simp add: chosen_def)
  ultimately show ?lhs by blast
qed

lemma keeps_answers_latest:
  assumes "keeps_answers cutoff before after" "flat_history before l"
  shows "latest_in sha l after x \<longleftrightarrow> latest_in sha l before x"
proof -
  have same: "(r \<in> refs_of after l \<and> (\<forall>r' \<in> refs_of after l. ref_order r' \<le> ref_order r))
      \<longleftrightarrow> (r \<in> refs_of before l \<and> (\<forall>r' \<in> refs_of before l. ref_order r' \<le> ref_order r))" for r
    unfolding newest_chosen [where cutoff = cutoff] using keeps_answers_chosen(1) [OF assms] by auto
  have kept: "after (Key r) = before (Key r)"
    if "r \<in> refs_of after l \<and> (\<forall>r' \<in> refs_of after l. ref_order r' \<le> ref_order r)" for r
  proof -
    have "chosen after l (max cutoff (Ref_CapturedAt r)) r"
      using that unfolding newest_chosen [where cutoff = cutoff] by simp
    then show ?thesis using keeps_answers_chosen(2) [OF assms, of "max cutoff (Ref_CapturedAt r)" r] by simp
  qed
  show ?thesis
    unfolding latest_in_def keeps_answers_pointer [OF assms(1)] using same kept by (cases "before (LatestKey l)") (auto, metis+)
qed

context history_reader
begin

lemma SelectAtOrBefore_chosen:
  assumes "good w" "Store_Backend (sel_store S) = B"
  shows "fst (SelectAtOrBefore S moment w) = Inr res \<longleftrightarrow>
    (\<exists>r raw. chosen (objs w) (Store_Layout (sel_store S)) moment r \<and> objs w (Key r) = Some raw
      \<and> decodeSnapshot (sel_sha S) raw (Key r) = Inr (Res_Snapshot res) \<and> Res_Key res = Key r \<and> Res_Target res = None)"
    (is "?lhs \<longleftrightarrow> ?rhs")
proof
  show ?rhs if ?lhs
    using SelectAtOrBefore_newest [OF assms that] unfolding chosen_def by blast
next
  assume ?rhs
  then obtain r raw where r: "chosen (objs w) (Store_Layout (sel_store S)) moment r" "objs w (Key r) = Some raw"
    "decodeSnapshot (sel_sha S) raw (Key r) = Inr (Res_Snapshot res)" "Res_Key res = Key r" "Res_Target res = None"
    by blast
  then show ?lhs
    using SelectAtOrBefore_reads [OF assms, of r moment raw "Res_Snapshot res"] unfolding chosen_def by simp
qed

lemma keeps_answers_selection:
  assumes "good w" "good w'" "Store_Backend (sel_store S) = B" "keeps_answers cutoff (objs w) (objs w')"
    and "flat_history (objs w) (Store_Layout (sel_store S))"
  shows "cutoff \<le> moment \<Longrightarrow> fst (SelectAtOrBefore S moment w') = Inr res \<longleftrightarrow> fst (SelectAtOrBefore S moment w) = Inr res"
    and "fst (Latest (sel_sha S) (sel_store S) w') = Inr x \<longleftrightarrow> fst (Latest (sel_sha S) (sel_store S) w) = Inr x"
proof -
  show "fst (SelectAtOrBefore S moment w') = Inr res \<longleftrightarrow> fst (SelectAtOrBefore S moment w) = Inr res" if "cutoff \<le> moment"
    unfolding SelectAtOrBefore_chosen [OF assms(1,3)] SelectAtOrBefore_chosen [OF assms(2,3)]
    using keeps_answers_chosen [OF assms(4,5) that] by metis
  show "fst (Latest (sel_sha S) (sel_store S) w') = Inr x \<longleftrightarrow> fst (Latest (sel_sha S) (sel_store S) w) = Inr x"
    using Latest_refines [OF assms(1,3), of "sel_sha S"] Latest_refines [OF assms(2,3), of "sel_sha S"]
      keeps_answers_latest [OF assms(4,5), of "sel_sha S" x] by (metis fst_conv)
qed

end


section \<open>Deciding flatness\<close>

text \<open>A finite map from keys is flat when each key under the prefix is.\<close>

definition flat_keys :: "Layout \<Rightarrow> string list \<Rightarrow> bool" where
  "flat_keys l ks \<longleftrightarrow> list_all (\<lambda>k. HasPrefix k (SnapshotsPrefix l) \<longrightarrow>
     (case ParseSnapshotKey k of
        Inl _ \<Rightarrow> True
      | Inr (t, g) \<Rightarrow> direct_ref (butlast (SnapshotsPrefix l)) \<lparr>Key = k, Ref_CapturedAt = t, Ref_Generation = g\<rparr>)) ks"

lemma flat_keys_history:
  assumes "flat_keys l (map fst m)"
  shows "flat_history (gmap_get m) l"
  unfolding flat_history_def
proof
  fix r assume r: "r \<in> refs_of (gmap_get m) l"
  then obtain v where "gmap_get m (Key r) = Some v" by (auto simp: refs_of_def)
  then have "Key r \<in> set (map fst m)" using gmap_get_in_set [of m "Key r" v] by force
  then have "HasPrefix (Key r) (SnapshotsPrefix l) \<longrightarrow>
     (case ParseSnapshotKey (Key r) of
        Inl _ \<Rightarrow> True
      | Inr (t, g) \<Rightarrow> direct_ref (butlast (SnapshotsPrefix l)) \<lparr>Key = Key r, Ref_CapturedAt = t, Ref_Generation = g\<rparr>)"
    using assms unfolding flat_keys_def list_all_iff by blast
  then show "direct_ref (butlast (SnapshotsPrefix l)) r" using r by (cases r) (simp add: refs_of_def)
qed

end
