(* ===== verification/Controller_Properties.thy ===== *)
theory Controller_Properties
  imports Retention_Sweep Wired_Samples
begin

text \<open>
  Properties of the controllers (\<open>internal/controller\<close>): what a retention sweep leaves of the histories
  in a store, what a Ready store promises the capture hook, and that reconciling settles.
\<close>

section \<open>A store with three snapshots\<close>

definition sample_old :: "string list" where
  "sample_old = [''db/chronicle/snapshots/20251201T120000Z-g0000000005-0000000a.json'',
     ''db/chronicle/snapshots/20251230T120000Z-g0000000006-0000000b.json'']"

definition sample_newest :: string where
  "sample_newest = ''db/chronicle/snapshots/20260101T120000Z-g0000000007-00000000.json''"

definition sample_memory :: "bytes \<Rightarrow> memory" where
  "sample_memory raw = NewBackend\<lparr>Objects := [(sample_old ! 0, ''x''), (sample_old ! 1, ''x''), (sample_newest, raw)]\<rparr>"

definition set_condition :: "time \<Rightarrow> condition list \<Rightarrow> condition \<Rightarrow> condition list" where
  "set_condition now cs c = upsert cs (c\<lparr>Cond_LastTransitionTime := now\<rparr>)"

definition sample_reconciler :: "store_object \<Rightarrow> memory store_reconciler" where
  "sample_reconciler object = \<lparr>C_Get = (\<lambda>_ w. (Inr object, w)), C_ListClusters = (\<lambda>_ w. (Inr [sample_saved], w)),
     C_PatchStatus = (\<lambda>_ _ w. (Some (Sentinel KubeNotFound), w)), C_SetStatusCondition = set_condition,
     C_now = (\<lambda>_. sample_time + day), C_Resolver = sample_provider\<rparr>"

definition sample_checked :: "memory checkedStore" where
  "sample_checked = \<lparr>checked_resolved = \<lparr>Res_Configuration = zero_configuration\<lparr>DestinationPath := ''s3://backups/'',
         EndpointURL := ''http://objectstore:9000''\<rparr>,
       Res_Destination = \<lparr>Scheme = ''s3'', Bucket = ''backups'', Dest_Path = ''''\<rparr>,
       Res_Source = ''Inline'', Res_Provider = ''s3'', InheritedRetention = ''''\<rparr>,
     checked_backend = memory_backend, checked_retention = day, bucketMissing = False\<rparr>"

definition sample_selector :: "memory selector" where
  "sample_selector = \<lparr>sel_sha = flat_sha, sel_store = sample_archive, sel_ParseTargetTime = (\<lambda>_. Inr 0)\<rparr>"

lemma sample_swept:
  "list_all (\<lambda>k. gmap_get (Objects (enforceRetention (sample_reconciler object) sample_configstore sample_checked (sample_memory raw))) k
     = (if k = sample_old ! 0 then None else gmap_get (Objects (sample_memory raw)) k)) (sample_newest # sample_old)"
  by code_simp

lemma sample_listed:
  "List_refs sample_archive (sample_memory raw) = (Inr (parse_refs (sample_old @ [sample_newest])), sample_memory raw)"
  "map_option Key (newest_at_or_before (parse_refs (sample_old @ [sample_newest])) sample_time None) = Some sample_newest"
  "parse_refs (sample_old @ [sample_newest]) \<noteq> []"
  "Key (last (parse_refs (sample_old @ [sample_newest]))) = sample_newest"
  "gmap_get (Objects (sample_memory raw)) (LatestKey (Store_Layout sample_archive)) = None"
  "gmap_get (Objects (sample_memory raw)) sample_newest = Some raw"
  by code_simp+

lemma sample_flat:
  "flat_keys (Store_Layout sample_archive) (map fst (Objects (sample_memory raw)))"
  "gmap_ok (Objects (sample_memory raw))"
  by code_simp+

lemma sample_selected:
  assumes "decodeSnapshot flat_sha raw sample_newest = Inr snap"
  shows "fst (SelectAtOrBefore sample_selector sample_time (sample_memory raw))
      = Inr \<lparr>Res_Snapshot = snap, Res_Key = sample_newest, Res_Target = None\<rparr>"
    and "fst (Latest flat_sha sample_archive (sample_memory raw)) = Inr (snap, sample_newest)"
proof -
  have read: "Read flat_sha sample_archive sample_newest w = (Inr snap, w\<lparr>Gets := Gets w + 1\<rparr>)"
    if "Objects w = Objects (sample_memory raw)" for w
    using sample_listed(6) [of raw] assms that
    by (simp add: Read_def sample_archive_def memory_backend_def Backend_Get_def Let_def)
  obtain r where r: "newest_at_or_before (parse_refs (sample_old @ [sample_newest])) sample_time None = Some r" "Key r = sample_newest"
    using sample_listed(2) by auto
  show "fst (SelectAtOrBefore sample_selector sample_time (sample_memory raw))
      = Inr \<lparr>Res_Snapshot = snap, Res_Key = sample_newest, Res_Target = None\<rparr>"
    using r read [of "sample_memory raw"]
    by (simp add: SelectAtOrBefore_def sample_selector_def sample_listed(1,3) read_ref_def)
  have get: "B_Get (Store_Backend sample_archive) (LatestKey (Store_Layout sample_archive)) (sample_memory raw)
      = (Inl (Wrapped '''' [LatestKey (Store_Layout sample_archive)] (Sentinel ErrNotFound)),
         (sample_memory raw)\<lparr>Gets := Gets (sample_memory raw) + 1\<rparr>)"
    using sample_listed(5) [of raw] by (simp add: sample_archive_def memory_backend_def Backend_Get_def Let_def)
  have "List_refs sample_archive ((sample_memory raw)\<lparr>Gets := Gets (sample_memory raw) + 1\<rparr>)
      = (Inr (parse_refs (sample_old @ [sample_newest])), (sample_memory raw)\<lparr>Gets := Gets (sample_memory raw) + 1\<rparr>)"
    using sample_listed(1) [of raw]
    by (auto simp: List_refs_def sample_archive_def memory_backend_def Backend_List_def)
  then show "fst (Latest flat_sha sample_archive (sample_memory raw)) = Inr (snap, sample_newest)"
    using get read [of "(sample_memory raw)\<lparr>Gets := Gets (sample_memory raw) + 1\<rparr>"] sample_listed(3,4)
    by (simp add: Latest_def Let_def)
qed

section \<open>Retention\<close>

text \<open>C30. A retention sweep changes no restore: after \<open>enforceRetention\<close>, however many of its deletions
  fail, the latest snapshot of every history of the store is what it was, and so is the snapshot
  selected for any moment inside the window.\<close>

theorem sweep_preserves_restores:
  assumes "pruned_store B objs good" "good w" "checked_backend checked = B"
    and "C_ListClusters r (Store_Namespace configStore) w = (Inr clusters, w1)" "objs w1 = objs w" "good w1"
    and "\<forall>c \<in> set clusters. saves_to configStore c \<longrightarrow>
      flat_history (objs w) (LayoutFor configStore (checked_resolved checked) (SaveToServer (NewFromCluster c)))"
    and "Store_Backend (sel_store S) = B" "flat_history (objs w) (Store_Layout (sel_store S))"
    and "C_now r w1 + int64 (- checked_retention checked) \<le> moment"
  shows "(fst (SelectAtOrBefore S moment (enforceRetention r configStore checked w)) = Inr res
      \<longleftrightarrow> fst (SelectAtOrBefore S moment w) = Inr res)
    \<and> (fst (Latest (sel_sha S) (sel_store S) (enforceRetention r configStore checked w)) = Inr x
      \<longleftrightarrow> fst (Latest (sel_sha S) (sel_store S) w) = Inr x)"
proof -
  let ?cutoff = "C_now r w1 + int64 (- checked_retention checked)"
  have reader: "history_reader B objs good" using assms(1) by (simp add: pruned_store_def)
  have "good (enforceRetention r configStore checked w)
    \<and> keeps_answers ?cutoff (objs w) (objs (enforceRetention r configStore checked w))"
    using pruned_store.prune_clusters_keeps [OF assms(1,6), of clusters configStore "checked_resolved checked" ?cutoff]
      assms(2-5,7) keeps_answers_refl by (auto simp: enforceRetention_def)
  then show ?thesis
    using history_reader.keeps_answers_selection [OF reader assms(2) _ assms(8) _ assms(9)] assms(10) by blast
qed

theorem sweep_preserves_restores_witness:
  "\<exists>raw object. let w = sample_memory raw;
       w' = enforceRetention (sample_reconciler object) sample_configstore sample_checked w in
     gmap_get (Objects w) (sample_old ! 0) \<noteq> None \<and> gmap_get (Objects w') (sample_old ! 0) = None
     \<and> fst (SelectAtOrBefore sample_selector sample_time w')
       = Inr \<lparr>Res_Snapshot = sample_captured, Res_Key = sample_newest, Res_Target = None\<rparr>
     \<and> fst (Latest flat_sha sample_archive w') = Inr (sample_captured, sample_newest)"
proof -
  fix object
  obtain raw where raw: "\<And>key. decodeSnapshot flat_sha raw key = Inr sample_captured"
    using decodeSnapshot_encoded [OF sample_captured_writable] by blast
  let ?w = "sample_memory raw"
  let ?w' = "enforceRetention (sample_reconciler object) sample_configstore sample_checked ?w"
  have flat: "flat_history (gmap_get (Objects ?w)) (Store_Layout sample_archive)"
    by (rule flat_keys_history [OF sample_flat(1)])
  have layout: "LayoutFor sample_configstore (checked_resolved sample_checked) (SaveToServer (NewFromCluster sample_saved))
      = Store_Layout sample_archive"
    by code_simp
  have world: "memory_ok ?w" "checked_backend sample_checked = memory_backend" "Store_Backend (sel_store sample_selector) = memory_backend"
    "C_ListClusters (sample_reconciler object) (Store_Namespace sample_configstore) ?w = (Inr [sample_saved], ?w)"
    "flat_history (gmap_get (Objects ?w)) (Store_Layout (sel_store sample_selector))"
    using sample_flat(2) [of raw] flat
    by (simp_all add: memory_ok_def sample_checked_def sample_selector_def sample_archive_def sample_reconciler_def)
  have visited: "\<forall>c \<in> set [sample_saved]. saves_to sample_configstore c \<longrightarrow> flat_history (gmap_get (Objects ?w))
      (LayoutFor sample_configstore (checked_resolved sample_checked) (SaveToServer (NewFromCluster c)))"
    using layout flat by simp
  have window: "C_now (sample_reconciler object) ?w + int64 (- checked_retention sample_checked) \<le> sample_time"
    by (simp add: sample_reconciler_def sample_checked_def day_def int64_def)
  note same = sweep_preserves_restores [OF mem.pruned_store_axioms world(1,2,4) refl world(1) visited world(3,5) window]
  have "gmap_get (Objects ?w) (sample_old ! 0) \<noteq> None" by code_simp
  moreover have "gmap_get (Objects ?w') (sample_old ! 0) = None"
    using sample_swept [of object raw] by (simp add: list_all_iff sample_old_def)
  ultimately show ?thesis
    using same sample_selected [OF raw]
    by (intro exI [of _ raw] exI [of _ object]) (simp add: sample_selector_def Let_def)
qed

text \<open>C31. A retention sweep deletes nothing else: every object that is gone was a snapshot, older than
  the cutoff, of a history that a Cluster of the store's namespace archives into it.\<close>

theorem sweep_deletes_only_old_snapshots:
  assumes "pruned_store B objs good" "good w" "checked_backend checked = B"
    and "C_ListClusters r (Store_Namespace configStore) w = (Inr clusters, w1)" "objs w1 = objs w" "good w1"
    and "objs (enforceRetention r configStore checked w) k \<noteq> objs w k"
  shows "objs (enforceRetention r configStore checked w) k = None
    \<and> swept_key configStore (checked_resolved checked) clusters (C_now r w1 + int64 (- checked_retention checked)) k"
proof -
  let ?cutoff = "C_now r w1 + int64 (- checked_retention checked)"
  obtain D where "objs (prune_clusters B configStore (checked_resolved checked) ?cutoff clusters w1) = without D (objs w)"
    "\<forall>k \<in> D. swept_key configStore (checked_resolved checked) clusters ?cutoff k"
    using pruned_store.prune_clusters_removes [OF assms(1,6)] assms(5) by metis
  moreover have "enforceRetention r configStore checked w
      = prune_clusters B configStore (checked_resolved checked) ?cutoff clusters w1"
    using assms(3,4,7) by (auto simp: enforceRetention_def split: if_splits)
  ultimately show ?thesis using assms(7) by (auto simp: without_def split: if_splits)
qed




theorem sweep_deletes_only_old_snapshots_witness:
  "swept_key sample_configstore (checked_resolved sample_checked) [sample_saved] sample_time (sample_old ! 0)"
proof -
  let ?w = "sample_memory ''x''"
  let ?w' = "enforceRetention (sample_reconciler \<lparr>Store_Spec = sample_configstore, Store_Status =
      \<lparr>Status_Resolved = None, Status_Conditions = []\<rparr>\<rparr>) sample_configstore sample_checked ?w"
  have "gmap_get (Objects ?w) (sample_old ! 0) \<noteq> None" by code_simp
  moreover have "gmap_get (Objects ?w') (sample_old ! 0) = None"
    using sample_swept [of "\<lparr>Store_Spec = sample_configstore, Store_Status =
      \<lparr>Status_Resolved = None, Status_Conditions = []\<rparr>\<rparr>" "''x''"] by (simp add: list_all_iff sample_old_def)
  ultimately have gone: "gmap_get (Objects ?w') (sample_old ! 0) \<noteq> gmap_get (Objects ?w) (sample_old ! 0)" by metis
  have cutoff: "C_now (sample_reconciler object) ?w + int64 (- checked_retention sample_checked) = sample_time" for object
    by (simp add: sample_reconciler_def sample_checked_def day_def int64_def)
  have ok: "memory_ok ?w" using sample_flat(2) by (simp add: memory_ok_def)
  have "checked_backend sample_checked = memory_backend" by (simp add: sample_checked_def)
  moreover have "C_ListClusters (sample_reconciler object) (Store_Namespace sample_configstore) ?w = (Inr [sample_saved], ?w)" for object
    by (simp add: sample_reconciler_def)
  ultimately show ?thesis
    using sweep_deletes_only_old_snapshots [OF mem.pruned_store_axioms ok _ _ refl ok gone] unfolding cutoff by blast
qed

section \<open>Ready\<close>

text \<open>C32. Ready means that capture works up to the store itself: when the checks of a ConfigStore pass,
  opening a history in it succeeds from the same state, with the backend that was probed, and every
  Cluster that serialises can be captured under its groups.\<close>

theorem ready_store_captures:
  assumes "check provider configStore w = (Inr checked, w')"
    and "Cluster_ToMap cluster = Inr source" "obj_ok source" "numbers_ok (JObject source)"
  shows "(\<exists>w1. Open provider configStore server w = (Inr \<lparr>Store_Backend = checked_backend checked,
        Store_Layout = LayoutFor configStore (checked_resolved checked) server\<rparr>, w1))
    \<and> (\<exists>snap. Extract C sha now (Some cluster)
        \<lparr>Opt_Groups = GetCaptureGroups configStore, Opt_PluginVersion = version, Opt_Now = 0\<rparr> = Inr snap)"
proof -
  obtain w1 w2 where c: "P_Resolve provider configStore w = (Inr (checked_resolved checked), w1)"
    "validateCaptureGroups (GetCaptureGroups configStore) = None"
    "P_Backend provider (Store_Namespace configStore) (checked_resolved checked) w1 = (Inr (checked_backend checked), w2)"
    by (rule check_Inr [OF assms(1)])
  have "set (GetCaptureGroups configStore) \<subseteq> set GroupNames"
    using c(2) LookupGroup_known by (auto simp: validateCaptureGroups_None)
  then have "set (ExtractOptions_groups \<lparr>Opt_Groups = GetCaptureGroups configStore, Opt_PluginVersion = version, Opt_Now = 0\<rparr>)
      \<subseteq> set GroupNames"
    by (auto simp: ExtractOptions_groups_def EffectiveGroupNames_def DefaultGroupNames_def GroupNames_def)
  then show ?thesis using Extract_total [OF assms(2-4)] c(1,3) by (simp add: Open_def)
qed

lemma sample_check: "check sample_provider sample_configstore NewBackend = (Inr (sample_checked\<lparr>checked_retention := 0\<rparr>), NewBackend)"
proof -
  have "P_Resolve sample_provider sample_configstore NewBackend = (Inr (checked_resolved sample_checked), NewBackend)"
    "P_Backend sample_provider (Store_Namespace sample_configstore) r NewBackend = (Inr memory_backend, NewBackend)"
    "B_Check memory_backend p NewBackend = (None, NewBackend)" for r p
    by (simp_all add: sample_provider_def test_provider_def test_Resolve_def test_Backend_def sample_checked_def
        memory_backend_def Backend_Check_def NewBackend_def)
  moreover have "validateCaptureGroups (GetCaptureGroups sample_configstore) = None"
    "effectiveRetention sample_configstore r = Inr 0" for r
    by code_simp+
  ultimately show ?thesis by (simp add: check_def Let_def sample_checked_def)
qed

theorem ready_store_captures_witness:
  "\<exists>snap. Extract sample_cnpg flat_sha sample_time (Some sample_saved)
     \<lparr>Opt_Groups = GetCaptureGroups sample_configstore, Opt_PluginVersion = ''1.0.0'', Opt_Now = 0\<rparr> = Inr snap"
proof -
  have "Cluster_ToMap sample_saved = Inr sample_tree" by (simp add: sample_saved_def sample_cluster_def)
  moreover have "numbers_ok (JObject sample_tree)" by code_simp
  ultimately show ?thesis using ready_store_captures [OF sample_check _ sample_tree_ok] by blast
qed

text \<open>C33. Reconciling settles: with the status a verdict led to in place and the same verdict again, a
  reconcile writes no status, so it does not wake itself. All it does is the retention sweep.\<close>

theorem reconcile_settles:
  assumes "sets_condition (C_SetStatusCondition r)" "C_Get r req w = (Inr object, w1)"
    and "check (C_Resolver r) (Store_Spec object) w1 = (verdict, w2)"
    and "Store_Status object = status_after (C_SetStatusCondition r) t0 verdict object0" "Store_Spec object0 = Store_Spec object"
  shows "Reconcile_store r req w =
    (case verdict of
       Inl _ \<Rightarrow> (Inr (RequeueAfter notReadyRetryInterval), w2)
     | Inr checked \<Rightarrow> (Inr (RequeueAfter resyncInterval), enforceRetention r (Store_Spec object) checked w2))"
  using status_after_settles [OF assms(1,4,5)] assms(2,3)
  by (simp add: Reconcile_store_def patchStatus_def Let_def split: sum.splits)

definition sample_settled :: store_object where
  "sample_settled = \<lparr>Store_Spec = sample_configstore, Store_Status = status_after set_condition 5
     (Inr (sample_checked\<lparr>checked_retention := 0\<rparr>)) \<lparr>Store_Spec = sample_configstore, Store_Status =
       \<lparr>Status_Resolved = None, Status_Conditions = []\<rparr>\<rparr>\<rparr>"

theorem reconcile_settles_witness:
  "Reconcile_store (sample_reconciler sample_settled) (''prod'', ''archive'') NewBackend
    = (Inr (RequeueAfter resyncInterval), NewBackend)"
proof -
  have "map untimed (upsert cs c) = upsert (map untimed cs) (untimed c)" for cs c
    by (induction cs) (auto simp: untimed_def)
  then have laws: "sets_condition set_condition"
    by (simp add: sets_condition_def set_condition_def) (simp add: untimed_def)
  show ?thesis
    using reconcile_settles [where r = "sample_reconciler sample_settled" and w = NewBackend and ?w1.0 = NewBackend and
        ?w2.0 = NewBackend and object = sample_settled and ?t0.0 = 5 and req = "(''prod'', ''archive'')" and
        verdict = "Inr (sample_checked\<lparr>checked_retention := 0\<rparr>)" and ?object0.0 = "\<lparr>Store_Spec = sample_configstore, Store_Status =
          \<lparr>Status_Resolved = None, Status_Conditions = []\<rparr>\<rparr>"] laws sample_check
    by (simp add: sample_reconciler_def sample_settled_def enforceRetention_def)
qed


section \<open>A bucket that does not exist\<close>

lemma capture_stuck:
  assumes "bucket_missing (S3_client b) (S3_bucket b) w2" "Store_Backend store = s3_backend b"
    and "IsSaveEnabled (NewFromCluster cluster)" "H_ConfigStore H (SaveToKey (NewFromCluster cluster)) w = (Inr cs, w1)"
    and "liveFingerprint H cluster (GetCaptureGroups cs) = Inr fp" "\<not> already_captured cluster fp c"
    and "Open (H_Resolver H) cs (SaveToServer (NewFromCluster cluster)) w1 = (Inr store, w2)"
  shows "\<exists>e v. Post_cluster H cluster c w = (Inl e, c, v) \<and> (v = w1 \<or> v = w2)"
proof (cases "Extract (H_cnpg H) (H_sha H) (H_now H w1) (Some cluster)
      \<lparr>Opt_Groups = GetCaptureGroups cs, Opt_PluginVersion = H_Version H, Opt_Now = 0\<rparr>")
  case (Inr snap)
  then show ?thesis
    using capture_missing_bucket [OF assms(1,2), of H cluster fp snap c] by (auto simp: Post_cluster_def assms(3-7))
qed (simp add: Post_cluster_def assms(3-7))

text \<open>C34. A store whose bucket is missing is Ready, with a message that the bucket is created on first
  write, and never captures: while the bucket does not exist the Post hook fails before it writes
  anything, because looking for the latest snapshot is not answered with not-found. The write, which
  would create the bucket, is never reached.\<close>

theorem ready_store_never_captures:
  assumes "bucket_missing (S3_client b) (S3_bucket b) w2" "P_Resolve (H_Resolver H) cs w1 = (Inr resolved, w')"
    and "P_Backend (H_Resolver H) (Store_Namespace cs) resolved w' = (Inr (s3_backend b), w2)"
    and "validateCaptureGroups (GetCaptureGroups cs) = None" "effectiveRetention cs resolved = Inr retention"
    and "IsSaveEnabled (NewFromCluster cluster)" "H_ConfigStore H (SaveToKey (NewFromCluster cluster)) w = (Inr cs, w1)"
    and "liveFingerprint H cluster (GetCaptureGroups cs) = Inr fp" "\<not> already_captured cluster fp c"
  shows "(\<exists>checked. check (H_Resolver H) cs w1 = (Inr checked, w2) \<and> bucketMissing checked)
    \<and> (\<exists>e v. Post_cluster H cluster c w = (Inl e, c, v) \<and> (v = w1 \<or> v = w2))"
proof
  obtain e where "s3_Check b (Dest_Path (Res_Destination resolved)) w2 = (Some e, w2)" "errors_Is e ErrBucketNotFound"
    using s3_Check_missing_bucket [OF assms(1)] by blast
  then show "\<exists>checked. check (H_Resolver H) cs w1 = (Inr checked, w2) \<and> bucketMissing checked"
    using assms(2-5) by (simp add: check_def Let_def s3_backend_def)
  have "Open (H_Resolver H) cs (SaveToServer (NewFromCluster cluster)) w1
      = (Inr \<lparr>Store_Backend = s3_backend b, Store_Layout = LayoutFor cs resolved (SaveToServer (NewFromCluster cluster))\<rparr>, w2)"
    using assms(2,3) by (simp add: Open_def)
  then show "\<exists>e v. Post_cluster H cluster c w = (Inl e, c, v) \<and> (v = w1 \<or> v = w2)"
    by (intro capture_stuck [OF assms(1) _ assms(6-9)]) simp_all
qed

definition void_error :: s3_error where
  "void_error = \<lparr>s3_type = None, s3_api = Some (''NoSuchBucket'', ''The specified bucket does not exist''),
     s3_status = Some 404, s3_text = ''api error NoSuchBucket''\<rparr>"

definition void_backend :: "unit s3Backend" where
  "void_backend = \<lparr>S3_client = \<lparr>GetObject = (\<lambda>_ _ w. (Inl void_error, w)), PutObject = (\<lambda>_ _ _ w. (Some void_error, w)),
     CreateBucket = (\<lambda>_ w. (None, w)), ListObjectsV2 = (\<lambda>_ _ _ _ w. (Inl void_error, w)),
     DeleteObject = (\<lambda>_ _ w. (Some void_error, w))\<rparr>, S3_bucket = ''backups'', S3_page_limit = (\<lambda>_. 1)\<rparr>"

definition void_hooks :: "unit hooks" where
  "void_hooks = \<lparr>H_GetKind = (\<lambda>_. Inr ''Cluster''), H_DecodeCluster = (\<lambda>_. Inr sample_saved),
     H_ConfigStore = (\<lambda>_ w. (Inr sample_configstore, w)),
     H_Resolver = test_provider \<lparr>Test_Store = s3_backend void_backend, ResolveErr = None, BackendErr = None\<rparr>,
     H_now = (\<lambda>_. sample_time), H_sha = flat_sha, H_cnpg = sample_cnpg, H_Version = ''1.0.0''\<rparr>"

theorem ready_store_never_captures_witness:
  "(\<exists>checked. check (H_Resolver void_hooks) sample_configstore () = (Inr checked, ()) \<and> bucketMissing checked)
    \<and> (\<exists>e. Post_cluster void_hooks sample_saved (Some []) () = (Inl e, Some [], ()))"
proof -
  have m: "bucket_missing (S3_client void_backend) (S3_bucket void_backend) ()"
    by (auto simp: bucket_missing_def no_such_bucket_def void_backend_def void_error_def)
  obtain fp where fp: "liveFingerprint void_hooks sample_saved (GetCaptureGroups sample_configstore) = Inr fp"
    using liveFingerprint_total by blast
  have setting: "P_Resolve (H_Resolver void_hooks) sample_configstore () = (Inr (checked_resolved sample_checked), ())"
    "P_Backend (H_Resolver void_hooks) (Store_Namespace sample_configstore) (checked_resolved sample_checked) () = (Inr (s3_backend void_backend), ())"
    "H_ConfigStore void_hooks (SaveToKey (NewFromCluster sample_saved)) () = (Inr sample_configstore, ())"
    by (simp_all add: void_hooks_def test_provider_def test_Resolve_def test_Backend_def sample_checked_def)
  have "validateCaptureGroups (GetCaptureGroups sample_configstore) = None"
    "effectiveRetention sample_configstore (checked_resolved sample_checked) = Inr 0"
    by code_simp+
  from ready_store_never_captures [OF m setting(1,2) this sample_saved_configuration(1) setting(3) fp sample_fresh]
  show ?thesis by auto
qed

end
