(* ===== verification/Backend_Properties.thy ===== *)
theory Backend_Properties
  imports Resolver
begin

text \<open>
  Properties of what a history is opened through: the S3 backend implements the backend interface, and
  the ObjectStore reader's cache is bounded in time. The witness of the first is a service over an
  in-memory map of objects that answers a listing two keys at a time, with the last key as the
  continuation token.
\<close>

section \<open>A paged service\<close>

definition after_token :: "string option \<Rightarrow> string \<Rightarrow> bool" where
  "after_token token k = (case token of None \<Rightarrow> True | Some t \<Rightarrow> t < k)"

definition rest_of :: "memory \<Rightarrow> string \<Rightarrow> string option \<Rightarrow> string list" where
  "rest_of m p token = filter (\<lambda>k. HasPrefix k p \<and> after_token token k) (map fst (Objects m))"

definition page_of :: "string list \<Rightarrow> s3_page" where
  "page_of rest = \<lparr>s3_contents = map Some (take 2 rest),
     s3_next = (if length rest \<le> 2 then None else Some (last (take 2 rest)))\<rparr>"

definition no_such_key :: s3_error where
  "no_such_key = \<lparr>s3_type = Some NoSuchKey, s3_api = None, s3_status = Some 404, s3_text = ''NoSuchKey''\<rparr>"

definition paged_client :: "memory s3_client" where
  "paged_client =
     \<lparr>GetObject = (\<lambda>_ k m. (case gmap_get (Objects m) k of
        None \<Rightarrow> Inl no_such_key | Some d \<Rightarrow> Inr \<lparr>s3_body = d, s3_broken = None\<rparr>, m)),
      PutObject = (\<lambda>_ k d m. (None, m\<lparr>Objects := gmap_set (Objects m) k d\<rparr>)),
      CreateBucket = (\<lambda>_ m. (None, m)),
      ListObjectsV2 = (\<lambda>_ p token limit m. (Inr (page_of (rest_of m p token)), m)),
      DeleteObject = (\<lambda>_ k m. (None, m\<lparr>Objects := gmap_delete (Objects m) k\<rparr>))\<rparr>"

definition paged_backend :: "memory s3Backend" where
  "paged_backend = \<lparr>S3_client = paged_client, S3_bucket = ''backups'', S3_page_limit = (\<lambda>m. Suc (length (Objects m)))\<rparr>"

lemma page_keys_page_of [simp]: "page_keys (page_of rest) = take 2 rest"
  by (simp add: page_keys_def page_of_def map_filter_def comp_def)

text \<open>What follows a full page is what comes after its last key.\<close>

lemma rest_of_next:
  assumes "memory_ok m" "rest_of m p token = a # b # r"
  shows "rest_of m p (Some b) = r"
proof -
  have sorted: "sorted_wrt (<) (rest_of m p token)"
    using assms(1) by (auto simp: memory_ok_def gmap_ok_def rest_of_def intro: sorted_wrt_filter)
  have "b \<in> set (rest_of m p token)" using assms(2) by simp
  then have "after_token token b" by (simp add: rest_of_def)
  then have "after_token (Some b) k \<longleftrightarrow> after_token token k \<and> b < k" for k
    by (auto simp: after_token_def split: option.splits dest: less_trans)
  then have "rest_of m p (Some b) = filter (\<lambda>k. b < k) (rest_of m p token)"
    by (simp add: rest_of_def conj_assoc)
  also have "\<dots> = r"
    using sorted unfolding assms(2) by (auto simp: filter_id_conv)
  finally show ?thesis .
qed

lemma full_page_token:
  assumes "memory_ok m" "rest_of m p token = a # b # c # r"
  shows "more_pages (page_of (rest_of m p token))" "s3_next (page_of (rest_of m p token)) = Some b"
proof -
  have "sorted_wrt (<) (rest_of m p token)"
    using assms(1) by (auto simp: memory_ok_def gmap_ok_def rest_of_def intro: sorted_wrt_filter)
  then have "a < b" unfolding assms(2) by simp
  then have "b \<noteq> ''''" by auto
  then show "more_pages (page_of (rest_of m p token))" "s3_next (page_of (rest_of m p token)) = Some b"
    by (simp_all add: assms(2) page_of_def more_pages_def)
qed

lemma paged_listing:
  assumes "memory_ok m"
  shows "\<exists>n. listing paged_client bkt p token m n (rest_of m p token) m \<and> n \<le> Suc (length (rest_of m p token))"
proof (induction "length (rest_of m p token)" arbitrary: token rule: less_induct)
  case less
  let ?page = "page_of (rest_of m p token)"
  have page: "ListObjectsV2 paged_client bkt p token None m = (Inr ?page, m)" by (simp add: paged_client_def)
  show ?case
  proof (cases "length (rest_of m p token) \<le> 2")
    case True
    then have "\<not> more_pages ?page" by (simp add: page_of_def more_pages_def)
    then show ?thesis using listing.last [OF page] True by (intro exI [of _ "Suc 0"]) simp
  next
    case False
    then obtain a b c r where r: "rest_of m p token = a # b # c # r"
      by (metis One_nat_def Suc_1 le0 length_Cons list.exhaust list.size(3) not_less_eq_eq)
    have next_page: "rest_of m p (Some b) = c # r" using rest_of_next [OF assms r] .
    obtain n where n: "listing paged_client bkt p (Some b) m n (c # r) m" "n \<le> Suc (length (c # r))"
      using less [of "Some b"] by (auto simp: next_page r)
    have "listing paged_client bkt p token m (Suc n) (page_keys ?page @ (c # r)) m"
      using listing.more [OF page full_page_token(1) [OF assms r]] n(1) full_page_token(2) [OF assms r] by simp
    then show ?thesis using n(2) by (intro exI [of _ "Suc n"]) (simp add: r)
  qed
qed

lemma paged_service:
  "s3_service paged_client ''backups'' (S3_page_limit paged_backend) (\<lambda>m. gmap_get (Objects m)) memory_ok"
proof -
  have "\<exists>n keys w'. listing paged_client ''backups'' p None m n keys w' \<and> n \<le> S3_page_limit paged_backend m
      \<and> distinct keys \<and> set keys = {k. gmap_get (Objects m) k \<noteq> None \<and> HasPrefix k p}
      \<and> gmap_get (Objects w') = gmap_get (Objects m) \<and> memory_ok w'"
    if ok: "memory_ok m" for m p
  proof -
    obtain n where n: "listing paged_client ''backups'' p None m n (rest_of m p None) m" "n \<le> Suc (length (rest_of m p None))"
      using paged_listing [OF ok] by blast
    have "distinct (map fst (Objects m))" using ok by (simp add: memory_ok_def gmap_ok_def strict_sorted_iff)
    moreover have "set (map fst (Objects m)) = {k. gmap_get (Objects m) k \<noteq> None}"
      by (force simp: gmap_get_def map_of_eq_None_iff)
    moreover have "length (rest_of m p None) \<le> length (Objects m)"
      unfolding rest_of_def by (rule order_trans [OF length_filter_le]) simp
    then have "n \<le> Suc (length (Objects m))" using n(2) by linarith
    ultimately show ?thesis
      using n(1) ok by (intro exI [of _ n] exI [of _ "rest_of m p None"] exI [of _ m])
        (auto simp: rest_of_def after_token_def paged_backend_def)
  qed
  then show ?thesis
    unfolding s3_service_def s3_reads_def
    by (auto simp: paged_client_def isNotFound_def no_such_key_def memory_ok_def fun_eq_iff go_map
        gmap_ok_set gmap_ok_delete)
qed

section \<open>Properties\<close>

text \<open>C35. The S3 backend refines the abstract object store: over a service that does what S3 documents
  (whole objects, missing ones reported as such, listings split into pages that fit the deadline), reads,
  writes, deletions and listings of objects up to the read bound are those of a map from keys to bytes,
  with the listing complete and in lexical order however it was paged.\<close>

theorem s3_refines_object_store:
  assumes "s3_service (S3_client b) (S3_bucket b) (S3_page_limit b) objs good"
  shows "object_store (s3_backend b) objs (\<lambda>w. good w \<and> within_bound objs w) (\<lambda>d. length d \<le> maxObjectSize)"
  by (rule s3_keeps_contract [OF assms])

theorem s3_refines_object_store_witness:
  "object_store (s3_backend paged_backend) (\<lambda>m. gmap_get (Objects m))
     (\<lambda>m. memory_ok m \<and> within_bound (\<lambda>m. gmap_get (Objects m)) m) (\<lambda>d. length d \<le> maxObjectSize)"
proof -
  have "S3_client paged_backend = paged_client" "S3_bucket paged_backend = ''backups''"
    by (simp_all add: paged_backend_def)
  then show ?thesis using s3_refines_object_store [of paged_backend] paged_service by metis
qed


text \<open>C36. The listing loop ends, deadline or not: over a service each of whose announced pages leaves fewer
  keys to list, whichever requests fail, the loop returns, no more pages than the keys left and one are
  ever read, and what it returns without an error is a complete listing.\<close>

theorem listing_loop_ends:
  assumes "advances (S3_client b) (S3_bucket b) p remaining"
  shows "\<exists>res. list_loop b p None [] w = Some res
    \<and> (\<forall>n > length (remaining w None). list_pages b p n None [] w = res)
    \<and> (\<forall>keys w'. res = (Inr keys, w') \<longrightarrow> (\<exists>n. listing (S3_client b) (S3_bucket b) p None w n keys w'))"
proof -
  obtain res where res: "list_loop b p None [] w = Some res"
    "\<And>n. length (remaining w None) < n \<Longrightarrow> list_pages b p n None [] w = res"
    using list_loop_ends [OF assms] by blast
  have "\<exists>n. listing (S3_client b) (S3_bucket b) p None w n keys w'" if "res = (Inr keys, w')" for keys w'
    using list_pages_Inr [OF res(2) [OF lessI, unfolded that]] by simp
  with res show ?thesis by blast
qed

text \<open>The paged service advances by two keys a page.\<close>

lemma paged_advances: "advances paged_client bkt p (\<lambda>m. rest_of m p)"
proof -
  have "length (rest_of m p (s3_next (page_of (rest_of m p token)))) < length (rest_of m p token)"
    if m: "more_pages (page_of (rest_of m p token))" for m token
  proof -
    let ?l = "rest_of m p token"
    let ?k = "last (take 2 ?l)"
    have long: "2 < length ?l" and k: "s3_next (page_of ?l) = Some ?k"
      using m by (auto simp: page_of_def more_pages_def split: if_splits)
    have "take 2 ?l \<noteq> []" using long by auto
    then have "?k \<in> set ?l" using last_in_set in_set_takeD by metis
    then have "after_token token ?k" by (simp add: rest_of_def)
    then have "after_token (Some ?k) k \<longleftrightarrow> after_token token k \<and> ?k < k" for k
      by (auto simp: after_token_def split: option.splits dest: less_trans)
    then have "rest_of m p (Some ?k) = filter (\<lambda>k. ?k < k) ?l"
      by (simp add: rest_of_def conj_assoc)
    then show ?thesis using length_filter_less [OF \<open>?k \<in> set ?l\<close>, of "\<lambda>k. ?k < k"] k by simp
  qed
  then show ?thesis by (auto simp: advances_def paged_client_def)
qed

definition five_objects :: memory where
  "five_objects = NewBackend\<lparr>Objects := map (\<lambda>n. (n, ''x'')) [''a/1'', ''a/2'', ''a/3'', ''a/4'', ''a/5'', ''b/6'']\<rparr>"

theorem listing_loop_ends_witness:
  "list_loop paged_backend ''a/'' None [] five_objects
     = Some (Inr [''a/1'', ''a/2'', ''a/3'', ''a/4'', ''a/5''], five_objects)
   \<and> (\<exists>n. listing paged_client ''backups'' ''a/'' None five_objects n [''a/1'', ''a/2'', ''a/3'', ''a/4'', ''a/5''] five_objects)"
proof -
  have b: "S3_client paged_backend = paged_client" "S3_bucket paged_backend = ''backups''"
    by (simp_all add: paged_backend_def)
  have pages: "list_pages paged_backend ''a/'' 6 None [] five_objects
      = (Inr [''a/1'', ''a/2'', ''a/3'', ''a/4'', ''a/5''], five_objects)"
    and left: "length (rest_of five_objects ''a/'' None) < 6"
    by code_simp+
  obtain res where res: "list_loop paged_backend ''a/'' None [] five_objects = Some res"
    "\<forall>n > length (rest_of five_objects ''a/'' None). list_pages paged_backend ''a/'' n None [] five_objects = res"
    "\<forall>keys w'. res = (Inr keys, w') \<longrightarrow> (\<exists>n. listing paged_client ''backups'' ''a/'' None five_objects n keys w')"
    using listing_loop_ends [of paged_backend, unfolded b, OF paged_advances] by blast
  then show ?thesis using pages left by auto
qed

section \<open>The ObjectStore reader\<close>

text \<open>C37. Whatever happens between calls (time passing, ObjectStores edited, reads failing), the
  configuration a call answers with is what the program makes of an object that the API server
  answered a read of that key with, no longer ago than the ttl, which is ten seconds where none is
  given. The log of those answers is kept on the API server's side: only a read that returns an object
  extends it. In particular an expired entry is never served, not even when the read fails.\<close>

theorem configuration_not_stale:
  assumes "reader_laws r" "r = NewObjectStoreReader r0 ttl" "reader_run r w log" "GetConfiguration r key w = (Inr d, w')"
  shows "\<exists>log' t object. GetConfiguration (logged r) key (w, log) = (Inr d, w', log')
    \<and> (key, t, object) \<in> log' \<and> derive_store r key object = Inr d
    \<and> reader_now r w' \<le> t + (if ttl \<le> 0 then 10 * nanos_per_second else ttl)"
proof -
  have ttl: "reader_ttl r = (if ttl \<le> 0 then 10 * nanos_per_second else ttl)"
    by (simp add: assms(2) NewObjectStoreReader_def DefaultObjectStoreTTL_def)
  then have pos: "0 \<le> reader_ttl r" by (simp add: nanos_per_second_def)
  obtain log' where l: "GetConfiguration (logged r) key (w, log) = (Inr d, w', log')"
    by (rule GetConfiguration_logs [OF assms(4)])
  show ?thesis using GetConfiguration_fresh [OF assms(3,1) pos l] l unfolding ttl by blast
qed

text \<open>A reader over a clock and its cache, for one ObjectStore.\<close>

definition sample_objectstore :: obj where
  "sample_objectstore = [(''spec'', JObject [(''configuration'', JObject [(''destinationPath'', JString ''s3://backups/'')])])]"

definition sample_reader :: "(time \<times> (named, cacheEntry) gmap) ObjectStoreReader" where
  "sample_reader =
     \<lparr>reader_Get = (\<lambda>key w. (Inr sample_objectstore, w)),
      NestedMap = (\<lambda>ob path. case GetSegments ob path of Some (JObject m) \<Rightarrow> Inr (Some m) | _ \<Rightarrow> Inr None),
      NestedString = (\<lambda>ob path. case GetSegments ob path of Some (JString s) \<Rightarrow> Inr (Some s) | _ \<Rightarrow> Inr None),
      reader_ttl = 0, reader_now = fst, reader_cache = snd, reader_set_cache = (\<lambda>c w. (fst w, c))\<rparr>"

definition sample_derived :: DerivedObjectStore where
  "sample_derived = \<lparr>Derived_Configuration = zero_configuration\<lparr>DestinationPath := ''s3://backups/''\<rparr>, RetentionPolicy = ''''\<rparr>"

text \<open>Five seconds after a read the cached configuration is answered without another one.\<close>

theorem configuration_not_stale_witness:
  "\<exists>w log t object. GetConfiguration (NewObjectStoreReader sample_reader 0) (''prod'', ''store'') w = (Inr sample_derived, w)
     \<and> fst w = 5 * nanos_per_second
     \<and> GetConfiguration (logged (NewObjectStoreReader sample_reader 0)) (''prod'', ''store'') (w, log) = (Inr sample_derived, w, log)
     \<and> ((''prod'', ''store''), t, object) \<in> log \<and> 5 * nanos_per_second \<le> t + 10 * nanos_per_second"
proof -
  let ?r = "NewObjectStoreReader sample_reader 0"
  let ?key = "(''prod'', ''store'')"
  have laws: "reader_laws ?r" by (simp add: reader_laws_def NewObjectStoreReader_def sample_reader_def)
  have sel: "reader_now ?r = fst" "reader_cache ?r = snd"
    by (simp_all add: NewObjectStoreReader_def sample_reader_def)
  have start: "reader_run ?r (0, []) {}" by (rule reader_run.start) (simp add: sel)
  have found: "GetConfiguration ?r ?key (0, []) =
      (Inr sample_derived, 0, [(?key, \<lparr>derived = sample_derived, expiresAt = 10 * nanos_per_second\<rparr>)])"
    by code_simp
  let ?w = "(0, [(?key, \<lparr>derived = sample_derived, expiresAt = 10 * nanos_per_second\<rparr>)]) :: time \<times> (named, cacheEntry) gmap"
  obtain log where l: "GetConfiguration (logged ?r) ?key ((0, []), {}) = (Inr sample_derived, ?w, log)"
    by (rule GetConfiguration_logs [OF found])
  let ?later = "(5 * nanos_per_second, snd ?w)"
  have run: "reader_run ?r ?later log"
    by (rule reader_run.other [OF reader_run.call [OF start l]]) (simp add: sel)
  have hit: "lookup ?r ?key ?later = Some sample_derived"
    by (simp add: lookup_def sel nanos_per_second_def gmap_get_def)
  have cached: "GetConfiguration (logged ?r) ?key (?later, log) = (Inr sample_derived, ?later, log)"
    using hit by (intro GetConfiguration_hit) (simp add: logged_sel)
  show ?thesis
    using configuration_not_stale [OF laws refl run GetConfiguration_hit [OF hit]] GetConfiguration_hit [OF hit] cached
    by (fastforce simp: sel)
qed

end
