(* ===== verification/Go_Float.thy ===== *)
theory Go_Float
  imports Go_Decimal
begin

text \<open>
  Go's \<open>float64\<close>: IEEE 754 double precision with rounding to nearest, ties to even. A finite value
  is a sign, a significand below \<open>2 ^ 53\<close> and an exponent, kept in the canonical form of the format
  (the significand at least \<open>2 ^ 52\<close>, or the least exponent), so that equal encodings are equal
  values; every finite operation is one exact rational rounded once. Beside the arithmetic, the
  conversions \<open>strconv.ParseFloat\<close> of decimal texts and \<open>strconv.FormatFloat(x, 'f', -1, 64)\<close>, the
  shortest decimal that parses back to the same value. The main fact is that whole numbers below
  \<open>2 ^ 53\<close> are exact, under conversion and multiplication alike.
\<close>

datatype float64 = NaN | Infinite bool | Finite bool int int

section \<open>Rounding\<close>

function bits :: "int \<Rightarrow> int" where
  "bits n = (if n \<le> 0 then 0 else 1 + bits (n div 2))"
  by auto
termination by (relation "measure nat") auto

declare bits.simps [simp del]

text \<open>The fraction \<open>p / (q * 2 ^ e)\<close>, for any sign of \<open>e\<close>.\<close>

definition rescale :: "int \<Rightarrow> int \<Rightarrow> int \<Rightarrow> int \<times> int" where
  "rescale p q e = (if 0 \<le> e then (p, q * 2 ^ nat e) else (p * 2 ^ nat (- e), q))"

definition nearest_even :: "int \<Rightarrow> int \<Rightarrow> int" where
  "nearest_even a b =
     (let m = a div b; r = a mod b in if b < 2 * r \<or> b = 2 * r \<and> odd m then m + 1 else m)"

definition pack :: "bool \<Rightarrow> int \<Rightarrow> int \<Rightarrow> float64" where
  "pack neg m e = (if 971 < e then Infinite neg else Finite neg m e)"

text \<open>The exponent at which \<open>p / q\<close> has a 53-bit significand.\<close>

definition exponent_of :: "int \<Rightarrow> int \<Rightarrow> int" where
  "exponent_of p q =
     (let e = bits p - bits q - 53; (a, b) = rescale p q e in
      max (- 1074) (if 2 ^ 53 * b \<le> a then e + 1 else e))"

text \<open>The double nearest to \<open>p / q\<close>, for \<open>0 \<le> p\<close> and \<open>0 < q\<close>.\<close>

definition round64 :: "bool \<Rightarrow> int \<Rightarrow> int \<Rightarrow> float64" where
  "round64 neg p q =
     (if p = 0 then Finite neg 0 (- 1074)
      else let e = exponent_of p q; (a, b) = rescale p q e; m = nearest_even a b in
           if m = 2 ^ 53 then pack neg (2 ^ 52) (e + 1) else pack neg m e)"

section \<open>Operations\<close>

definition float_of_int :: "int \<Rightarrow> float64" where
  "float_of_int i = round64 (i < 0) \<bar>i\<bar> 1"

definition round_at :: "bool \<Rightarrow> int \<Rightarrow> int \<Rightarrow> float64" where
  "round_at neg m e = (if 0 \<le> e then round64 neg (m * 2 ^ nat e) 1 else round64 neg m (2 ^ nat (- e)))"

fun fmul :: "float64 \<Rightarrow> float64 \<Rightarrow> float64" where
  "fmul (Finite s m e) (Finite t n f) = round_at (s \<noteq> t) (m * n) (e + f)"
| "fmul (Finite s m e) (Infinite t) = (if m = 0 then NaN else Infinite (s \<noteq> t))"
| "fmul (Infinite s) (Finite t n f) = (if n = 0 then NaN else Infinite (s \<noteq> t))"
| "fmul (Infinite s) (Infinite t) = Infinite (s \<noteq> t)"
| "fmul _ _ = NaN"

text \<open>\<open>1 / x\<close>.\<close>

fun reciprocal :: "float64 \<Rightarrow> float64" where
  "reciprocal (Finite s m e) =
     (if m = 0 then Infinite s
      else if 0 \<le> e then round64 s 1 (m * 2 ^ nat e) else round64 s (2 ^ nat (- e)) m)"
| "reciprocal (Infinite s) = Finite s 0 (- 1074)"
| "reciprocal NaN = NaN"

fun is_zero :: "float64 \<Rightarrow> bool" where
  "is_zero (Finite s m e) = (m = 0)"
| "is_zero _ = False"

fun is_nan :: "float64 \<Rightarrow> bool" where
  "is_nan NaN = True"
| "is_nan _ = False"

fun is_infinite :: "float64 \<Rightarrow> bool" where
  "is_infinite (Infinite s) = True"
| "is_infinite _ = False"

definition signed :: "bool \<Rightarrow> int \<Rightarrow> int" where
  "signed neg m = (if neg then - m else m)"

text \<open>Comparison with a whole number that is a double; false on \<open>NaN\<close>.\<close>

fun greater_than :: "float64 \<Rightarrow> int \<Rightarrow> bool" where
  "greater_than (Finite s m e) i =
     (if 0 \<le> e then i < signed s m * 2 ^ nat e else i * 2 ^ nat (- e) < signed s m)"
| "greater_than (Infinite s) i = (\<not> s)"
| "greater_than NaN i = False"

fun less_than :: "float64 \<Rightarrow> int \<Rightarrow> bool" where
  "less_than (Finite s m e) i =
     (if 0 \<le> e then signed s m * 2 ^ nat e < i else signed s m < i * 2 ^ nat (- e))"
| "less_than (Infinite s) i = s"
| "less_than NaN i = False"

text \<open>The whole part, truncated towards zero; none for \<open>NaN\<close> and the infinities.\<close>

fun trunc :: "float64 \<Rightarrow> int option" where
  "trunc (Finite s m e) = Some (signed s (if 0 \<le> e then m * 2 ^ nat e else m div 2 ^ nat (- e)))"
| "trunc _ = None"

text \<open>
  The conversion \<open>int64(x)\<close>. What it gives when the whole part is no \<open>int64\<close> depends on the
  implementation (the least \<open>int64\<close> on amd64, a saturated value on arm64), so it is a parameter.
\<close>

definition int64_of_float :: "(float64 \<Rightarrow> int) \<Rightarrow> float64 \<Rightarrow> int" where
  "int64_of_float out_of_range x =
     (case trunc x of None \<Rightarrow> out_of_range x | Some i \<Rightarrow> if is_int64 i then i else out_of_range x)"

section \<open>Decimal texts\<close>

text \<open>The digits of an exponent, which \<open>strconv\<close> stops accumulating past 10000.\<close>

definition capped :: "string \<Rightarrow> int" where
  "capped s = fold (\<lambda>c e. if e < 10000 then 10 * e + int (digit_value c) else e) s 0"

definition split_sign :: "string \<Rightarrow> bool \<times> string" where
  "split_sign s =
     (case s of
        c # cs \<Rightarrow> if c = CHR ''-'' then (True, cs) else if c = CHR ''+'' then (False, cs) else (False, s)
      | [] \<Rightarrow> (False, []))"

definition read_exponent :: "string \<Rightarrow> int option" where
  "read_exponent s =
     (case s of
        [] \<Rightarrow> Some 0
      | c # cs \<Rightarrow>
          (let (neg, ds) = split_sign cs in
           if (c = CHR ''e'' \<or> c = CHR ''E'') \<and> ds \<noteq> [] \<and> list_all is_digit ds
           then Some (signed neg (capped ds)) else None))"

text \<open>The digits with and after the point.\<close>

definition read_fraction :: "string \<Rightarrow> string \<times> string" where
  "read_fraction s =
     (case s of
        [] \<Rightarrow> ([], [])
      | c # cs \<Rightarrow> if c = CHR ''.'' then (takeWhile is_digit cs, dropWhile is_digit cs) else ([], s))"

text \<open>
  \<open>strconv.ParseFloat(s, 64)\<close> on decimal texts. The spellings of the infinities and of \<open>NaN\<close>,
  hexadecimal floats and underscores are refused here; no caller passes one.
\<close>

definition ParseFloat :: "string \<Rightarrow> error + float64" where
  "ParseFloat s =
     (let (neg, body) = split_sign s;
          whole = takeWhile is_digit body;
          (fraction, rest) = read_fraction (dropWhile is_digit body) in
      case read_exponent rest of
        None \<Rightarrow> Inl (Errorf ''invalid syntax'' [s])
      | Some e \<Rightarrow>
          if whole @ fraction = [] then Inl (Errorf ''invalid syntax'' [s])
          else let d = int (undigits (whole @ fraction)); k = e - int (length fraction);
                   x = (if 0 \<le> k then round64 neg (d * 10 ^ nat k) 1 else round64 neg d (10 ^ nat (- k)))
               in if is_infinite x then Inl (Errorf ''value out of range'' [s]) else Inr x)"

text \<open>The number of zeros between the point and the first digit of \<open>a / b\<close>, which is below 1.\<close>

fun leading_zeros :: "nat \<Rightarrow> int \<Rightarrow> int \<Rightarrow> nat" where
  "leading_zeros 0 a b = 0"
| "leading_zeros (Suc n) a b = (if b \<le> 10 * a then 0 else Suc (leading_zeros n (10 * a) b))"

definition decimal_point :: "int \<Rightarrow> int \<Rightarrow> int" where
  "decimal_point a b =
     (if b \<le> a then int (length (FormatUint (nat (a div b)))) else - int (leading_zeros 400 a b))"

definition parses_to :: "float64 \<Rightarrow> bool \<Rightarrow> int \<Rightarrow> int \<Rightarrow> bool" where
  "parses_to x neg d k =
     ((if 0 \<le> k then round64 neg (d * 10 ^ nat k) 1 else round64 neg d (10 ^ nat (- k))) = x)"

text \<open>
  The fewest digits that parse back, at most 17 of them; of two candidates of that length the one
  closer to the value. The result is \<open>d\<close> and \<open>k\<close> for \<open>d * 10 ^ k\<close>.
\<close>

function shortest :: "float64 \<Rightarrow> bool \<Rightarrow> int \<Rightarrow> int \<Rightarrow> int \<Rightarrow> int \<Rightarrow> int \<times> int" where
  "shortest x neg a b point n =
     (let k = point - n;
          (p, q) = (if 0 \<le> k then (a, b * 10 ^ nat k) else (a * 10 ^ nat (- k), b));
          d = p div q; r = p mod q;
          low = parses_to x neg d k; high = parses_to x neg (d + 1) k in
      if low \<and> (\<not> high \<or> 2 * r < q \<or> 2 * r = q \<and> even d) \<or> 17 \<le> n then (d, k)
      else if high then (if d + 1 = 10 ^ nat n then (1, k + n) else (d + 1, k))
      else shortest x neg a b point (n + 1))"
  by auto
termination by (relation "measure (\<lambda>(x, neg, a, b, point, n). nat (17 - n))") auto

declare shortest.simps [simp del]

definition positional :: "int \<Rightarrow> int \<Rightarrow> string" where
  "positional d k =
     (if 0 \<le> k then FormatUint (nat d) @ replicate (nat k) CHR ''0''
      else let s = pad_to (nat (- k) + 1) (FormatUint (nat d)); i = length s - nat (- k) in
           take i s @ ''.'' @ drop i s)"

fun FormatFloat :: "float64 \<Rightarrow> string" where
  "FormatFloat NaN = ''NaN''"
| "FormatFloat (Infinite neg) = (if neg then ''-Inf'' else ''+Inf'')"
| "FormatFloat (Finite neg m e) =
     (if neg then ''-'' else '''')
     @ (if m = 0 then ''0''
        else let (a, b) = (if 0 \<le> e then (m * 2 ^ nat e, 1) else (m, 2 ^ nat (- e)));
                 (d, k) = shortest (Finite neg m e) neg a b (decimal_point a b) 1 in
             positional d k)"

section \<open>Whole numbers below \<open>2 ^ 53\<close> are exact\<close>

lemma bits_bounds: "0 < n \<Longrightarrow> 0 < bits n \<and> 2 ^ nat (bits n - 1) \<le> n \<and> n < 2 ^ nat (bits n)"
proof (induction n rule: bits.induct)
  case (1 n)
  have step: "bits n = 1 + bits (n div 2)" using 1 by (simp add: bits.simps [of n])
  show ?case
  proof (cases "n = 1")
    case True
    then show ?thesis using step by (simp add: bits.simps [of 0])
  next
    case False
    then have half: "0 < n div 2" using 1 by linarith
    with 1 have IH: "0 < bits (n div 2)" "2 ^ nat (bits (n div 2) - 1) \<le> n div 2" "n div 2 < 2 ^ nat (bits (n div 2))"
      by auto
    define k where "k = nat (bits (n div 2) - 1)"
    have "nat (bits (n div 2)) = Suc k" "nat (bits n - 1) = Suc k" "nat (bits n) = Suc (Suc k)"
      using IH(1) step by (auto simp: k_def)
    moreover have "2 ^ k \<le> n div 2" "n div 2 < 2 ^ Suc k" using IH(2,3) calculation(1) by (auto simp: k_def)
    ultimately show ?thesis using step IH(1) by auto
  qed
qed

lemma bits_le: "0 \<le> k \<Longrightarrow> n < 2 ^ nat k \<Longrightarrow> bits n \<le> k"
proof (rule ccontr)
  assume k: "0 \<le> k" "n < 2 ^ nat k" and "\<not> bits n \<le> k"
  then have "0 < n" by (cases "0 < n") (auto simp: bits.simps [of n])
  then have "2 ^ nat (bits n - 1) \<le> n" using bits_bounds by blast
  moreover have "(2 :: int) ^ nat k \<le> 2 ^ nat (bits n - 1)"
    using \<open>\<not> bits n \<le> k\<close> by (intro power_increasing) auto
  ultimately show False using k by linarith
qed

lemma bits_mult: "0 < a \<Longrightarrow> 0 < b \<Longrightarrow> bits (a * b) \<le> bits a + bits b"
proof -
  assume pos: "0 < a" "0 < b"
  note A = bits_bounds [OF pos(1)] and B = bits_bounds [OF pos(2)]
  have "a * b < 2 ^ nat (bits a) * 2 ^ nat (bits b)"
    using A B pos by (intro mult_strict_mono) auto
  then show ?thesis using A B by (intro bits_le) (simp_all add: nat_add_distrib power_add)
qed

text \<open>A number \<open>n\<close> below \<open>2 ^ 53\<close>, given as any fraction, rounds to a double that is \<open>n\<close> exactly.\<close>

definition exactly :: "bool \<Rightarrow> int \<Rightarrow> float64 \<Rightarrow> bool" where
  "exactly neg n x \<longleftrightarrow> (\<exists>m e. x = Finite neg m e \<and> e \<le> 0 \<and> 0 \<le> m \<and> m = n * 2 ^ nat (- e))"

lemma exponent_of_whole:
  assumes "0 < n" "n < 2 ^ 53" "0 < q"
  shows "exponent_of (n * q) q \<le> 0"
proof -
  let ?e = "bits (n * q) - bits q - 53"
  have "bits (n * q) \<le> bits n + bits q" using bits_mult assms by simp
  moreover have "bits n \<le> 53" using bits_le [of 53 n] assms by simp
  ultimately have e: "?e \<le> 0" by linarith
  have "\<not> 2 ^ 53 * q \<le> n * q" using assms by simp
  then show ?thesis using e by (auto simp: exponent_of_def rescale_def Let_def)
qed

lemma nearest_even_exact: "0 < q \<Longrightarrow> nearest_even (n * q) q = n"
  by (simp add: nearest_even_def Let_def)

lemma round64_exact:
  assumes "0 \<le> n" "n < 2 ^ 53" "0 < q"
  shows "exactly neg n (round64 neg (n * q) q)"
proof (cases "n = 0")
  case True
  then show ?thesis by (simp add: exactly_def round64_def)
next
  case False
  then have pos: "0 < n" using assms by simp
  define e where "e = exponent_of (n * q) q"
  define m where "m = n * 2 ^ nat (- e)"
  have e: "e \<le> 0" using exponent_of_whole pos assms by (simp add: e_def)
  have parts: "rescale (n * q) q e = (m * q, q)"
    using e by (auto simp: rescale_def m_def mult_ac)
  have r: "round64 neg (n * q) q = (if m = 2 ^ 53 then pack neg (2 ^ 52) (e + 1) else pack neg m e)"
    using pos assms parts by (simp add: round64_def e_def [symmetric] nearest_even_exact)
  show ?thesis
  proof (cases "m = 2 ^ 53")
    case True
    with assms have "e \<noteq> 0" by (auto simp: m_def)
    with e have "e + 1 \<le> 0" "nat (- e) = Suc (nat (- (e + 1)))" by auto
    with True have "2 ^ 52 = n * 2 ^ nat (- (e + 1))" by (simp add: m_def)
    with r True \<open>e + 1 \<le> 0\<close> show ?thesis by (auto simp: exactly_def pack_def)
  next
    case False
    with r e pos show ?thesis by (auto simp: exactly_def pack_def m_def)
  qed
qed

lemma float_of_int_exact:
  assumes "\<bar>i\<bar> < 2 ^ 53"
  shows "exactly (i < 0) \<bar>i\<bar> (float_of_int i)"
  using round64_exact [of "\<bar>i\<bar>" 1] assms by (simp add: float_of_int_def)

lemma fmul_exact:
  assumes "exactly s a x" "exactly t b y" "0 \<le> a" "0 \<le> b" "a * b < 2 ^ 53"
  shows "exactly (s \<noteq> t) (a * b) (fmul x y)"
proof -
  obtain e f where x: "x = Finite s (a * 2 ^ nat (- e)) e" "e \<le> 0" and y: "y = Finite t (b * 2 ^ nat (- f)) f" "f \<le> 0"
    using assms by (auto simp: exactly_def)
  have pow: "nat (- (e + f)) = nat (- e) + nat (- f)" using x y by simp
  have q: "(a * 2 ^ nat (- e)) * (b * 2 ^ nat (- f)) = (a * b) * 2 ^ nat (- (e + f))"
    unfolding pow power_add by (simp add: mult_ac)
  have "fmul x y = round64 (s \<noteq> t) ((a * b) * 2 ^ nat (- (e + f))) (2 ^ nat (- (e + f)))"
    unfolding q [symmetric] using x y by (cases "e + f = 0") (auto simp: round_at_def)
  then show ?thesis using round64_exact [of "a * b" "2 ^ nat (- (e + f))"] assms by simp
qed

lemma trunc_exact: "exactly s a x \<Longrightarrow> trunc x = Some (signed s a)"
  by (auto simp: exactly_def)

lemma exactly_finite: "exactly s a x \<Longrightarrow> \<not> is_nan x \<and> \<not> is_infinite x"
  by (auto simp: exactly_def)

lemma compare_exact:
  assumes "exactly s a x"
  shows "greater_than x i \<longleftrightarrow> i < signed s a" "less_than x i \<longleftrightarrow> signed s a < i"
proof -
  obtain e where x: "x = Finite s (a * 2 ^ nat (- e)) e" "e \<le> 0" using assms by (auto simp: exactly_def)
  have "signed s (a * 2 ^ nat (- e)) = signed s a * 2 ^ nat (- e)" by (simp add: signed_def)
  then show "greater_than x i \<longleftrightarrow> i < signed s a" "less_than x i \<longleftrightarrow> signed s a < i"
    using x by (cases "e = 0"; simp)+
qed

text \<open>The product of two whole numbers, taken in floating point, is the product while it stays below \<open>2 ^ 53\<close>.\<close>

lemma signed_product: "signed ((i < 0) \<noteq> (j < 0)) (\<bar>i\<bar> * \<bar>j\<bar>) = i * (j :: int)"
  by (auto simp: signed_def abs_if)

lemma whole_product_exact:
  assumes "\<bar>i * j\<bar> < 2 ^ 53" "\<bar>i\<bar> < 2 ^ 53" "\<bar>j\<bar> < 2 ^ 53"
  shows "int64_of_float out_of_range (fmul (float_of_int i) (float_of_int j)) = i * j"
    "\<not> greater_than (fmul (float_of_int i) (float_of_int j)) (2 ^ 63)"
    "\<not> less_than (fmul (float_of_int i) (float_of_int j)) (- (2 ^ 63))"
proof -
  have x: "exactly ((i < 0) \<noteq> (j < 0)) (\<bar>i\<bar> * \<bar>j\<bar>) (fmul (float_of_int i) (float_of_int j))"
    using fmul_exact [OF float_of_int_exact float_of_int_exact, of i j] assms by (simp add: abs_mult)
  have product: "trunc (fmul (float_of_int i) (float_of_int j)) = Some (i * j)"
    unfolding trunc_exact [OF x] signed_product ..
  show "int64_of_float out_of_range (fmul (float_of_int i) (float_of_int j)) = i * j"
    using assms(1) by (auto simp: int64_of_float_def product is_int64_def)
  show "\<not> greater_than (fmul (float_of_int i) (float_of_int j)) (2 ^ 63)"
    "\<not> less_than (fmul (float_of_int i) (float_of_int j)) (- (2 ^ 63))"
    using assms(1) unfolding compare_exact [OF x] signed_product by auto
qed

end
