(* ===== verification/Pg_Memory.thy ===== *)
theory Pg_Memory
  imports Go_Decimal Go_Maps
begin

text \<open>
  \<open>internal/restore/celenv/pgmem.go\<close>: PostgreSQL memory settings such as \<open>128MB\<close>. Amounts are
  \<open>int64\<close>, so the product of a number and its unit wraps. The regular expression is a scanner: every
  part of it is determined by the next character, so greedy matching never backtracks.
\<close>

definition is_blank :: "char \<Rightarrow> bool" where
  "is_blank c \<longleftrightarrow> c = CHR '' '' \<or> c = CHR 0x09 \<or> c = CHR 0x0A \<or> c = CHR 0x0C \<or> c = CHR 0x0D"

text \<open>\<open>([kKmMgGtT][bB]?|[bB])?\<close> and what follows it.\<close>

definition scan_unit :: "string \<Rightarrow> string \<times> string" where
  "scan_unit s =
     (case s of
        [] \<Rightarrow> ([], [])
      | c # cs \<Rightarrow>
          if List.member ''kKmMgGtT'' c then
            (case cs of
               [] \<Rightarrow> ([c], [])
             | d # ds \<Rightarrow> if d = CHR ''b'' \<or> d = CHR ''B'' then ([c, d], ds) else ([c], cs))
          else if c = CHR ''b'' \<or> c = CHR ''B'' then ([c], cs)
          else ([], s))"

text \<open>The two groups of the match: the amount and the unit.\<close>

definition pgMemoryPattern :: "string \<Rightarrow> (string \<times> string) option" where
  "pgMemoryPattern s =
     (let s = dropWhile is_blank s;
          (sign, body) = (case s of c # cs \<Rightarrow> if c = CHR ''-'' then ([c], cs) else ([], s) | [] \<Rightarrow> ([], []));
          amount = takeWhile is_digit body;
          (letters, rest) = scan_unit (dropWhile is_blank (dropWhile is_digit body))
      in if amount = [] \<or> \<not> list_all is_blank rest then None else Some (sign @ amount, letters))"

definition pgMemoryUnits :: "(string, int) gmap" where
  "pgMemoryUnits = [('''', 1), (''G'', 2 ^ 30), (''K'', 2 ^ 10), (''M'', 2 ^ 20), (''T'', 2 ^ 40)]"

definition normalizeUnit :: "string \<Rightarrow> string \<times> bool" where
  "normalizeUnit letters =
     (let normalized = TrimSuffix (ToUpper letters) ''B'' in (normalized, gmap_get pgMemoryUnits normalized \<noteq> None))"

definition canonicalUnit :: "string \<Rightarrow> string" where
  "canonicalUnit normalized =
     (if normalized = '''' then '''' else if normalized = ''K'' then ''kB'' else normalized @ ''B'')"

text \<open>A missing key of the Go map reads as zero.\<close>

definition unit_size :: "string \<Rightarrow> int" where
  "unit_size normalized = (case gmap_get pgMemoryUnits normalized of None \<Rightarrow> 0 | Some n \<Rightarrow> n)"

definition ParsePgMemory :: "string \<Rightarrow> error + int" where
  "ParsePgMemory s =
     (case pgMemoryPattern s of
        None \<Rightarrow> Inl (Errorf ''is not a PostgreSQL memory setting'' [s])
      | Some (number, letters) \<Rightarrow>
          (case ParseInt64 number of
             Inl err \<Rightarrow> Inl (Wrapped ''has an out-of-range amount'' [s] err)
           | Inr amount \<Rightarrow>
               let (normalized, ok) = normalizeUnit letters in
               if \<not> ok then Inl (Errorf ''has an unknown unit'' [s, letters])
               else Inr (int64 (amount * unit_size normalized))))"

definition FormatPgMemory :: "int \<Rightarrow> string \<Rightarrow> error + string" where
  "FormatPgMemory bytes letters =
     (let (normalized, ok) = normalizeUnit letters in
      if \<not> ok then Inl (Errorf ''unknown PostgreSQL memory unit'' [letters])
      else let amount = go_div bytes (unit_size normalized) in
           if amount = 0 \<and> bytes \<noteq> 0
           then Inl (Errorf ''rounds to 0'' [FormatInt bytes, letters])
           else Inr (FormatInt amount @ canonicalUnit normalized))"

definition UnitOf :: "string \<Rightarrow> string" where
  "UnitOf s =
     (case pgMemoryPattern s of
        None \<Rightarrow> ''''
      | Some (number, letters) \<Rightarrow> canonicalUnit (fst (normalizeUnit letters)))"

section \<open>Canonical settings\<close>

definition pg_unit :: "string \<Rightarrow> bool" where
  "pg_unit u \<longleftrightarrow> gmap_get pgMemoryUnits u \<noteq> None"

lemma pg_unit_cases: "pg_unit u \<Longrightarrow> u = '''' \<or> u = ''K'' \<or> u = ''M'' \<or> u = ''G'' \<or> u = ''T''"
  by (auto simp: pg_unit_def pgMemoryUnits_def gmap_get_def split: if_splits)

lemma unit_size_pos: "pg_unit u \<Longrightarrow> 0 < unit_size u"
  by (drule pg_unit_cases) (elim disjE; simp; code_simp)

lemma normalizeUnit_known: "normalizeUnit letters = (u, True) \<Longrightarrow> pg_unit u"
  by (auto simp: normalizeUnit_def pg_unit_def Let_def)

lemma normalizeUnit_canonical: "pg_unit u \<Longrightarrow> normalizeUnit (canonicalUnit u) = (u, True)"
  by (drule pg_unit_cases) (elim disjE; simp; code_simp)

lemma scan_unit_canonical: "pg_unit u \<Longrightarrow> scan_unit (canonicalUnit u) = (canonicalUnit u, [])"
  by (drule pg_unit_cases) (elim disjE; simp; code_simp)

lemma canonicalUnit_head:
  "pg_unit u \<Longrightarrow> canonicalUnit u = c # cs \<Longrightarrow> \<not> is_digit c \<and> \<not> is_blank c"
  by (drule pg_unit_cases) (auto simp: canonicalUnit_def is_digit_def char_le_iff is_blank_def)

lemma is_digit_not_blank: "is_digit c \<Longrightarrow> \<not> is_blank c"
  by (auto simp: is_digit_def is_blank_def char_le_iff)

lemma takeWhile_digits_unit:
  assumes "list_all is_digit ds" "pg_unit u"
  shows "takeWhile is_digit (ds @ canonicalUnit u) = ds" "dropWhile is_digit (ds @ canonicalUnit u) = canonicalUnit u"
    "dropWhile is_blank (canonicalUnit u) = canonicalUnit u"
proof -
  have "takeWhile is_digit (canonicalUnit u) = []" "dropWhile is_digit (canonicalUnit u) = canonicalUnit u"
    "dropWhile is_blank (canonicalUnit u) = canonicalUnit u"
    using canonicalUnit_head [OF assms(2)] by (cases "canonicalUnit u"; simp)+
  then show "takeWhile is_digit (ds @ canonicalUnit u) = ds" "dropWhile is_digit (ds @ canonicalUnit u) = canonicalUnit u"
    "dropWhile is_blank (canonicalUnit u) = canonicalUnit u"
    using assms(1) by (auto simp: list_all_iff)
qed

lemma pgMemoryPattern_canonical:
  assumes "pg_unit u"
  shows "pgMemoryPattern (FormatInt i @ canonicalUnit u) = Some (FormatInt i, canonicalUnit u)"
proof -
  have parts: "takeWhile is_digit (FormatUint n @ canonicalUnit u) = FormatUint n"
    "dropWhile is_digit (FormatUint n @ canonicalUnit u) = canonicalUnit u" for n
    by (simp_all add: takeWhile_digits_unit assms)
  have tail: "dropWhile is_blank (canonicalUnit u) = canonicalUnit u"
    using takeWhile_digits_unit(3) [of "[]" u] assms by simp
  show ?thesis
  proof (cases "i < 0")
    case True
    then show ?thesis
      by (simp add: pgMemoryPattern_def FormatInt_def is_blank_def parts tail scan_unit_canonical [OF assms])
  next
    case False
    obtain c cs where cs: "FormatUint (nat i) = c # cs" by (cases "FormatUint (nat i)") auto
    then have c: "is_digit c" "c \<noteq> CHR ''-''"
      using FormatUint_is_digits [of "nat i"] FormatUint_no_sign [OF cs] by auto
    then have "dropWhile is_blank (FormatUint (nat i) @ canonicalUnit u) = FormatUint (nat i) @ canonicalUnit u"
      using is_digit_not_blank by (simp add: cs)
    then show ?thesis
      using False c parts [of "nat i"] tail scan_unit_canonical [OF assms]
      by (simp add: pgMemoryPattern_def FormatInt_def cs Let_def)
  qed
qed

lemma UnitOf_canonical: "pg_unit u \<Longrightarrow> UnitOf (FormatInt i @ canonicalUnit u) = canonicalUnit u"
  by (simp add: UnitOf_def pgMemoryPattern_canonical normalizeUnit_canonical)

text \<open>A setting is read as its number of units, while that is an \<open>int64\<close>; past it the product wraps.\<close>

lemma ParsePgMemory_canonical:
  "pg_unit u \<Longrightarrow> is_int64 i \<Longrightarrow> ParsePgMemory (FormatInt i @ canonicalUnit u) = Inr (int64 (i * unit_size u))"
  by (simp add: ParsePgMemory_def pgMemoryPattern_canonical ParseInt64_FormatInt normalizeUnit_canonical)

section \<open>Truncated division\<close>

lemma go_div_exact: "0 < b \<Longrightarrow> go_div (i * b) b = i"
  by (simp add: go_div_def abs_mult sgn_mult mult_sgn_abs)

lemma go_div_towards_zero:
  assumes "0 < b"
  shows "\<bar>a - go_div a b * b\<bar> < b" "\<bar>go_div a b * b\<bar> \<le> \<bar>a\<bar>" "0 \<le> go_div a b * a"
proof -
  define n where "n = \<bar>a\<bar> div b"
  have "n * b + \<bar>a\<bar> mod b = \<bar>a\<bar>" "0 \<le> n"
    using assms by (simp_all add: n_def pos_imp_zdiv_nonneg_iff)
  moreover have "0 \<le> n * b" using calculation(2) assms by simp
  ultimately have parts: "n * b \<le> \<bar>a\<bar>" "\<bar>a\<bar> < n * b + b" "0 \<le> n" "0 \<le> n * b"
    using pos_mod_sign [OF assms, of "\<bar>a\<bar>"] pos_mod_bound [OF assms, of "\<bar>a\<bar>"] by linarith+
  have cut: "go_div a b * b = sgn a * (n * b)" "go_div a b = sgn a * n" using assms by (simp_all add: go_div_def n_def)
  show "\<bar>a - go_div a b * b\<bar> < b" "\<bar>go_div a b * b\<bar> \<le> \<bar>a\<bar>" "0 \<le> go_div a b * a"
    using parts assms unfolding cut by (cases a "0 :: int" rule: linorder_cases; simp add: mult_nonneg_nonpos)+
qed

lemma FormatPgMemory_exact:
  assumes "pg_unit u"
  shows "FormatPgMemory (i * unit_size u) (canonicalUnit u) = Inr (FormatInt i @ canonicalUnit u)"
  using unit_size_pos [OF assms]
  by (auto simp: FormatPgMemory_def normalizeUnit_canonical assms go_div_exact Let_def)

lemma FormatPgMemory_Inr:
  assumes "FormatPgMemory bytes letters = Inr t"
  obtains u where "normalizeUnit letters = (u, True)" "pg_unit u"
    "t = FormatInt (go_div bytes (unit_size u)) @ canonicalUnit u" "go_div bytes (unit_size u) = 0 \<longrightarrow> bytes = 0"
  using assms normalizeUnit_known
  by (auto simp: FormatPgMemory_def Let_def split: prod.splits if_splits)


text \<open>The product is not checked: a setting whose bytes are no \<open>int64\<close> is read as another amount.\<close>

lemma ParsePgMemory_wraps:
  assumes "pg_unit u" "is_int64 i" "\<not> is_int64 (i * unit_size u)"
  shows "\<exists>v. ParsePgMemory (FormatInt i @ canonicalUnit u) = Inr v \<and> v \<noteq> i * unit_size u"
  using assms(3) ParsePgMemory_canonical [OF assms(1,2)] is_int64_int64 [of "i * unit_size u"]
  by (intro exI [of _ "int64 (i * unit_size u)"]) auto

end
