(* ===== verification/Cel_Environment.thy ===== *)
theory Cel_Environment
  imports Restore_Plan Go_Float Pg_Memory
begin

text \<open>
  \<open>internal/restore/celenv\<close>: the environment transforms are compiled and evaluated in
  (\<open>quantity.go\<close>, \<open>env.go\<close>, \<open>eval.go\<close>; the memory settings of \<open>pgmem.go\<close> are in \<open>Pg_Memory\<close>).

  The CEL library and Kubernetes' \<open>resource.Quantity\<close> are third-party code: what the code calls of
  them is the record \<open>cel_library\<close>, over an environment \<open>'e\<close>, a syntax tree \<open>'a\<close>, a program \<open>'p\<close>
  and a quantity \<open>'q\<close>. The functions the environment declares are data here, each with the binding the
  code gives it; the library decides which binding an expression calls. A native value handed to an
  evaluation is the CEL value the library's adapter makes of it.
\<close>

section \<open>Values\<close>

datatype cel_type =
    DynType | StringType | IntType | UintType | DoubleType | BoolType | TypeType | OpaqueType string

definition QuantityType :: cel_type where
  "QuantityType = OpaqueType ''kubernetes.Quantity''"

text \<open>\<open>ref.Val\<close>: the implementations the code distinguishes, and any other one by its type.\<close>

datatype 'q val =
    CelQuantity 'q
  | CelString string
  | CelInt int
  | CelUint int
  | CelDouble float64
  | CelBool bool
  | CelType cel_type
  | CelErr error
  | CelOther cel_type

text \<open>A function of the environment: its name, one overload, and what it is bound to.\<close>

datatype 'q binding =
    UnaryBinding "'q val \<Rightarrow> 'q val"
  | BinaryBinding "'q val \<Rightarrow> 'q val \<Rightarrow> 'q val"

record 'q overload =
  ovl_function :: string
  ovl_id :: string
  ovl_member :: bool
  ovl_args :: "cel_type list"
  ovl_result :: cel_type
  ovl_binding :: "'q binding"

record 'q declarations =
  Variables :: "(string \<times> cel_type) list"
  Functions :: "'q overload list"

record ('e, 'a, 'p, 'q) cel_library =
  NewEnv :: "'q declarations \<Rightarrow> error + 'e"
  Env_Compile :: "'e \<Rightarrow> string \<Rightarrow> error + 'a"
  Env_Program :: "'e \<Rightarrow> 'a \<Rightarrow> nat \<Rightarrow> error + 'p"
  Program_Eval :: "'p \<Rightarrow> (string \<times> 'q val) list \<Rightarrow> error + 'q val"
  MaybeNoSuchOverloadErr :: "'q val \<Rightarrow> 'q val"
  q_Parse :: "string \<Rightarrow> error + 'q"
  q_String :: "'q \<Rightarrow> string"
  q_Value :: "'q \<Rightarrow> int"
  q_MilliValue :: "'q \<Rightarrow> int"
  q_AsApproximateFloat64 :: "'q \<Rightarrow> float64"
  q_Cmp :: "'q \<Rightarrow> 'q \<Rightarrow> int"
  q_Format :: "'q \<Rightarrow> string"
  q_NewMilli :: "int \<Rightarrow> string \<Rightarrow> 'q"
  q_Add :: "'q \<Rightarrow> 'q \<Rightarrow> 'q"
  q_Sub :: "'q \<Rightarrow> 'q \<Rightarrow> 'q"
  out_of_range :: "float64 \<Rightarrow> int"

section \<open>Quantities\<close>

text \<open>\<open>reflect.Type\<close>, as far as \<open>ConvertToNative\<close> looks at it, and what it returns.\<close>

datatype native_type =
    StringKind | Int64Kind | IntKind | Float64Kind | QuantityPointer | OtherNative string

datatype 'q native =
    NativeString string
  | NativeInt int
  | NativeFloat float64
  | NativeQuantity 'q

definition ConvertToNative :: "('e, 'a, 'p, 'q) cel_library \<Rightarrow> 'q \<Rightarrow> native_type \<Rightarrow> error + 'q native" where
  "ConvertToNative lib q t =
     (case t of
        StringKind \<Rightarrow> Inr (NativeString (q_String lib q))
      | Int64Kind \<Rightarrow> Inr (NativeInt (q_Value lib q))
      | IntKind \<Rightarrow> Inr (NativeInt (q_Value lib q))
      | Float64Kind \<Rightarrow> Inr (NativeFloat (q_AsApproximateFloat64 lib q))
      | QuantityPointer \<Rightarrow> Inr (NativeQuantity q)
      | OtherNative name \<Rightarrow> Inl (Errorf ''cannot convert a quantity to'' [name]))"

definition ConvertToType :: "('e, 'a, 'p, 'q) cel_library \<Rightarrow> 'q \<Rightarrow> cel_type \<Rightarrow> 'q val" where
  "ConvertToType lib q t =
     (if t = QuantityType then CelQuantity q
      else if t = StringType then CelString (q_String lib q)
      else if t = IntType then CelInt (q_Value lib q)
      else if t = DoubleType then CelDouble (q_AsApproximateFloat64 lib q)
      else if t = TypeType then CelType QuantityType
      else CelErr (Errorf ''cannot convert a quantity to'' []))"

definition Quantity_Equal :: "('e, 'a, 'p, 'q) cel_library \<Rightarrow> 'q \<Rightarrow> 'q val \<Rightarrow> 'q val" where
  "Quantity_Equal lib q other =
     (case other of
        CelQuantity p \<Rightarrow> CelBool (q_Cmp lib q p = 0)
      | _ \<Rightarrow> MaybeNoSuchOverloadErr lib other)"

text \<open>
  The bounds are compared as doubles, where the greatest \<open>int64\<close> is \<open>2 ^ 63\<close>: a product of exactly
  that passes, and the conversion after it is out of range.
\<close>

definition scale :: "('e, 'a, 'p, 'q) cel_library \<Rightarrow> 'q \<Rightarrow> float64 \<Rightarrow> error + 'q" where
  "scale lib q factor =
     (if is_nan factor \<or> is_infinite factor then Inl (Errorf ''cannot scale a quantity by'' [FormatFloat factor])
      else let scaled = fmul (float_of_int (q_MilliValue lib q)) factor in
           if greater_than scaled (2 ^ 63) \<or> less_than scaled (- (2 ^ 63))
           then Inl (Errorf ''scaling overflows'' [q_String lib q])
           else Inr (q_NewMilli lib (int64_of_float (out_of_range lib) scaled) (q_Format lib q)))"

definition ParseQuantity :: "('e, 'a, 'p, 'q) cel_library \<Rightarrow> string \<Rightarrow> error + 'q" where
  "ParseQuantity lib s = wrap ''is not a Kubernetes quantity'' [s] (q_Parse lib s)"

section \<open>The functions of the environment\<close>

definition asFloat :: "'q val \<Rightarrow> error + float64" where
  "asFloat v =
     (case v of
        CelInt i \<Rightarrow> Inr (float_of_int i)
      | CelDouble x \<Rightarrow> Inr x
      | CelUint i \<Rightarrow> Inr (float_of_int i)
      | _ \<Rightarrow> Inl (Errorf ''expected a number'' []))"

text \<open>\<open>quantityScaleOverload\<close>'s binding.\<close>

definition scale_binding :: "('e, 'a, 'p, 'q) cel_library \<Rightarrow> bool \<Rightarrow> 'q val \<Rightarrow> 'q val \<Rightarrow> 'q val" where
  "scale_binding lib dividing lhs rhs =
     (case lhs of
        CelQuantity q \<Rightarrow>
          (case asFloat rhs of
             Inl err \<Rightarrow> CelErr err
           | Inr factor \<Rightarrow>
               if dividing \<and> is_zero factor then CelErr (Errorf ''cannot divide by zero'' [q_String lib q])
               else (case scale lib q (if dividing then reciprocal factor else factor) of
                       Inl err \<Rightarrow> CelErr err
                     | Inr r \<Rightarrow> CelQuantity r))
      | _ \<Rightarrow> MaybeNoSuchOverloadErr lib lhs)"

definition quantityScaleOverload ::
  "('e, 'a, 'p, 'q) cel_library \<Rightarrow> string \<Rightarrow> string \<Rightarrow> cel_type \<Rightarrow> bool \<Rightarrow> 'q overload" where
  "quantityScaleOverload lib func name operand dividing =
     \<lparr>ovl_function = func, ovl_id = name, ovl_member = True, ovl_args = [QuantityType, operand],
      ovl_result = QuantityType, ovl_binding = BinaryBinding (scale_binding lib dividing)\<rparr>"

definition quantityCombine :: "('e, 'a, 'p, 'q) cel_library \<Rightarrow> bool \<Rightarrow> 'q val \<Rightarrow> 'q val \<Rightarrow> 'q val" where
  "quantityCombine lib subtract lhs rhs =
     (case lhs of
        CelQuantity p \<Rightarrow>
          (case rhs of
             CelQuantity q \<Rightarrow> CelQuantity (if subtract then q_Sub lib p q else q_Add lib p q)
           | _ \<Rightarrow> MaybeNoSuchOverloadErr lib rhs)
      | _ \<Rightarrow> MaybeNoSuchOverloadErr lib lhs)"

definition quantity_literal :: "('e, 'a, 'p, 'q) cel_library \<Rightarrow> 'q val \<Rightarrow> 'q val" where
  "quantity_literal lib v =
     (case v of
        CelString s \<Rightarrow> (case ParseQuantity lib s of Inl err \<Rightarrow> CelErr err | Inr q \<Rightarrow> CelQuantity q)
      | _ \<Rightarrow> MaybeNoSuchOverloadErr lib v)"

definition quantity_bytes :: "('e, 'a, 'p, 'q) cel_library \<Rightarrow> 'q val \<Rightarrow> 'q val" where
  "quantity_bytes lib v =
     (case v of CelQuantity q \<Rightarrow> CelInt (q_Value lib q) | _ \<Rightarrow> MaybeNoSuchOverloadErr lib v)"

definition pgMem :: "('e, 'a, 'p, 'q) cel_library \<Rightarrow> 'q val \<Rightarrow> 'q val" where
  "pgMem lib v =
     (case v of
        CelString s \<Rightarrow> (case ParsePgMemory s of Inl err \<Rightarrow> CelErr err | Inr n \<Rightarrow> CelInt n)
      | _ \<Rightarrow> MaybeNoSuchOverloadErr lib v)"

definition pgMemFormat :: "('e, 'a, 'p, 'q) cel_library \<Rightarrow> 'q val \<Rightarrow> 'q val \<Rightarrow> 'q val" where
  "pgMemFormat lib amount letters =
     (case amount of
        CelInt n \<Rightarrow>
          (case letters of
             CelString u \<Rightarrow> (case FormatPgMemory n u of Inl err \<Rightarrow> CelErr err | Inr s \<Rightarrow> CelString s)
           | _ \<Rightarrow> MaybeNoSuchOverloadErr lib letters)
      | _ \<Rightarrow> MaybeNoSuchOverloadErr lib amount)"

definition pgScale :: "('e, 'a, 'p, 'q) cel_library \<Rightarrow> 'q val \<Rightarrow> 'q val \<Rightarrow> 'q val" where
  "pgScale lib v factor =
     (case v of
        CelString s \<Rightarrow>
          (case asFloat factor of
             Inl err \<Rightarrow> CelErr err
           | Inr multiplier \<Rightarrow>
               (case ParsePgMemory s of
                  Inl err \<Rightarrow> CelErr err
                | Inr parsed \<Rightarrow>
                    (case FormatPgMemory (int64_of_float (out_of_range lib) (fmul (float_of_int parsed) multiplier)) (UnitOf s) of
                       Inl err \<Rightarrow> CelErr err
                     | Inr formatted \<Rightarrow> CelString formatted)))
      | _ \<Rightarrow> MaybeNoSuchOverloadErr lib v)"

definition MaxCost :: nat where
  "MaxCost = 1000000"

definition environment :: "('e, 'a, 'p, 'q) cel_library \<Rightarrow> 'q declarations" where
  "environment lib =
     \<lparr>Variables = [(''old'', DynType)],
      Functions =
       [\<lparr>ovl_function = ''quantity'', ovl_id = ''quantity_string'', ovl_member = False, ovl_args = [StringType],
         ovl_result = QuantityType, ovl_binding = UnaryBinding (quantity_literal lib)\<rparr>,
        quantityScaleOverload lib ''multiply'' ''quantity_multiply_int'' IntType False,
        quantityScaleOverload lib ''multiply'' ''quantity_multiply_double'' DoubleType False,
        quantityScaleOverload lib ''divide'' ''quantity_divide_int'' IntType True,
        quantityScaleOverload lib ''divide'' ''quantity_divide_double'' DoubleType True,
        \<lparr>ovl_function = ''add'', ovl_id = ''quantity_add_quantity'', ovl_member = True,
         ovl_args = [QuantityType, QuantityType], ovl_result = QuantityType,
         ovl_binding = BinaryBinding (quantityCombine lib False)\<rparr>,
        \<lparr>ovl_function = ''sub'', ovl_id = ''quantity_sub_quantity'', ovl_member = True,
         ovl_args = [QuantityType, QuantityType], ovl_result = QuantityType,
         ovl_binding = BinaryBinding (quantityCombine lib True)\<rparr>,
        \<lparr>ovl_function = ''bytes'', ovl_id = ''quantity_bytes'', ovl_member = True, ovl_args = [QuantityType],
         ovl_result = IntType, ovl_binding = UnaryBinding (quantity_bytes lib)\<rparr>,
        \<lparr>ovl_function = ''pgMem'', ovl_id = ''pgmem_string'', ovl_member = False, ovl_args = [StringType],
         ovl_result = IntType, ovl_binding = UnaryBinding (pgMem lib)\<rparr>,
        \<lparr>ovl_function = ''pgMemFormat'', ovl_id = ''pgmemformat_int_string'', ovl_member = False,
         ovl_args = [IntType, StringType], ovl_result = StringType, ovl_binding = BinaryBinding (pgMemFormat lib)\<rparr>,
        \<lparr>ovl_function = ''pgScale'', ovl_id = ''pgscale_string_double'', ovl_member = False,
         ovl_args = [StringType, DoubleType], ovl_result = StringType, ovl_binding = BinaryBinding (pgScale lib)\<rparr>,
        \<lparr>ovl_function = ''pgScale'', ovl_id = ''pgscale_string_int'', ovl_member = False,
         ovl_args = [StringType, IntType], ovl_result = StringType, ovl_binding = BinaryBinding (pgScale lib)\<rparr>]\<rparr>"

definition New :: "('e, 'a, 'p, 'q) cel_library \<Rightarrow> error + 'e" where
  "New lib = NewEnv lib (environment lib)"

section \<open>Between captured values and CEL\<close>

definition plainInteger :: "string \<Rightarrow> bool" where
  "plainInteger s = (let (_, ds) = split_sign s in ds \<noteq> [] \<and> list_all is_digit ds)"

definition plainDecimal :: "string \<Rightarrow> bool" where
  "plainDecimal s =
     (let (_, body) = split_sign s;
          whole = takeWhile is_digit body;
          (fraction, rest) = read_fraction (dropWhile is_digit body) in
      whole @ fraction \<noteq> [] \<and> read_exponent rest \<noteq> None)"

definition plain_value :: "string \<Rightarrow> 'q val" where
  "plain_value s =
     (if plainInteger s then (case ParseInt64 s of Inr i \<Rightarrow> CelInt i | Inl _ \<Rightarrow> CelString s)
      else if plainDecimal s then (case ParseFloat s of Inr x \<Rightarrow> CelDouble x | Inl _ \<Rightarrow> CelString s)
      else CelString s)"

text \<open>A decoded snapshot holds numbers as their text, so Go's \<open>int64\<close> and \<open>float64\<close> cases are unreachable.\<close>

definition ToCEL :: "('e, 'a, 'p, 'q) cel_library \<Rightarrow> json \<Rightarrow> bool \<Rightarrow> error + 'q val" where
  "ToCEL lib v quantity =
     (if v = JNull then Inl (Errorf ''the captured value is null'' [])
      else if quantity then
        (case v of
           JString s \<Rightarrow> map_sum id CelQuantity (ParseQuantity lib s)
         | JNumber s \<Rightarrow> map_sum id CelQuantity (ParseQuantity lib s)
         | _ \<Rightarrow> Inl (Errorf ''the captured value should be a quantity'' []))
      else
        (case v of
           JNumber s \<Rightarrow>
             (case ParseInt64 s of Inr i \<Rightarrow> Inr (CelInt i) | Inl _ \<Rightarrow> map_sum id CelDouble (ParseFloat s))
         | JString s \<Rightarrow> Inr (plain_value s)
         | JBool b \<Rightarrow> Inr (CelBool b)
         | _ \<Rightarrow> Inl (Errorf ''values of this type cannot be transformed'' [])))"

definition formatDouble :: "float64 \<Rightarrow> string" where
  "formatDouble x = FormatFloat x"

definition formatAsString :: "('e, 'a, 'p, 'q) cel_library \<Rightarrow> 'q val \<Rightarrow> error + string" where
  "formatAsString lib v =
     (case v of
        CelQuantity q \<Rightarrow> Inr (q_String lib q)
      | CelString s \<Rightarrow> Inr s
      | CelInt i \<Rightarrow> Inr (FormatInt i)
      | CelUint i \<Rightarrow> Inr (FormatInt i)
      | CelDouble x \<Rightarrow> Inr (formatDouble x)
      | CelBool b \<Rightarrow> Inr (if b then ''true'' else ''false'')
      | _ \<Rightarrow> Inl (Errorf ''a transform produced an unsupported result'' []))"

definition FromCEL :: "('e, 'a, 'p, 'q) cel_library \<Rightarrow> 'q val \<Rightarrow> json \<Rightarrow> error + json" where
  "FromCEL lib v source =
     (case source of
        JString _ \<Rightarrow> map_sum id JString (formatAsString lib v)
      | _ \<Rightarrow>
          (case v of
             CelQuantity q \<Rightarrow> Inr (JString (q_String lib q))
           | CelString s \<Rightarrow> Inr (JString s)
           | CelInt i \<Rightarrow> Inr (JNumber (FormatInt i))
           | CelUint i \<Rightarrow> Inr (JNumber (FormatInt i))
           | CelDouble x \<Rightarrow> Inr (JNumber (formatDouble x))
           | CelBool b \<Rightarrow> Inr (JBool b)
           | _ \<Rightarrow> Inl (Errorf ''a transform produced an unsupported result'' [])))"

section \<open>Compiling and evaluating\<close>

record 'p program =
  source :: string
  compiled :: 'p

definition Compile :: "('e, 'a, 'p, 'q) cel_library \<Rightarrow> 'e \<Rightarrow> string \<Rightarrow> error + 'p program" where
  "Compile lib env expression =
     (if expression = '''' then Inl (Errorf ''the expression is empty'' [])
      else (case Env_Compile lib env expression of
              Inl err \<Rightarrow> Inl err
            | Inr ast \<Rightarrow>
                (case Env_Program lib env ast MaxCost of
                   Inl err \<Rightarrow> Inl (Wrapped ''while preparing'' [expression] err)
                 | Inr p \<Rightarrow> Inr \<lparr>source = expression, compiled = p\<rparr>)))"

definition Evaluate :: "('e, 'a, 'p, 'q) cel_library \<Rightarrow> 'p program \<Rightarrow> json \<Rightarrow> bool \<Rightarrow> error + json" where
  "Evaluate lib p old quantity =
     (case ToCEL lib old quantity of
        Inl err \<Rightarrow> Inl (Wrapped ''cannot use the captured value in'' [source p] err)
      | Inr bound \<Rightarrow>
          (case Program_Eval lib (compiled p) [(''old'', bound)] of
             Inl err \<Rightarrow> Inl (Wrapped ''evaluating'' [source p] err)
           | Inr out \<Rightarrow> wrap '''' [source p] (FromCEL lib out old)))"

text \<open>What the restore rules use of it.\<close>

definition celenv_of :: "('e, 'a, 'p, 'q) cel_library \<Rightarrow> 'p program celenv" where
  "celenv_of lib =
     \<lparr>cel_New = (case New lib of Inl err \<Rightarrow> Some err | Inr _ \<Rightarrow> None),
      cel_Compile = (\<lambda>text. case New lib of Inl err \<Rightarrow> Inl err | Inr env \<Rightarrow> Compile lib env text),
      cel_Evaluate = Evaluate lib\<rparr>"


section \<open>Scaling\<close>

text \<open>
  A whole factor on a memory setting, or on a quantity, is exact while the amounts involved stay
  below \<open>2 ^ 53\<close>, although the code multiplies in floating point.
\<close>

lemma pgScale_exact:
  assumes "pg_unit u" "\<bar>i * unit_size u\<bar> < 2 ^ 53" "\<bar>k\<bar> < 2 ^ 53" "\<bar>i * unit_size u * k\<bar> < 2 ^ 53"
  shows "pgScale lib (CelString (FormatInt i @ canonicalUnit u)) (CelInt k) = CelString (FormatInt (i * k) @ canonicalUnit u)"
proof -
  have pos: "1 \<le> unit_size u" using unit_size_pos [OF assms(1)] by simp
  have "\<bar>i\<bar> * 1 \<le> \<bar>i\<bar> * unit_size u" by (rule mult_left_mono [OF pos]) simp
  then have "\<bar>i\<bar> < 2 ^ 53" using assms(2) pos by (simp add: abs_mult)
  then have small: "is_int64 i" "is_int64 (i * unit_size u)"
    using assms(2) by (auto simp: is_int64_def)
  have "int64_of_float (out_of_range lib) (fmul (float_of_int (i * unit_size u)) (float_of_int k)) = (i * k) * unit_size u"
    using whole_product_exact(1) [OF assms(4,2,3)] by (simp add: mult_ac)
  then show ?thesis
    using small FormatPgMemory_exact [OF assms(1), of "i * k"]
    by (simp add: pgScale_def asFloat_def ParsePgMemory_canonical [OF assms(1)] UnitOf_canonical [OF assms(1)])
qed

lemma scale_exact:
  assumes "\<bar>q_MilliValue lib q\<bar> < 2 ^ 53" "\<bar>k\<bar> < 2 ^ 53" "\<bar>q_MilliValue lib q * k\<bar> < 2 ^ 53"
  shows "scale lib q (float_of_int k) = Inr (q_NewMilli lib (q_MilliValue lib q * k) (q_Format lib q))"
  using whole_product_exact [OF assms(3,1,2)] exactly_finite [OF float_of_int_exact [OF assms(2)]]
  by (simp add: scale_def Let_def)

text \<open>At the bound itself the check lets the product through, and the conversion has no defined result.\<close>

lemma scale_boundary:
  assumes "q_MilliValue lib q = 2 ^ 62"
  shows "\<exists>x. trunc x = Some (2 ^ 63) \<and>
    scale lib q (float_of_int 2) = Inr (q_NewMilli lib (out_of_range lib x) (q_Format lib q))"
proof -
  define x where "x = Finite False (2 ^ 52) 11"
  have factor: "float_of_int 2 = Finite False (2 ^ 52) (- 51)" "fmul (float_of_int (2 ^ 62)) (float_of_int 2) = x"
    unfolding x_def by code_simp+
  moreover have "trunc x = Some (2 ^ 63)" "\<not> greater_than x (2 ^ 63)" "\<not> less_than x (- (2 ^ 63))"
    by (simp_all add: x_def signed_def)
  ultimately show ?thesis
    using assms by (intro exI [of _ x]) (simp add: scale_def int64_of_float_def is_int64_def)
qed

section \<open>Types of results\<close>

fun scalar :: "json \<Rightarrow> bool" where
  "scalar (JString _) = True"
| "scalar (JNumber _) = True"
| "scalar (JBool _) = True"
| "scalar _ = False"

fun is_string :: "json \<Rightarrow> bool" where
  "is_string (JString _) = True"
| "is_string _ = False"

lemma ToCEL_scalar: "ToCEL lib v quantity = Inr b \<Longrightarrow> scalar v"
  by (auto simp: ToCEL_def split: json.splits if_splits)

lemma FromCEL_scalar: "FromCEL lib v src = Inr r \<Longrightarrow> scalar r"
  by (auto simp: FromCEL_def formatAsString_def split: json.splits val.splits)

lemma FromCEL_string: "FromCEL lib v src = Inr r \<Longrightarrow> is_string src \<Longrightarrow> is_string r"
  by (cases src) (auto simp: FromCEL_def formatAsString_def split: val.splits)

text \<open>An evaluation takes scalars to scalars, and strings to strings whatever the expression yields.\<close>

lemma Evaluate_types:
  assumes "Evaluate lib p old quantity = Inr r"
  shows "scalar old" "scalar r" "is_string old \<Longrightarrow> is_string r"
  using assms ToCEL_scalar FromCEL_scalar FromCEL_string
  by (auto simp: Evaluate_def split: sum.splits)

text \<open>
  The identity expression \<open>old\<close> writes back what was captured, for numbers and numeric strings in
  their canonical spelling.
\<close>

lemma plain_FormatInt: "plainInteger (FormatInt i)"
proof (cases "i < 0")
  case False
  obtain c cs where "FormatUint (nat i) = c # cs" by (cases "FormatUint (nat i)") auto
  then show ?thesis
    using False FormatUint_no_sign [of "nat i" c cs] FormatUint_is_digits [of "nat i"]
    by (simp add: plainInteger_def FormatInt_def split_sign_def)
qed (simp add: plainInteger_def FormatInt_def split_sign_def)

lemma identity_integer:
  assumes "is_int64 i"
  shows "ToCEL lib (JString (FormatInt i)) False = Inr (CelInt i)" "ToCEL lib (JNumber (FormatInt i)) False = Inr (CelInt i)"
    "FromCEL lib (CelInt i) (JString s) = Inr (JString (FormatInt i))"
    "FromCEL lib (CelInt i) (JNumber s) = Inr (JNumber (FormatInt i))"
  using assms plain_FormatInt
  by (simp_all add: ToCEL_def plain_value_def ParseInt64_FormatInt FromCEL_def formatAsString_def)

lemma identity_text:
  assumes "\<not> plainInteger s" "\<not> plainDecimal s"
  shows "ToCEL lib (JString s) False = Inr (CelString s)" "FromCEL lib (CelString s) (JString s) = Inr (JString s)"
  using assms by (simp_all add: ToCEL_def plain_value_def FromCEL_def formatAsString_def)


section \<open>The contract of an expression engine\<close>

text \<open>
  What a restore relies on: an evaluation takes scalars to scalars, and strings to strings. Then every
  value a plan writes has the JSON type of the one it replaces, as far as CloudNativePG is strict about it.
\<close>

locale expression_engine =
  fixes env :: "'p celenv"
  assumes evaluates_scalars: "cel_Evaluate env p old quantity = Inr r \<Longrightarrow> scalar old \<and> scalar r"
    and evaluates_strings: "cel_Evaluate env p old quantity = Inr r \<Longrightarrow> is_string old \<Longrightarrow> is_string r"
begin

lemma transform_types:
  assumes "TransformSet_Apply C env t l = Some (Inr v)"
  shows "scalar (LeafValue l)" "scalar v" "is_string (LeafValue l) \<Longrightarrow> is_string v"
  using assms evaluates_scalars evaluates_strings
  by (auto simp: TransformSet_Apply_def split: option.splits)

lemma restored_type:
  assumes "restored_value C env t l = Inr v"
  shows "(is_string (LeafValue l) \<longrightarrow> is_string v) \<and> (scalar v \<longleftrightarrow> scalar (LeafValue l))"
  using assms transform_types [of C t l v] by (auto simp: restored_value_def split: option.splits)

lemma planned_type:
  assumes "BuildPlan C env (Some snap) skips t = Inr p" "content_ok (ContentOf snap)" "Plan_Apply p cluster = Inr cluster'"
    and "l \<in> set (WalkLeaves (restorableTree (ContentOf snap)))" "restored skips l"
  shows "\<exists>v. GetSegments cluster' (Segments l) = Some v
    \<and> (is_string (LeafValue l) \<longrightarrow> is_string v) \<and> (scalar v \<longleftrightarrow> scalar (LeafValue l))"
proof -
  obtain v where v: "restored_value C env t l = Inr v" using BuildPlan_changes(2) [OF assms(1,4,5)] by blast
  then show ?thesis using plan_takes_effect [OF assms] restored_type by blast
qed

end

interpretation cel: expression_engine "celenv_of lib" for lib
  by unfold_locales (use Evaluate_types in \<open>auto simp: celenv_of_def\<close>)

end
