(* ===== verification/Transform_Properties.thy ===== *)
theory Transform_Properties
  imports Cel_Environment Samples
begin

text \<open>
  Properties of transforms in the expression environment the code builds: the arithmetic on
  PostgreSQL memory settings and the JSON types of what a restore writes. The witnesses use an
  interpreter of one expression, which finds the function to call among those the environment declares.
\<close>

section \<open>A small CEL library\<close>

type_synonym sample_program = "int declarations \<times> string"

fun call :: "'q overload list \<Rightarrow> 'q val \<Rightarrow> 'q val \<Rightarrow> error + 'q val" where
  "call [] x y = Inl (Errorf ''undeclared reference'' [])"
| "call (f # fs) x y =
     (if ovl_id f = ''pgscale_string_int'' then
        (case ovl_binding f of
           BinaryBinding b \<Rightarrow> (case b x y of CelErr err \<Rightarrow> Inl err | v \<Rightarrow> Inr v)
         | UnaryBinding b \<Rightarrow> Inl (Errorf ''wrong arity'' []))
      else call fs x y)"

definition sample_library :: "(int declarations, sample_program, sample_program, int) cel_library" where
  "sample_library =
     \<lparr>NewEnv = Inr, Env_Compile = (\<lambda>env text. Inr (env, text)), Env_Program = (\<lambda>env ast cost. Inr ast),
      Program_Eval = (\<lambda>(env, text) vars.
        if text = ''pgScale(old, 2)'' then
          (case vars of (_, old) # _ \<Rightarrow> call (Functions env) old (CelInt 2) | [] \<Rightarrow> Inl (Errorf ''no such attribute'' []))
        else Inl (Errorf ''not supported'' [text])),
      MaybeNoSuchOverloadErr = (\<lambda>v. CelErr (Errorf ''no such overload'' [])),
      q_Parse = ParseInt64, q_String = FormatInt, q_Value = id, q_MilliValue = (\<lambda>q. 1000 * q),
      q_AsApproximateFloat64 = float_of_int, q_Cmp = (-), q_Format = (\<lambda>_. ''DecimalSI''),
      q_NewMilli = (\<lambda>m _. m div 1000), q_Add = (+), q_Sub = (-), out_of_range = (\<lambda>_. - (2 ^ 63))\<rparr>"

definition sample_scaling :: "sample_program program TransformSet" where
  "sample_scaling =
     \<lparr>byPath = [(''spec.postgresql.parameters.work_mem'',
         \<lparr>program = \<lparr>source = ''pgScale(old, 2)'', compiled = (environment sample_library, ''pgScale(old, 2)'')\<rparr>,
          onMissing = MissingFail\<rparr>)],
      order = [''spec.postgresql.parameters.work_mem'']\<rparr>"

lemma sample_scaling_compiled:
  "NewTransformSet (celenv_of sample_library)
     [\<lparr>Transform_Path = ''spec.postgresql.parameters.work_mem'', OnMissing = '''', Expression = ''pgScale(old, 2)''\<rparr>]
   = Inr sample_scaling"
  by (simp add: NewTransformSet_def celenv_of_def New_def Compile_def sample_library_def sample_scaling_def
      gmap_get_def)

lemma sample_scaled:
  "pgScale sample_library (CelString ''4MB'') (CelInt 2) = CelString ''8MB''"
  by code_simp

section \<open>Properties\<close>

text \<open>C38. Scaling a memory setting by a whole number gives that many times its amount in its own unit,
  exactly, while the bytes stay below \<open>2 ^ 53\<close>: the detour through floating point loses nothing.\<close>

theorem memory_settings_scale_exactly:
  assumes "pg_unit u" "\<bar>i * unit_size u\<bar> < 2 ^ 53" "\<bar>k\<bar> < 2 ^ 53" "\<bar>i * unit_size u * k\<bar> < 2 ^ 53"
  shows "pgScale lib (CelString (FormatInt i @ canonicalUnit u)) (CelInt k) = CelString (FormatInt (i * k) @ canonicalUnit u)"
  by (rule pgScale_exact [OF assms])

theorem memory_settings_scale_exactly_witness:
  "pgScale sample_library (CelString ''128MB'') (CelInt 3) = CelString ''384MB''"
proof -
  have "FormatInt 128 @ canonicalUnit ''M'' = ''128MB''" "FormatInt 384 @ canonicalUnit ''M'' = ''384MB''"
    "pg_unit ''M''" "unit_size ''M'' = 1048576"
    by code_simp+
  then show ?thesis using memory_settings_scale_exactly [of "''M''" 128 3 sample_library] by simp
qed

text \<open>C39. A byte count rendered in a unit is read back rounded towards zero by less than one unit, and
  a count other than zero never becomes zero, which PostgreSQL would read as disabling the setting.\<close>

theorem memory_setting_rounds_towards_zero:
  assumes "FormatPgMemory bytes letters = Inr t" "is_int64 bytes"
  shows "\<exists>v. ParsePgMemory t = Inr v \<and> \<bar>bytes - v\<bar> < unit_size (fst (normalizeUnit letters))
    \<and> \<bar>v\<bar> \<le> \<bar>bytes\<bar> \<and> 0 \<le> v * bytes \<and> (v = 0 \<longleftrightarrow> bytes = 0)"
proof -
  obtain u where u: "normalizeUnit letters = (u, True)" "pg_unit u" "t = FormatInt (go_div bytes (unit_size u)) @ canonicalUnit u"
    "go_div bytes (unit_size u) = 0 \<longrightarrow> bytes = 0"
    using FormatPgMemory_Inr [OF assms(1)] by metis
  let ?n = "go_div bytes (unit_size u)"
  let ?v = "?n * unit_size u"
  note pos = unit_size_pos [OF u(2)]
  note cut = go_div_towards_zero [OF pos, of bytes]
  have same_sign: "0 \<le> ?v * bytes" using mult_nonneg_nonneg [OF cut(3), of "unit_size u"] pos by (simp add: mult_ac)
  have "\<bar>?n\<bar> * 1 \<le> \<bar>?n\<bar> * unit_size u" using pos by (intro mult_left_mono) auto
  then have "\<bar>?n\<bar> \<le> \<bar>bytes\<bar>" using cut(2) pos by (simp add: abs_mult)
  then have "is_int64 ?n" "is_int64 ?v"
    using assms(2) cut(2,3) same_sign
    by (auto simp: is_int64_def abs_if zero_le_mult_iff split: if_splits)
  then have "ParsePgMemory t = Inr ?v" using ParsePgMemory_canonical [OF u(2)] u(3) by simp
  then show ?thesis using u(1,4) pos cut same_sign by auto
qed

theorem memory_setting_rounds_towards_zero_witness:
  "\<exists>v. ParsePgMemory ''3kB'' = Inr v \<and> \<bar>4000 - v\<bar> < 1024 \<and> \<bar>v\<bar> \<le> 4000 \<and> 0 < v"
proof -
  have "FormatPgMemory 4000 ''KB'' = Inr ''3kB''" "unit_size (fst (normalizeUnit ''KB'')) = 1024" by code_simp+
  then show ?thesis
    using memory_setting_rounds_towards_zero [of 4000 "''KB''" "''3kB''"] by (auto simp: is_int64_def zero_le_mult_iff)
qed

text \<open>C40. A restore keeps the JSON types CloudNativePG is strict about, whatever a policy's expressions
  yield: where the snapshot has a string, such as a setting of PostgreSQL, the restored Cluster has a
  string, and scalars stay apart from lists and objects.\<close>

theorem restore_keeps_json_types:
  assumes "decodeSnapshot sha raw key = Inr snap" "BuildPlan C (celenv_of lib) (Some snap) skips t = Inr p"
    and "Plan_Apply p cluster = Inr cluster'"
    and "l \<in> set (WalkLeaves (restorableTree (ContentOf snap)))" "restored skips l"
  shows "\<exists>v. GetSegments cluster' (Segments l) = Some v
    \<and> (is_string (LeafValue l) \<longrightarrow> is_string v) \<and> (scalar v \<longleftrightarrow> scalar (LeafValue l))"
  using cel.planned_type [OF assms(2) _ assms(3-5)] decodeSnapshot_verified [OF assms(1)] decode_snapshot_content_ok
  by blast

lemma sample_scaling_plan:
  "BuildPlan sample_cnpg (celenv_of sample_library) (Some sample_stored) sample_skips sample_scaling = Inr sample_plan"
  by code_simp

theorem restore_keeps_json_types_witness:
  "\<exists>v. GetSegments sample_restored [''spec'', ''postgresql'', ''parameters'', ''work_mem''] = Some v \<and> is_string v"
proof -
  obtain raw where raw: "decodeSnapshot sample_sha raw ''k'' = Inr sample_stored" using sample_accepted by blast
  let ?l = "\<lparr>Segments = [''spec'', ''postgresql'', ''parameters'', ''work_mem''], LeafValue = JString ''4MB''\<rparr>"
  have "List.member (WalkLeaves (restorableTree (ContentOf sample_stored))) ?l" "restored sample_skips ?l"
    by code_simp+
  then show ?thesis
    using restore_keeps_json_types [OF raw sample_scaling_plan sample_apply, of ?l] by (auto simp: List.member_iff)
qed

end
