(* ===== verification/Plugin_Runs.thy ===== *)
theory Plugin_Runs
  imports Retention_Sweep Capture_Hook S3_Backend
begin

text \<open>
  Runs of the whole plugin over one object store: \<open>Post\<close> hooks capturing Clusters, retention sweeps, restarts
  that lose the cache, and whatever else leaves the stored objects alone (status calls, admissions, time,
  edits in Kubernetes), in any order, with any write or deletion failing. Beside the store a run carries an
  archive that nobody reads: every object that was ever written, as if none had been deleted. The
  invariant relates the two, so that a selection inside every retention window so far answers from the store as it would
  from the archive. Calls are taken one at a time, as the operator and the controllers' queues make them.
\<close>

section \<open>A store whose writes may fail\<close>

locale faulty_store = pruned_store +
  fixes fits :: "bytes \<Rightarrow> bool"
  assumes put_attempts: "good w \<Longrightarrow> fits d \<Longrightarrow> \<exists>res w'. B_Put B k d w = (res, w') \<and> good w'
    \<and> (objs w' = (objs w)(k := Some d) \<or> res \<noteq> None \<and> objs w' = objs w)"

sublocale object_store \<subseteq> faulty_store B objs good fits
  by unfold_locales (use put_writes in blast)

text \<open>The S3 backend over a service whose writes and deletions may fail is such a store.\<close>

lemma within_bound_step:
  "within_bound objs w \<Longrightarrow> length d \<le> maxObjectSize \<Longrightarrow> objs w' = (objs w)(k := Some d) \<Longrightarrow> within_bound objs w'"
  "within_bound objs w \<Longrightarrow> objs w' = (objs w)(k := None) \<Longrightarrow> within_bound objs w'"
  "within_bound objs w \<Longrightarrow> objs w' = objs w \<Longrightarrow> within_bound objs w'"
  by (auto simp: within_bound_def)

lemma createBucket_outcome: "createBucket b w = (res, w') \<Longrightarrow> \<exists>e. CreateBucket (S3_client b) (S3_bucket b) w = (e, w')"
  by (auto simp: createBucket_def split: prod.splits option.splits if_splits)

lemma s3_Put_outcome:
  assumes "s3_unreliable (S3_client b) (S3_bucket b) pages objs good" "good w" "s3_Put b k d w = (res, w')"
  shows "good w' \<and> (objs w' = (objs w)(k := Some d) \<or> res \<noteq> None \<and> objs w' = objs w)"
proof -
  have put: "good v \<Longrightarrow> PutObject (S3_client b) (S3_bucket b) k d v = (e, v') \<Longrightarrow>
      good v' \<and> (objs v' = (objs v)(k := Some d) \<or> e \<noteq> None \<and> objs v' = objs v)" for v e v'
    using assms(1) unfolding s3_unreliable_def by (metis prod.inject)
  have create: "good v \<Longrightarrow> createBucket b v = (e, v') \<Longrightarrow> good v' \<and> objs v' = objs v" for v e v'
    using assms(1) createBucket_outcome unfolding s3_unreliable_def by (metis prod.inject)
  obtain e1 w1 where 1: "PutObject (S3_client b) (S3_bucket b) k d w = (e1, w1)"
    by (cases "PutObject (S3_client b) (S3_bucket b) k d w")
  note g1 = put [OF assms(2) 1]
  obtain e2 w2 where 2: "createBucket b w1 = (e2, w2)" by (cases "createBucket b w1")
  have g2: "good w2 \<and> objs w2 = objs w1" using create [OF _ 2] g1 by blast
  obtain e3 w3 where 3: "PutObject (S3_client b) (S3_bucket b) k d w2 = (e3, w3)"
    by (cases "PutObject (S3_client b) (S3_bucket b) k d w2")
  have g3: "good w3 \<and> (objs w3 = (objs w2)(k := Some d) \<or> e3 \<noteq> None \<and> objs w3 = objs w2)" using put [OF _ 3] g2 by blast
  have "w' = w1 \<and> (res = None \<longleftrightarrow> e1 = None) \<or> w' = w2 \<and> res \<noteq> None \<or> w' = w3 \<and> (res = None \<longleftrightarrow> e3 = None)"
    using assms(3) 1 2 3 by (auto simp: s3_Put_def putObject_def split: option.splits if_splits)
  then show ?thesis using g1 g2 g3 by auto
qed

lemma s3_unreliable_store:
  assumes "s3_unreliable (S3_client b) (S3_bucket b) (S3_page_limit b) objs good"
  shows "faulty_store (s3_backend b) objs (\<lambda>w. good w \<and> within_bound objs w) (\<lambda>d. length d \<le> maxObjectSize)"
proof (intro faulty_store.intro pruned_store.intro pruned_store_axioms.intro faulty_store_axioms.intro s3_reader)
  show "s3_reads (S3_client b) (S3_bucket b) (S3_page_limit b) objs good" using assms unfolding s3_unreliable_def by blast
  fix w k d
  assume w: "good w \<and> within_bound objs w"
  show "\<exists>res w'. B_Delete (s3_backend b) k w = (res, w') \<and> (good w' \<and> within_bound objs w')
      \<and> (objs w' = (objs w)(k := None) \<or> res \<noteq> None \<and> objs w' = objs w)"
  proof -
    obtain e w' where d: "DeleteObject (S3_client b) (S3_bucket b) k w = (e, w')" "good w'"
      "objs w' = (objs w)(k := None) \<or> (\<exists>err. e = Some err \<and> \<not> isNotFound err) \<and> objs w' = objs w"
      using assms w unfolding s3_unreliable_def by blast
    moreover have "within_bound objs w'"
      using d(3) within_bound_step(2,3) [where objs = objs and w = w and w' = w'] w by metis
    ultimately show ?thesis by (cases e) (auto simp: s3_Delete_def)
  qed
  show "\<exists>res w'. B_Put (s3_backend b) k d w = (res, w') \<and> (good w' \<and> within_bound objs w')
      \<and> (objs w' = (objs w)(k := Some d) \<or> res \<noteq> None \<and> objs w' = objs w)"
    if "length d \<le> maxObjectSize"
  proof -
    obtain res w' where p: "s3_Put b k d w = (res, w')" by (cases "s3_Put b k d w")
    have o: "good w' \<and> (objs w' = (objs w)(k := Some d) \<or> res \<noteq> None \<and> objs w' = objs w)"
      by (rule s3_Put_outcome [OF assms _ p]) (use w in simp)
    then have "within_bound objs w'"
      using within_bound_step(1,3) [where objs = objs and w = w and w' = w'] that w by metis
    with p o show ?thesis by auto
  qed
qed

section \<open>The archive\<close>

text \<open>What is written: snapshots directly under a history's prefix, and the pointers.\<close>

definition plugin_key :: "Layout set \<Rightarrow> string \<Rightarrow> bool" where
  "plugin_key L k \<longleftrightarrow> (\<exists>l \<in> L. k = LatestKey l \<or> (\<exists>n. k = SnapshotsPrefix l @ n \<and> n \<noteq> '''' \<and> CHR ''/'' \<notin> set n))"

text \<open>No history lies inside another.\<close>

definition histories_apart :: "Layout set \<Rightarrow> bool" where
  "histories_apart L \<longleftrightarrow> (\<forall>l \<in> L. \<forall>l' \<in> L. HasPrefix (SnapshotsPrefix l) (SnapshotsPrefix l') \<longrightarrow>
     SnapshotsPrefix l = SnapshotsPrefix l')"

text \<open>The store answers as the archive does from the moment \<open>t\<close> on.\<close>

definition archived :: "Layout set \<Rightarrow> time \<Rightarrow> (string \<Rightarrow> bytes option) \<Rightarrow> (string \<Rightarrow> bytes option) \<Rightarrow> bool" where
  "archived L t archive stored \<longleftrightarrow>
     keeps_answers t archive stored \<and> finite (dom archive) \<and> (\<forall>l \<in> L. flat_history archive l)"

lemma without_subset: "stored = without D archive \<Longrightarrow> archive ++ stored = archive"
  by (auto simp: without_def map_add_def fun_eq_iff split: option.splits)

lemma without_put: "stored = without D archive \<Longrightarrow> archive ++ stored(k := Some d) = archive(k := Some d)"
  by (auto simp: without_def map_add_def fun_eq_iff split: option.splits)

lemma finite_refs: "finite (dom A) \<Longrightarrow> finite (refs_of A l)"
proof -
  assume "finite (dom A)"
  moreover have "Key ` refs_of A l \<subseteq> dom A" by (auto simp: refs_of_def)
  moreover have "inj_on Key (refs_of A l)"
    by (rule inj_onI) (auto simp: refs_of_def)
  ultimately show ?thesis by (meson finite_imageD finite_subset)
qed

lemma refs_of_put:
  "refs_of (A(k := Some d)) l = refs_of A l \<union> {r. Key r = k \<and> HasPrefix k (SnapshotsPrefix l)
     \<and> ParseSnapshotKey k = Inr (Ref_CapturedAt r, Ref_Generation r)}"
  by (auto simp: refs_of_def)

text \<open>The newest element of a finite set stays a newest one when both sides gain the same elements.\<close>

lemma chosen_maximum:
  assumes "finite (refs_of A l)" "r \<in> refs_of A l" "Ref_CapturedAt r \<le> m"
  obtains r' where "chosen A l m r'" "ref_order r \<le> ref_order r'"
proof -
  let ?S = "{r \<in> refs_of A l. Ref_CapturedAt r \<le> m}"
  have S: "finite (ref_order ` ?S)" "ref_order ` ?S \<noteq> {}" using assms by auto
  obtain r' where r': "r' \<in> ?S" "ref_order r' = Max (ref_order ` ?S)"
    using Max_in [OF S] by (metis (mono_tags, lifting) imageE)
  then have "\<forall>x \<in> ?S. ref_order x \<le> ref_order r'" using S by simp
  then have "chosen A l m r'" using r'(1) by (simp add: chosen_def)
  moreover have "ref_order r \<le> ref_order r'" using \<open>\<forall>x \<in> ?S. ref_order x \<le> ref_order r'\<close> assms(2,3) by simp
  ultimately show thesis by (rule that)
qed

lemma chosen_put:
  assumes "finite (refs_of A l)" "refs_of O' l \<subseteq> refs_of A l" "\<And>r. chosen O' l m r \<longleftrightarrow> chosen A l m r"
  shows "chosen (O'(k := Some d)) l m r \<longleftrightarrow> chosen (A(k := Some d)) l m r"
proof -
  let ?R = "{r. Key r = k \<and> HasPrefix k (SnapshotsPrefix l) \<and> ParseSnapshotKey k = Inr (Ref_CapturedAt r, Ref_Generation r)}"
  have refs: "refs_of (A(k := Some d)) l = refs_of A l \<union> ?R" "refs_of (O'(k := Some d)) l = refs_of O' l \<union> ?R"
    by (simp_all add: refs_of_put)
  show ?thesis
  proof
    assume c: "chosen (O'(k := Some d)) l m r"
    have "ref_order r' \<le> ref_order r" if in_range: "r' \<in> refs_of A l" "Ref_CapturedAt r' \<le> m" for r'
    proof -
      obtain x where x: "chosen A l m x" "ref_order r' \<le> ref_order x" using chosen_maximum [OF assms(1) in_range] by blast
      then have "x \<in> refs_of O' l" "Ref_CapturedAt x \<le> m" using assms(3) by (auto simp: chosen_def)
      then have "ref_order x \<le> ref_order r" using c by (simp add: chosen_def refs)
      with x(2) show ?thesis by simp
    qed
    then show "chosen (A(k := Some d)) l m r" using c assms(2) by (auto simp: chosen_def refs)
  next
    assume c: "chosen (A(k := Some d)) l m r"
    have "r \<in> refs_of O' l \<union> ?R"
    proof (cases "r \<in> refs_of A l")
      case True
      then have "chosen A l m r" using c by (auto simp: chosen_def refs)
      then have "chosen O' l m r" using assms(3) by blast
      then show ?thesis by (simp add: chosen_def)
    next
      case False
      then show ?thesis using c by (auto simp: chosen_def refs)
    qed
    then show "chosen (O'(k := Some d)) l m r" using c assms(2) by (auto simp: chosen_def refs)
  qed
qed

lemma keeps_answers_put:
  assumes "keeps_answers t A O'" "finite (dom A)"
  shows "keeps_answers t (A(k := Some d)) (O'(k := Some d))"
proof -
  obtain D where D: "O' = without D A" "\<forall>k \<in> D. \<exists>x. ParseSnapshotKey k = Inr x"
    and same: "\<And>l m r. flat_history A l \<Longrightarrow> t \<le> m \<Longrightarrow> chosen O' l m r \<longleftrightarrow> chosen A l m r"
    using assms(1) unfolding keeps_answers_def by blast
  have "chosen (O'(k := Some d)) l m r \<longleftrightarrow> chosen (A(k := Some d)) l m r"
    if "flat_history (A(k := Some d)) l" "t \<le> m" for l m r
  proof (rule chosen_put [OF finite_refs [OF assms(2)]])
    show "refs_of O' l \<subseteq> refs_of A l" unfolding D(1) refs_of_without by blast
    have "flat_history A l" using that(1) by (simp add: flat_history_def refs_of_put)
    then show "chosen O' l m r \<longleftrightarrow> chosen A l m r" for r using same that(2) by blast
  qed
  moreover have "O'(k := Some d) = without (D - {k}) (A(k := Some d))"
    by (auto simp: D(1) without_def)
  ultimately show ?thesis unfolding keeps_answers_def using D(2) by (intro exI [of _ "D - {k}"]) auto
qed

text \<open>A prefix that ends in a slash and begins a key is a prefix of its directory.\<close>

lemma prefix_directory:
  assumes "HasPrefix (p @ n) (q @ ''/'')" "CHR ''/'' \<notin> set n"
  shows "HasPrefix p (q @ ''/'')"
proof -
  obtain r where "p @ n = (q @ ''/'') @ r" using assms(1) by (auto simp: HasPrefix_iff)
  then obtain z where "p = (q @ ''/'') @ z \<and> z @ n = r \<or> p @ z = q @ ''/'' \<and> n = z @ r"
    using append_eq_append_conv2 [of p n "q @ ''/''" r] by blast
  then show ?thesis
  proof
    assume z: "p @ z = q @ ''/'' \<and> n = z @ r"
    show ?thesis
    proof (cases "z = []")
      case False
      then have "last z = last (q @ ''/'')" using z by (metis last_appendR)
      then have "CHR ''/'' \<in> set z" using last_in_set [OF False] by simp
      with z assms(2) show ?thesis by simp
    qed (use z in \<open>simp add: HasPrefix_iff\<close>)
  qed (simp add: HasPrefix_iff)
qed

lemma flat_history_put:
  assumes "histories_apart L" "plugin_key L k" "l \<in> L" "flat_history A l"
  shows "flat_history (A(k := Some d)) l"
  unfolding flat_history_def
proof
  fix r assume r: "r \<in> refs_of (A(k := Some d)) l"
  show "direct_ref (butlast (SnapshotsPrefix l)) r"
  proof (cases "r \<in> refs_of A l")
    case True
    then show ?thesis using assms(4) by (simp add: flat_history_def)
  next
    case False
    with r have new: "Key r = k" "HasPrefix k (SnapshotsPrefix l)" "ParseSnapshotKey k = Inr (Ref_CapturedAt r, Ref_Generation r)"
      by (auto simp: refs_of_put)
    obtain l' where "l' \<in> L" and kind: "k = LatestKey l' \<or> (\<exists>n. k = SnapshotsPrefix l' @ n \<and> n \<noteq> '''' \<and> CHR ''/'' \<notin> set n)"
      using assms(2) by (auto simp: plugin_key_def)
    moreover have "k \<noteq> LatestKey l'" using LatestKey_not_parsed [of l'] new(3) by auto
    ultimately obtain n where n: "k = SnapshotsPrefix l' @ n" "n \<noteq> ''''" "CHR ''/'' \<notin> set n" by blast
    obtain p where p: "SnapshotsPrefix l = p @ ''/''" using SnapshotsPrefix_slash by blast
    have "HasPrefix (SnapshotsPrefix l') (SnapshotsPrefix l)"
      using prefix_directory [of "SnapshotsPrefix l'" n p] new(2) n p by simp
    then have "SnapshotsPrefix l' = SnapshotsPrefix l"
      using assms(1,3) \<open>l' \<in> L\<close> by (simp add: histories_apart_def)
    then show ?thesis using n p new by (simp add: direct_ref_def)
  qed
qed

lemma archived_put:
  assumes "archived L t archive stored" "histories_apart L" "plugin_key L k"
  shows "archived L t (archive ++ stored(k := Some d)) (stored(k := Some d))"
proof -
  obtain D where "stored = without D archive" using assms(1) unfolding archived_def keeps_answers_def by blast
  then have "archive ++ stored(k := Some d) = archive(k := Some d)" by (rule without_put)
  then show ?thesis
    using assms keeps_answers_put flat_history_put by (simp add: archived_def)
qed

lemma archived_same: "archived L t archive stored \<Longrightarrow> archive ++ stored = archive"
  using without_subset unfolding archived_def keeps_answers_def by blast

text \<open>What flatness of the archive says of the store.\<close>

lemma archived_flat: "archived L t archive stored \<Longrightarrow> l \<in> L \<Longrightarrow> flat_history stored l"
  using flat_history_without unfolding archived_def keeps_answers_def by blast

text \<open>What a selection promises of a set of objects, as \<open>latest_in\<close> does of \<open>Latest\<close>.\<close>

definition selected_in :: "(bytes \<Rightarrow> string) \<Rightarrow> Layout \<Rightarrow> (string \<Rightarrow> bytes option) \<Rightarrow> time \<Rightarrow> Resolution \<Rightarrow> bool" where
  "selected_in sha l objs moment res \<longleftrightarrow>
     (\<exists>x raw. chosen objs l moment x \<and> objs (Key x) = Some raw
       \<and> decodeSnapshot sha raw (Key x) = Inr (Res_Snapshot res) \<and> Res_Key res = Key x \<and> Res_Target res = None)"

text \<open>A later window asks for less.\<close>

lemma keeps_answers_mono:
  assumes "keeps_answers t a b" "t \<le> t'"
  shows "keeps_answers t' a b"
proof -
  obtain D where "b = without D a" "\<forall>k \<in> D. \<exists>x. ParseSnapshotKey k = Inr x"
    "\<And>l m r. flat_history a l \<Longrightarrow> t \<le> m \<Longrightarrow> chosen b l m r \<longleftrightarrow> chosen a l m r"
    using assms(1) unfolding keeps_answers_def by blast
  moreover have "t \<le> m" if "t' \<le> m" for m using assms(2) that by simp
  ultimately show ?thesis unfolding keeps_answers_def by (intro exI [of _ D]) simp
qed

lemma archived_sweep:
  assumes "archived L t archive stored" "keeps_answers cutoff stored stored'"
  shows "archived L (max t cutoff) (archive ++ stored') stored'"
proof -
  have "keeps_answers t archive stored" using assms(1) by (simp add: archived_def)
  then have "keeps_answers (max t cutoff) archive stored" by (rule keeps_answers_mono) simp
  moreover have "keeps_answers (max t cutoff) stored stored'" by (rule keeps_answers_mono [OF assms(2)]) simp
  ultimately have k: "keeps_answers (max t cutoff) archive stored'" by (rule keeps_answers_trans)
  then obtain D where "stored' = without D archive" unfolding keeps_answers_def by blast
  then have "archive ++ stored' = archive" by (rule without_subset)
  with k assms(1) show ?thesis by (simp add: archived_def)
qed


section \<open>What a capture does to the store\<close>

text \<open>Nothing, a snapshot whose pointer could not be written, or both.\<close>

definition one_capture :: "Layout set \<Rightarrow> (string \<Rightarrow> bytes option) \<Rightarrow> (string \<Rightarrow> bytes option) \<Rightarrow> bool" where
  "one_capture L before after \<longleftrightarrow> after = before \<or>
     (\<exists>l \<in> L. \<exists>n d. n \<noteq> '''' \<and> CHR ''/'' \<notin> set n
       \<and> (after = before(SnapshotsPrefix l @ n := Some d)
          \<or> after = before(SnapshotsPrefix l @ n := Some d, LatestKey l := Some d)))"

lemma archived_capture:
  assumes "archived L t archive stored" "histories_apart L" "one_capture L stored stored'"
  shows "archived L t (archive ++ stored') stored'"
proof -
  consider "stored' = stored"
    | l n d where "l \<in> L" "n \<noteq> ''''" "CHR ''/'' \<notin> set n" "stored' = stored(SnapshotsPrefix l @ n := Some d)"
    | l n d where "l \<in> L" "n \<noteq> ''''" "CHR ''/'' \<notin> set n"
        "stored' = stored(SnapshotsPrefix l @ n := Some d, LatestKey l := Some d)"
    using assms(3) unfolding one_capture_def by blast
  then show ?thesis
  proof cases
    case 1
    then show ?thesis using assms(1) archived_same [OF assms(1)] by simp
  next
    case 2
    then have "plugin_key L (SnapshotsPrefix l @ n)" unfolding plugin_key_def by blast
    then show ?thesis using archived_put [OF assms(1,2)] 2(4) by simp
  next
    case 3
    let ?s = "stored(SnapshotsPrefix l @ n := Some d)"
    have keys: "plugin_key L (SnapshotsPrefix l @ n)" "plugin_key L (LatestKey l)"
      using 3(1-3) unfolding plugin_key_def by blast+
    have "(archive ++ ?s) ++ ?s(LatestKey l := Some d) = archive ++ ?s(LatestKey l := Some d)"
      by (auto simp: map_add_def fun_eq_iff split: option.splits)
    then show ?thesis
      using archived_put [OF archived_put [OF assms(1,2) keys(1)] assms(2) keys(2), of d d] 3(4) by simp
  qed
qed

lemma snapshot_key_name:
  assumes "keyable snap"
  obtains n where "snapshot_key l snap = SnapshotsPrefix l @ n" "n \<noteq> ''''" "CHR ''/'' \<notin> set n"
  using key_name_no_slash [of "CapturedAt snap" "Generation snap" "shortHash (Checksum_of snap)"] assms that
  by (auto simp: snapshot_key_def SnapshotKey_def keyable_def)

lemma Extract_keyable:
  assumes "Extract C sha now (Some cluster) \<lparr>Opt_Groups = gs, Opt_PluginVersion = v, Opt_Now = 0\<rparr> = Inr snap"
    and "four_digit_year now" "generation_fits (Cluster_Generation cluster)"
    and "\<And>e. 8 \<le> length (sha e) \<and> list_all is_hex (sha e)"
  shows "keyable snap"
proof -
  obtain content where "Checksum sha content = Inr (Checksum_of snap)"
    and s: "CapturedAt snap = now" "Generation snap = Cluster_Generation cluster"
    using assms(1) by (auto simp: Extract_def Let_def ExtractOptions_now_def split: sum.splits)
  then have "\<exists>e. digest sha e = Checksum_of snap" unfolding Checksum_def by (cases "Canonical content") auto
  then obtain e where "digest sha e = Checksum_of snap" by blast
  then show ?thesis using s assms(2,3) shortHash_digest [of sha e] assms(4) [of e] by (simp add: keyable_def)
qed

context faulty_store
begin

lemma Write_attempts:
  assumes "good w" "Store_Backend s = B" "Store_Layout s \<in> L" "keyable snap"
    and "\<And>raw. encode_snapshot snap = Inr raw \<Longrightarrow> fits raw" "Write s snap w = (res, w')"
  shows "good w' \<and> one_capture L (objs w) (objs w')"
proof (cases "encode_snapshot snap")
  case (Inr raw)
  let ?k = "snapshot_key (Store_Layout s) snap" and ?l = "LatestKey (Store_Layout s)"
  obtain n where n: "?k = SnapshotsPrefix (Store_Layout s) @ n" "n \<noteq> ''''" "CHR ''/'' \<notin> set n"
    using snapshot_key_name [OF assms(4)] by blast
  obtain e1 w1 where 1: "B_Put B ?k raw w = (e1, w1)" "good w1"
    "objs w1 = (objs w)(?k := Some raw) \<or> e1 \<noteq> None \<and> objs w1 = objs w"
    using put_attempts [OF assms(1) assms(5) [OF Inr], of ?k] by blast
  obtain e2 w2 where 2: "B_Put B ?l raw w1 = (e2, w2)" "good w2"
    "objs w2 = (objs w1)(?l := Some raw) \<or> e2 \<noteq> None \<and> objs w2 = objs w1"
    using put_attempts [OF 1(2) assms(5) [OF Inr], of ?l] by blast
  have single: "one_capture L (objs w) ((objs w)(?k := Some raw))"
    and both: "one_capture L (objs w) ((objs w)(?k := Some raw, ?l := Some raw))"
    using n assms(3) unfolding one_capture_def n(1) by blast+
  have same: "one_capture L (objs w) (objs w)" by (simp add: one_capture_def)
  show ?thesis
  proof (cases e1)
    case (Some err)
    then have "w' = w1" using assms(2,6) Inr 1(1) by (simp add: Write_def Let_def)
    then show ?thesis using 1 single same by auto
  next
    case None
    then have "w' = w2" using assms(2,6) Inr 1(1) 2(1) by (auto simp: Write_def Let_def split: option.splits)
    moreover have "objs w1 = (objs w)(?k := Some raw)" using None 1(3) by simp
    ultimately show ?thesis using 2 single both by auto
  qed
qed (use assms in \<open>simp add: Write_def one_capture_def\<close>)

lemma Latest_reads:
  assumes "good w" "Store_Backend s = B" "Latest sha s w = (res, w')"
  shows "good w' \<and> objs w' = objs w"
  using Latest_refines [OF assms(1,2), of sha] assms(3) by auto

lemma capture_attempts:
  assumes "good w" "Store_Backend s = B" "Store_Layout s \<in> L" "keyable snap"
    and "\<And>raw. encode_snapshot snap = Inr raw \<Longrightarrow> fits raw" "capture H cluster fp snap s c w = (res, c', w')"
  shows "good w' \<and> one_capture L (objs w) (objs w')"
proof -
  obtain latest w1 where l: "Latest (H_sha H) s w = (latest, w1)" by (cases "Latest (H_sha H) s w")
  have kept: "good w1" "objs w1 = objs w" using Latest_reads [OF assms(1,2) l] by simp_all
  obtain written w2 where wr: "Write s snap w1 = (written, w2)" by (cases "Write s snap w1")
  have "w' = w1 \<or> w' = w2"
    using assms(6) l wr by (auto simp: capture_def Let_def split: sum.splits prod.splits if_splits)
  moreover have "good w2 \<and> one_capture L (objs w) (objs w2)"
    using Write_attempts [OF kept(1) assms(2-5) wr] kept(2) by simp
  ultimately show ?thesis using kept by (auto simp: one_capture_def)
qed

end


section \<open>Runs\<close>

text \<open>The window a reconcile enforces: everything before this moment may be swept.\<close>

definition reconcile_cutoff :: "'w store_reconciler \<Rightarrow> named \<Rightarrow> 'w \<Rightarrow> time option" where
  "reconcile_cutoff r req w =
     (case C_Get r req w of
        (Inl err, w) \<Rightarrow> None
      | (Inr object, w) \<Rightarrow>
     (case check (C_Resolver r) (Store_Spec object) w of
        (Inl verdict, w) \<Rightarrow> None
      | (Inr checked, w) \<Rightarrow>
          if checked_retention checked = 0 \<or> bucketMissing checked then None
          else Some (C_now r (snd (C_ListClusters r (Store_Namespace (Store_Spec object)) w)) + int64 (- checked_retention checked))))"

text \<open>
  A run in a state: the bound behind which sweeps have been, the archive, the cache and the world. It starts
  at any store whose histories are flat. A restart empties the cache; everything outside the two
  handlers leaves the objects alone.
\<close>

inductive plugin_run ::
  "('w \<Rightarrow> string \<Rightarrow> bytes option) \<Rightarrow> ('w \<Rightarrow> bool) \<Rightarrow> 'w hooks \<Rightarrow> 'w store_reconciler \<Rightarrow> Layout set \<Rightarrow>
     time \<Rightarrow> (string \<Rightarrow> bytes option) \<Rightarrow> settledCache option \<Rightarrow> 'w \<Rightarrow> bool"
  for objs good H r L where
  start: "good w \<Longrightarrow> finite (dom (objs w)) \<Longrightarrow> \<forall>l \<in> L. flat_history (objs w) l \<Longrightarrow> plugin_run objs good H r L t (objs w) c w"
| post: "plugin_run objs good H r L t archive c w \<Longrightarrow> Post H request c w = (res, c', w') \<Longrightarrow>
    plugin_run objs good H r L t (archive ++ objs w') c' w'"
| reconcile: "plugin_run objs good H r L t archive c w \<Longrightarrow> Reconcile_store r req w = (outcome, w') \<Longrightarrow>
    plugin_run objs good H r L (case reconcile_cutoff r req w of None \<Rightarrow> t | Some cutoff \<Rightarrow> max t cutoff) (archive ++ objs w') c w'"
| restart: "plugin_run objs good H r L t archive c w \<Longrightarrow> plugin_run objs good H r L t archive (Some newSettledCache) w"
| other: "plugin_run objs good H r L t archive c w \<Longrightarrow> objs w' = objs w \<Longrightarrow> good w' \<Longrightarrow> plugin_run objs good H r L t archive c w'"

text \<open>
  How the plugin is wired to one store: what the Kubernetes clients and the resolver leave alone, where
  the clusters and ConfigStores that occur archive to, and the shape of hashes and times.
\<close>

locale plugin_wiring = faulty_store B objs good fits
  for B :: "'w Backend" and objs :: "'w \<Rightarrow> string \<Rightarrow> bytes option" and good :: "'w \<Rightarrow> bool" and fits :: "bytes \<Rightarrow> bool" +
  fixes H :: "'w hooks" and r :: "'w store_reconciler" and L :: "Layout set"
  assumes apart: "histories_apart L"
    and hashes: "8 \<le> length (H_sha H e) \<and> list_all is_hex (H_sha H e)"
    and times: "four_digit_year (H_now H w)"
    and generations: "H_DecodeCluster H raw = Inr cluster \<Longrightarrow> generation_fits (Cluster_Generation cluster)"
    and held: "H_DecodeCluster H raw = Inr cluster \<Longrightarrow>
      Extract (H_cnpg H) (H_sha H) (H_now H w) (Some cluster) opts = Inr snap \<Longrightarrow> encode_snapshot snap = Inr d \<Longrightarrow> fits d"
    and hook_reads: "good w \<Longrightarrow> H_ConfigStore H k w = (cs, w1) \<Longrightarrow> good w1 \<and> objs w1 = objs w"
    and hook_opens: "good w \<Longrightarrow> H_DecodeCluster H raw = Inr cluster \<Longrightarrow>
      H_ConfigStore H (SaveToKey (NewFromCluster cluster)) w = (Inr configStore, w1) \<Longrightarrow>
      Open (H_Resolver H) configStore (SaveToServer (NewFromCluster cluster)) w1 = (res, w2) \<Longrightarrow>
      good w2 \<and> objs w2 = objs w1 \<and> (\<forall>s. res = Inr s \<longrightarrow> Store_Backend s = B \<and> Store_Layout s \<in> L)"
    and store_reads: "good w \<Longrightarrow> C_Get r req w = (object, w1) \<Longrightarrow> good w1 \<and> objs w1 = objs w"
    and check_reads: "good w \<Longrightarrow> check (C_Resolver r) configStore w = (verdict, w1) \<Longrightarrow> good w1 \<and> objs w1 = objs w"
    and clusters_read: "good w \<Longrightarrow> C_ListClusters r namespace w = (clusters, w1) \<Longrightarrow> good w1 \<and> objs w1 = objs w"
    and patch_apart: "good w \<Longrightarrow> C_PatchStatus r original updated w = (err, w1) \<Longrightarrow> good w1 \<and> objs w1 = objs w"
    and swept_here: "good w \<Longrightarrow> C_Get r req w = (Inr original, w1) \<Longrightarrow>
      check (C_Resolver r) (Store_Spec original) w1 = (Inr checked, w2) \<Longrightarrow>
      C_ListClusters r (Store_Namespace (Store_Spec original)) w2 = (Inr listed, w3) \<Longrightarrow>
      checked_backend checked = B \<and> (\<forall>x \<in> set listed. saves_to (Store_Spec original) x \<longrightarrow>
        LayoutFor (Store_Spec original) (checked_resolved checked) (SaveToServer (NewFromCluster x)) \<in> L)"
begin

lemma Post_cluster_attempts:
  assumes "good w" "H_DecodeCluster H raw = Inr cluster" "Post_cluster H cluster c w = (res, c', w')"
  shows "good w' \<and> one_capture L (objs w) (objs w')"
proof -
  let ?conf = "NewFromCluster cluster"
  have same: "good v \<Longrightarrow> objs v = objs w \<Longrightarrow> good v \<and> one_capture L (objs w) (objs v)" for v by (simp add: one_capture_def)
  show ?thesis
  proof (cases "IsSaveEnabled ?conf")
    case True
    obtain cs w1 where k: "H_ConfigStore H (SaveToKey ?conf) w = (cs, w1)" by (cases "H_ConfigStore H (SaveToKey ?conf) w")
    have w1: "good w1" "objs w1 = objs w" using hook_reads [OF assms(1) k] by simp_all
    show ?thesis
    proof (cases cs)
      case (Inl e)
      then have "w' = w1" using assms(3) True k by (auto simp: Post_cluster_def split: if_splits)
      then show ?thesis using same w1 by simp
    next
      case (Inr configStore)
      note k = k [unfolded Inr]
      obtain fp where fp: "liveFingerprint H cluster (GetCaptureGroups configStore) = Inr fp" using liveFingerprint_total by blast
      let ?opts = "\<lparr>Opt_Groups = GetCaptureGroups configStore, Opt_PluginVersion = H_Version H, Opt_Now = 0\<rparr>"
      let ?snap = "Extract (H_cnpg H) (H_sha H) (H_now H w1) (Some cluster) ?opts"
      obtain st w2 where o: "Open (H_Resolver H) configStore (SaveToServer ?conf) w1 = (st, w2)"
        by (cases "Open (H_Resolver H) configStore (SaveToServer ?conf) w1")
      have w2: "good w2" "objs w2 = objs w" "\<And>s. st = Inr s \<Longrightarrow> Store_Backend s = B \<and> Store_Layout s \<in> L"
        using hook_opens [OF assms(1,2) k o] w1(2) by simp_all
      consider "w' = w1" | "w' = w2"
        | snap s where "?snap = Inr snap" "st = Inr s" "capture H cluster fp snap s c w2 = (res, c', w')"
        using assms(3) True k fp o
        by (cases ?snap; cases st) (auto simp: Post_cluster_def Let_def split: if_splits)
      then show ?thesis
      proof cases
        case (3 snap s)
        have "keyable snap" by (rule Extract_keyable [OF 3(1) times generations [OF assms(2)] hashes])
        then show ?thesis
          using capture_attempts [OF w2(1) _ _ _ held [OF assms(2) 3(1)] 3(3), of L] w2(2) w2(3) [OF 3(2)] by simp
      qed (use same w1 w2 in simp_all)
    qed
  qed (use same assms in \<open>simp add: Post_cluster_def\<close>)
qed

lemma Post_attempts:
  assumes "good w" "Post H request c w = (res, c', w')"
  shows "good w' \<and> one_capture L (objs w) (objs w')"
proof (cases "\<exists>cluster. H_DecodeCluster H (ClusterDefinition request) = Inr cluster \<and> Post_cluster H cluster c w = (res, c', w')")
  case True
  then show ?thesis using Post_cluster_attempts [OF assms(1)] by blast
next
  case False
  then have "w' = w" using assms(2) by (auto simp: Post_def split: sum.splits if_splits)
  then show ?thesis using assms(1) by (simp add: one_capture_def)
qed

end


context plugin_wiring
begin

lemma Reconcile_archived:
  assumes "good w" "archived L t archive (objs w)" "Reconcile_store r req w = (outcome, w')"
  shows "good w' \<and> archived L (case reconcile_cutoff r req w of None \<Rightarrow> t | Some cutoff \<Rightarrow> max t cutoff)
    (archive ++ objs w') (objs w')"
proof -
  have same: "good v \<and> archived L t (archive ++ objs v) (objs v)" if "good v" "objs v = objs w" for v
    using that assms(2) archived_same [OF assms(2)] by simp
  obtain original w1 where g: "C_Get r req w = (original, w1)" by (cases "C_Get r req w")
  have w1: "good w1" "objs w1 = objs w" using store_reads [OF assms(1) g] by simp_all
  show ?thesis
  proof (cases original)
    case (Inl err)
    then have "w' = w1" "reconcile_cutoff r req w = None"
      using assms(3) g by (simp_all add: Reconcile_store_def reconcile_cutoff_def)
    then show ?thesis using same w1 by simp
  next
    case (Inr object)
    note g = g [unfolded Inr]
    let ?spec = "Store_Spec object"
    obtain verdict w2 where v: "check (C_Resolver r) ?spec w1 = (verdict, w2)" by (cases "check (C_Resolver r) ?spec w1")
    have w2: "good w2" "objs w2 = objs w" using check_reads [OF w1(1) v] w1(2) by simp_all
    let ?swept = "case verdict of Inl _ \<Rightarrow> w2 | Inr checked \<Rightarrow> enforceRetention r ?spec checked w2"
    have patched: "good w' \<and> objs w' = objs ?swept" if "good ?swept"
    proof -
      let ?upd = "object\<lparr>Store_Status := status_after (C_SetStatusCondition r) (C_now r w2) verdict object\<rparr>"
      have "snd (patchStatus r object ?upd ?swept) = w'"
        using assms(3) g v by (auto simp: Reconcile_store_def Let_def split: prod.splits option.splits)
      then show ?thesis
        using that patch_apart [OF that]
        by (cases "C_PatchStatus r object ?upd ?swept") (auto simp: patchStatus_def split: if_splits)
    qed
    let ?t = "case reconcile_cutoff r req w of None \<Rightarrow> t | Some cutoff \<Rightarrow> max t cutoff"
    have "good ?swept \<and> archived L ?t (archive ++ objs ?swept) (objs ?swept)"
    proof (cases "\<exists>checked. verdict = Inr checked \<and> checked_retention checked \<noteq> 0 \<and> \<not> bucketMissing checked")
      case False
      then have "reconcile_cutoff r req w = None" "?swept = w2"
        using g v by (auto simp: reconcile_cutoff_def enforceRetention_def split: sum.splits)
      then show ?thesis using same w2 by simp
    next
      case True
      then obtain checked where ck: "verdict = Inr checked" "checked_retention checked \<noteq> 0" "\<not> bucketMissing checked" by blast
      obtain listed w3 where l: "C_ListClusters r (Store_Namespace ?spec) w2 = (listed, w3)"
        by (cases "C_ListClusters r (Store_Namespace ?spec) w2")
      have w3: "good w3" "objs w3 = objs w" using clusters_read [OF w2(1) l] w2(2) by simp_all
      let ?cutoff = "C_now r w3 + int64 (- checked_retention checked)"
      have t: "?t = max t ?cutoff" using g v ck l by (simp add: reconcile_cutoff_def)
      have "good ?swept \<and> keeps_answers ?cutoff (objs w) (objs ?swept)"
      proof (cases listed)
        case (Inl err)
        then have "?swept = w3" using ck l by (simp add: enforceRetention_def)
        then show ?thesis using w3 keeps_answers_refl by simp
      next
        case (Inr clusters)
        note here = swept_here [OF assms(1) g v [unfolded ck(1)] l [unfolded Inr]]
        have flat: "\<forall>x \<in> set clusters. saves_to ?spec x \<longrightarrow>
            flat_history (objs w3) (LayoutFor ?spec (checked_resolved checked) (SaveToServer (NewFromCluster x)))"
          using here archived_flat [OF assms(2)] w3(2) by auto
        show ?thesis
          using prune_clusters_keeps [OF w3(1) flat, of ?cutoff] here w3(2) ck l Inr by (simp add: enforceRetention_def)
      qed
      then show ?thesis using archived_sweep [OF assms(2)] t by simp
    qed
    then show ?thesis using patched by simp
  qed
qed

lemma run_archived: "plugin_run objs good H r L t archive c w \<Longrightarrow> good w \<and> archived L t archive (objs w)"
proof (induction rule: plugin_run.induct)
  case (start w t c)
  then show ?case using keeps_answers_refl by (simp add: archived_def)
next
  case (post t archive c w request res c' w')
  then show ?case using Post_attempts archived_capture [OF _ apart] by blast
next
  case (reconcile t archive c w req outcome w')
  then show ?case using Reconcile_archived by blast
qed auto

text \<open>So the store answers as the archive would, from the bound of the run on.\<close>

lemma run_answers:
  assumes "plugin_run objs good H r L t archive c w" "Store_Backend (sel_store S) = B" "Store_Layout (sel_store S) \<in> L"
  shows "t \<le> moment \<Longrightarrow> fst (SelectAtOrBefore S moment w) = Inr res \<longleftrightarrow>
      selected_in (sel_sha S) (Store_Layout (sel_store S)) archive moment res"
    and "fst (Latest (sel_sha S) (sel_store S) w) = Inr x \<longleftrightarrow> latest_in (sel_sha S) (Store_Layout (sel_store S)) archive x"
proof -
  have g: "good w" and a: "archived L t archive (objs w)" using run_archived [OF assms(1)] by simp_all
  then have k: "keeps_answers t archive (objs w)" "flat_history archive (Store_Layout (sel_store S))"
    using assms(3) by (auto simp: archived_def)
  show "fst (SelectAtOrBefore S moment w) = Inr res \<longleftrightarrow> selected_in (sel_sha S) (Store_Layout (sel_store S)) archive moment res"
    if "t \<le> moment"
    unfolding SelectAtOrBefore_chosen [OF g assms(2)] selected_in_def using keeps_answers_chosen [OF k that] by metis
  show "fst (Latest (sel_sha S) (sel_store S) w) = Inr x \<longleftrightarrow> latest_in (sel_sha S) (Store_Layout (sel_store S)) archive x"
    using Latest_refines [OF g assms(2), of "sel_sha S"] keeps_answers_latest [OF k] by (metis fst_conv)
qed

end

end
