(* ===== verification/Run_Properties.thy ===== *)
theory Run_Properties
  imports Plugin_Runs Controller_Properties Backend_Properties
begin

text \<open>
  Properties of whole runs of the plugin over one store: hooks, retention sweeps, restarts and
  faults in any order.
\<close>

section \<open>A service that fails\<close>

text \<open>The paged service, refusing every other write and every deletion: a store the runs may have.\<close>

definition access_denied :: s3_error where
  "access_denied = \<lparr>s3_type = None, s3_api = Some (''AccessDenied'', ''Access Denied''), s3_status = Some 403,
     s3_text = ''AccessDenied''\<rparr>"

definition flaky_client :: "memory s3_client" where
  "flaky_client = paged_client
     \<lparr>PutObject := (\<lambda>_ k d m. if even (Puts m) then (None, m\<lparr>Objects := gmap_set (Objects m) k d, Puts := Puts m + 1\<rparr>)
        else (Some access_denied, m\<lparr>Puts := Puts m + 1\<rparr>)),
      DeleteObject := (\<lambda>_ k m. (Some access_denied, m))\<rparr>"

definition flaky_backend :: "memory s3Backend" where
  "flaky_backend = paged_backend\<lparr>S3_client := flaky_client\<rparr>"

lemma flaky_service:
  "s3_unreliable flaky_client ''backups'' (S3_page_limit flaky_backend) (\<lambda>m. gmap_get (Objects m)) memory_ok"
proof -
  have same: "ListObjectsV2 flaky_client = ListObjectsV2 paged_client" "GetObject flaky_client = GetObject paged_client"
    "CreateBucket flaky_client = CreateBucket paged_client" "S3_page_limit flaky_backend = S3_page_limit paged_backend"
    by (simp_all add: flaky_client_def flaky_backend_def)
  have listing_same: "listing flaky_client bkt p token w n keys w' \<longleftrightarrow> listing paged_client bkt p token w n keys w'"
    for bkt p token w n keys w'
    using listing_cong [OF _ same(1)] listing_cong [OF _ same(1) [symmetric]] by blast
  have "s3_reads paged_client ''backups'' (S3_page_limit paged_backend) (\<lambda>m. gmap_get (Objects m)) memory_ok"
    using paged_service unfolding s3_service_def by blast
  then have "s3_reads flaky_client ''backups'' (S3_page_limit flaky_backend) (\<lambda>m. gmap_get (Objects m)) memory_ok"
    by (simp only: s3_reads_def same listing_same)
  then show ?thesis
    by (auto simp: s3_unreliable_def flaky_client_def paged_client_def access_denied_def isNotFound_def memory_ok_def
        fun_eq_iff go_map gmap_ok_set)
qed

interpretation flaky: faulty_store "s3_backend flaky_backend" "\<lambda>m. gmap_get (Objects m)"
  "\<lambda>m. memory_ok m \<and> within_bound (\<lambda>m. gmap_get (Objects m)) m" "\<lambda>d. length d \<le> maxObjectSize"
proof -
  have "S3_client flaky_backend = flaky_client" "S3_bucket flaky_backend = ''backups''"
    by (simp_all add: flaky_backend_def paged_backend_def)
  then show "faulty_store (s3_backend flaky_backend) (\<lambda>m. gmap_get (Objects m))
      (\<lambda>m. memory_ok m \<and> within_bound (\<lambda>m. gmap_get (Objects m)) m) (\<lambda>d. length d \<le> maxObjectSize)"
    using s3_unreliable_store [of flaky_backend] flaky_service by metis
qed

section \<open>The sample wired as a plugin\<close>

definition sample_retaining :: store_object where
  "sample_retaining = \<lparr>Store_Spec = sample_configstore\<lparr>Retention := ''1d''\<rparr>,
     Store_Status = \<lparr>Status_Resolved = None, Status_Conditions = []\<rparr>\<rparr>"

lemma sample_retained_check:
  "check sample_provider (Store_Spec sample_retaining) w = (verdict, w1) \<Longrightarrow> w1 = w \<and>
     (\<forall>checked. verdict = Inr checked \<longrightarrow> checked_backend checked = memory_backend
       \<and> checked_resolved checked = checked_resolved sample_checked)"
  by (auto simp: check_def sample_provider_def test_provider_def test_Resolve_def test_Backend_def sample_checked_def
      memory_backend_def Backend_Check_def Let_def split: sum.splits option.splits if_splits)

lemma check_memory_reads: "check sample_provider configStore w = (verdict, w1) \<Longrightarrow> w1 = w"
  by (auto simp: check_def sample_provider_def test_provider_def test_Resolve_def test_Backend_def
      memory_backend_def Backend_Check_def Let_def split: sum.splits option.splits if_splits)

interpretation wired: plugin_wiring memory_backend "\<lambda>b. gmap_get (Objects b)" memory_ok "\<lambda>d. True"
  sample_hooks "sample_reconciler sample_retaining" "{Store_Layout sample_archive}"
proof unfold_locales
  show "histories_apart {Store_Layout sample_archive}" by (simp add: histories_apart_def)
  have "four_digit_year sample_time" by code_simp
  then show "four_digit_year (H_now sample_hooks w)" for w by simp
  have "generation_fits (Cluster_Generation sample_saved)" by code_simp
  then show "generation_fits (Cluster_Generation cluster)" if "H_DecodeCluster sample_hooks raw = Inr cluster" for raw cluster
    using that by simp
  show "8 \<le> length (H_sha sample_hooks e) \<and> list_all is_hex (H_sha sample_hooks e)" for e
    by (simp add: flat_sha_def is_hex_def is_digit_def)
  have layout: "LayoutFor (Store_Spec sample_retaining) (checked_resolved sample_checked) (SaveToServer (NewFromCluster sample_saved))
      = Store_Layout sample_archive"
    by code_simp
  show "checked_backend checked = memory_backend \<and> (\<forall>x \<in> set listed. saves_to (Store_Spec original) x \<longrightarrow>
      LayoutFor (Store_Spec original) (checked_resolved checked) (SaveToServer (NewFromCluster x)) \<in> {Store_Layout sample_archive})"
    if "C_Get (sample_reconciler sample_retaining) req w = (Inr original, w1)"
      "check (C_Resolver (sample_reconciler sample_retaining)) (Store_Spec original) w1 = (Inr checked, w2)"
      "C_ListClusters (sample_reconciler sample_retaining) (Store_Namespace (Store_Spec original)) w2 = (Inr listed, w3)"
    for req w original w1 checked w2 listed w3
  proof -
    have "original = sample_retaining" "listed = [sample_saved]" using that(1,3) by (simp_all add: sample_reconciler_def)
    moreover from this have "checked_backend checked = memory_backend" "checked_resolved checked = checked_resolved sample_checked"
      using that(2) sample_retained_check [of w1 "Inr checked" w2] by (simp_all add: sample_reconciler_def)
    ultimately show ?thesis using layout by simp
  qed
  show "memory_ok w2 \<and> gmap_get (Objects w2) = gmap_get (Objects w1)
      \<and> (\<forall>s. res = Inr s \<longrightarrow> Store_Backend s = memory_backend \<and> Store_Layout s \<in> {Store_Layout sample_archive})"
    if "memory_ok w" "H_DecodeCluster sample_hooks raw = Inr cluster"
      "H_ConfigStore sample_hooks (SaveToKey (NewFromCluster cluster)) w = (Inr configStore, w1)"
      "Open (H_Resolver sample_hooks) configStore (SaveToServer (NewFromCluster cluster)) w1 = (res, w2)"
    for w raw cluster configStore w1 res w2
  proof -
    have "cluster = sample_saved" "configStore = sample_configstore" "w1 = w" using that(2,3) by simp_all
    moreover from this have "(Inr sample_archive, w) = (res, w2)"
      using that(4) sample_open [of w] by (simp add: sample_saved_configuration)
    moreover have "Store_Backend sample_archive = memory_backend" by (simp add: sample_archive_def)
    ultimately show ?thesis using that(1) by auto
  qed
  show "memory_ok w1 \<and> gmap_get (Objects w1) = gmap_get (Objects w)"
    if "memory_ok w" "check (C_Resolver (sample_reconciler sample_retaining)) configStore w = (verdict, w1)"
    for w configStore verdict w1
    using that check_memory_reads [of configStore w verdict w1] by (simp add: sample_reconciler_def)
qed (simp_all add: sample_reconciler_def)


section \<open>Every answer is kept\<close>

text \<open>C4. The store loses no answer: in any run of hooks, retention sweeps, restarts and failed writes or
  deletions, the latest snapshot is the one an archive of everything ever written would give, and so is
  the selection for every moment no sweep's window has passed.\<close>

theorem runs_keep_every_answer:
  assumes "plugin_wiring B objs good fits H r L" "plugin_run objs good H r L t archive c w"
    and "Store_Backend (sel_store S) = B" "Store_Layout (sel_store S) \<in> L" "t \<le> moment"
  shows "(fst (SelectAtOrBefore S moment w) = Inr res
      \<longleftrightarrow> selected_in (sel_sha S) (Store_Layout (sel_store S)) archive moment res)
    \<and> (fst (Latest (sel_sha S) (sel_store S) w) = Inr x
      \<longleftrightarrow> latest_in (sel_sha S) (Store_Layout (sel_store S)) archive x)"
  using plugin_wiring.run_answers [OF assms(1-4)] assms(5) by blast

lemma sample_retained_verdict:
  "CheckErr w = None \<Longrightarrow> check sample_provider (Store_Spec sample_retaining) w = (Inr sample_checked, w)"
proof -
  have "validateCaptureGroups (GetCaptureGroups (Store_Spec sample_retaining)) = None"
    "effectiveRetention (Store_Spec sample_retaining) (checked_resolved sample_checked) = Inr day"
    by code_simp+
  then show "CheckErr w = None \<Longrightarrow> check sample_provider (Store_Spec sample_retaining) w = (Inr sample_checked, w)"
    by (simp add: check_def sample_provider_def test_provider_def test_Resolve_def test_Backend_def sample_checked_def
        memory_backend_def Backend_Check_def Let_def)
qed

lemma sample_swept_objects:
  "Objects (enforceRetention (sample_reconciler sample_retaining) (Store_Spec sample_retaining) sample_checked (sample_memory raw))
     = [(sample_old ! 1, ''x''), (sample_newest, raw)]"
  by code_simp

lemma sample_reconciled:
  "reconcile_cutoff (sample_reconciler sample_retaining) req (sample_memory raw) = Some sample_time"
  "Objects (snd (Reconcile_store (sample_reconciler sample_retaining) req (sample_memory raw)))
     = [(sample_old ! 1, ''x''), (sample_newest, raw)]"
proof -
  let ?r = "sample_reconciler sample_retaining"
  have ck: "check sample_provider (Store_Spec sample_retaining) (sample_memory raw) = (Inr sample_checked, sample_memory raw)"
    by (rule sample_retained_verdict) (simp add: sample_memory_def NewBackend_def)
  have r: "C_Get ?r req w = (Inr sample_retaining, w)" "C_Resolver ?r = sample_provider" "C_now ?r w = sample_time + day"
    "C_ListClusters ?r ns w = (Inr [sample_saved], w)" "snd (C_PatchStatus ?r a b w) = w" for w ns a b
    by (simp_all add: sample_reconciler_def)
  show "reconcile_cutoff ?r req (sample_memory raw) = Some sample_time"
    using ck by (simp add: reconcile_cutoff_def r) (simp add: sample_checked_def day_def int64_def)
  have "snd (patchStatus ?r a b w) = w" for a b w by (simp add: patchStatus_def r)
  then have "snd (Reconcile_store ?r req (sample_memory raw)) =
      enforceRetention ?r (Store_Spec sample_retaining) sample_checked (sample_memory raw)"
    using ck by (simp add: Reconcile_store_def r Let_def split: prod.splits option.splits) (metis snd_conv)
  then show "Objects (snd (Reconcile_store ?r req (sample_memory raw))) = [(sample_old ! 1, ''x''), (sample_newest, raw)]"
    by (simp only: sample_swept_objects)
qed

text \<open>A capture of what is already the newest snapshot writes nothing.\<close>

lemma sample_captured_again:
  assumes "Latest flat_sha sample_archive w = (Inr (sample_captured, key), w')"
  shows "\<exists>res c'. Post sample_hooks request (Some []) w = (res, c', w')"
proof -
  obtain fp where fp: "liveFingerprint sample_hooks sample_saved (GetCaptureGroups sample_configstore) = Inr fp"
    using liveFingerprint_total by blast
  have "capture sample_hooks sample_saved fp sample_captured sample_archive (Some []) w
      = (Inr BEHAVIOR_CONTINUE, remember (Some []) sample_saved fp key, w')"
    using assms by (simp add: capture_def)
  then have "Post_cluster sample_hooks sample_saved (Some []) w = (Inr BEHAVIOR_CONTINUE, remember (Some []) sample_saved fp key, w')"
    using fp sample_fresh sample_capture sample_open by (simp add: Post_cluster_def sample_saved_configuration)
  then show ?thesis by (simp add: Post_def sample_hooks_def)
qed

lemma sample_reconciled_objects:
  "gmap_get (Objects (sample_memory raw))
     ++ gmap_get (Objects (snd (Reconcile_store (sample_reconciler sample_retaining) (''prod'', ''archive'') (sample_memory raw))))
   = gmap_get (Objects (sample_memory raw))"
proof -
  have "sample_old ! 0 \<noteq> sample_old ! 1" "sample_old ! 0 \<noteq> sample_newest" "sample_old ! 1 \<noteq> sample_newest"
    by code_simp+
  then show ?thesis
    unfolding sample_reconciled(2) by (auto simp: sample_memory_def gmap_get_def map_add_def fun_eq_iff)
qed


theorem runs_keep_every_answer_witness:
  "\<exists>archive c w. plugin_run (\<lambda>b. gmap_get (Objects b)) memory_ok sample_hooks (sample_reconciler sample_retaining)
       {Store_Layout sample_archive} sample_time archive c w
     \<and> archive (sample_old ! 0) \<noteq> None \<and> gmap_get (Objects w) (sample_old ! 0) = None
     \<and> fst (SelectAtOrBefore sample_selector sample_time w)
       = Inr \<lparr>Res_Snapshot = sample_captured, Res_Key = sample_newest, Res_Target = None\<rparr>
     \<and> fst (Latest flat_sha sample_archive w) = Inr (sample_captured, sample_newest)"
proof -
  let ?r = "sample_reconciler sample_retaining" and ?req = "(''prod'', ''archive'')" and ?L = "{Store_Layout sample_archive}"
  let ?run = "plugin_run (\<lambda>b. gmap_get (Objects b)) memory_ok sample_hooks ?r ?L sample_time"
  let ?res = "\<lparr>Res_Snapshot = sample_captured, Res_Key = sample_newest, Res_Target = None\<rparr>"
  obtain raw where raw: "\<And>key. decodeSnapshot flat_sha raw key = Inr sample_captured"
    using decodeSnapshot_encoded [OF sample_captured_writable] by blast
  let ?w = "sample_memory raw" and ?a = "gmap_get (Objects (sample_memory raw))"
  have sel: "sel_sha sample_selector = flat_sha" "sel_store sample_selector = sample_archive"
    "Store_Backend sample_archive = memory_backend" "Store_Layout (sel_store sample_selector) \<in> ?L"
    by (simp_all add: sample_selector_def sample_archive_def)
  note kept = runs_keep_every_answer [OF wired.plugin_wiring_axioms, where S = sample_selector and t = sample_time and
      moment = sample_time and res = ?res and x = "(sample_captured, sample_newest)", unfolded sel(1,2), OF _ sel(3) _ order_refl]
  have run: "?run ?a c ?w" for c
  proof (rule plugin_run.start)
    show "memory_ok ?w" using sample_flat(2) [of raw] by (simp add: memory_ok_def)
    have "?a = map_of (Objects ?w)" by (simp add: gmap_get_def fun_eq_iff)
    then show "finite (dom ?a)" by (simp add: finite_dom_map_of)
    show "\<forall>l \<in> ?L. flat_history ?a l" using flat_keys_history [OF sample_flat(1) [of raw]] by simp
  qed
  have answers: "selected_in flat_sha (Store_Layout sample_archive) ?a sample_time ?res"
    "latest_in flat_sha (Store_Layout sample_archive) ?a (sample_captured, sample_newest)"
    using kept [OF run] sample_selected [OF raw] by simp_all
  obtain res v where v: "Reconcile_store ?r ?req ?w = (res, v)" by (cases "Reconcile_store ?r ?req ?w")
  have swept: "?run ?a c v" for c
    using plugin_run.reconcile [OF run v] sample_reconciled(1) [of ?req raw] sample_reconciled_objects [of raw] v by simp
  have "fst (Latest flat_sha sample_archive v) = Inr (sample_captured, sample_newest)"
    using kept [OF swept] answers(2) by simp
  then obtain v' where l: "Latest flat_sha sample_archive v = (Inr (sample_captured, sample_newest), v')"
    by (cases "Latest flat_sha sample_archive v") auto
  obtain res c where p: "Post sample_hooks \<lparr>ResourceDefinition = '''', ClusterDefinition = ''''\<rparr> (Some []) v = (res, c, v')"
    using sample_captured_again [OF l] by blast
  have v': "gmap_get (Objects v') = gmap_get (Objects v)"
    using mem.Latest_reads [OF _ sel(3) l] wired.run_archived [OF swept] by blast
  have "?a ++ gmap_get (Objects v') = ?a" using v' v sample_reconciled_objects [of raw] by simp
  then have final: "?run ?a c v'" using plugin_run.post [OF swept p] by simp
  moreover have "?a (sample_old ! 0) \<noteq> None" by code_simp
  moreover have "gmap_get (Objects v') (sample_old ! 0) = None"
    using v v' sample_reconciled(2) [of ?req raw] by (simp add: gmap_get_def sample_old_def sample_newest_def)
  ultimately show ?thesis using kept [OF final] answers by blast
qed

end
