(* ===== verification/Round_Trip.thy ===== *)
theory Round_Trip
  imports Restore_Webhook Capture_Hook
begin

text \<open>
  From one Cluster to another: what the \<open>Post\<close> hook captured of a Cluster is what the webhook puts into a new
  one that restores from the same history. The lemmas lead from a field of the captured Cluster through
  the snapshot, the store, the selection and the plan to the patched manifest, for a restore without a
  policy.
\<close>

section \<open>A captured value is restorable\<close>

lemma spec_leaf_restorable:
  assumes "content_ok c" "GetSegments (Spec c) (f # r) = Some v" "terminal v"
  shows "\<lparr>Segments = ''spec'' # f # r, LeafValue = v\<rparr> \<in> set (WalkLeaves (restorableTree c))"
  using assms WalkLeaves_iff [OF restorableTree_ok [OF assms(1)]]
  by (auto simp: GetSegments_Cons restorableTree_get)

lemma captured_leaf_restored:
  assumes "Extract C sha wall (Some cluster) opts = Inr snap" "Cluster_ToMap cluster = Inr source" "obj_ok source"
    and "GetSegments (Spec (ContentOf snap)) (f # r) = Some v" "terminal v"
  shows "restored [] \<lparr>Segments = ''spec'' # f # r, LeafValue = v\<rparr>"
proof -
  let ?l = "\<lparr>Segments = ''spec'' # f # r, LeafValue = v\<rparr>"
  have ok: "obj_ok (spec_only (Spec (ContentOf snap)))" by (rule spec_only_ok [OF Extract_spec_ok [OF assms(1-3)]])
  have "?l \<in> set (WalkLeaves (spec_only (Spec (ContentOf snap))))"
    using assms(4,5) WalkLeaves_iff [OF ok] by (auto simp: spec_only_def GetSegments_Cons)
  then have "\<not> IsDeniedPath (Leaf_Path ?l)" by (rule Extract_no_denied_leaf [OF assms(1-3)])
  then show ?thesis by (simp add: restored_def denied_def isDeniedMetadataLeaf_def)
qed

text \<open>Without a policy there are no rules, and values are restored as they are.\<close>

lemma no_rules:
  assumes "CompileRules C env [] [] = Inr (skips, t)"
  shows "skips = [] \<and> restored_value C env t l = Inr (LeafValue l)"
  using assms by (auto simp: CompileRules_def NewTransformSet_def restored_value_def TransformSet_Apply_def Program_def
      gmap_get_def split: option.splits)


section \<open>What the store holds after a capture\<close>

context history_reader
begin

lemma latest_in_unique:
  assumes "good w" "latest_in sha l (objs w) x" "latest_in sha l (objs w) y"
  shows "x = y"
proof -
  let ?s = "\<lparr>Store_Backend = B, Store_Layout = l\<rparr>"
  have "Store_Backend ?s = B" by simp
  from Latest_refines [OF assms(1) this, of sha] obtain res :: "error + Snapshot \<times> string" where
    "\<forall>x. res = Inr x \<longleftrightarrow> latest_in sha (Store_Layout ?s) (objs w) x"
    by blast
  then have "res = Inr x" "res = Inr y" using assms(2,3) unfolding SnapshotStore.select_convs by blast+
  then show ?thesis by simp
qed

end

context object_store
begin

text \<open>
  After a capture the newest snapshot holds the content that was extracted, unless the one that was newest
  before has its checksum by a collision.
\<close>

lemma capture_newest_content:
  assumes "good w" "Store_Backend store = B" "writable (H_sha H) snap" "\<forall>raw. encode_snapshot snap = Inr raw \<longrightarrow> fits raw"
    and "\<forall>x key. latest_in (H_sha H) (Store_Layout store) (objs w) (x, key) \<and> Checksum_of x = Checksum_of snap \<longrightarrow>
      ContentOf x = ContentOf snap"
    and "capture H cluster fp snap store c w = (Inr b, c', w')" "latest_in (H_sha H) (Store_Layout store) (objs w') (x, key)"
  shows "ContentOf x = ContentOf snap"
proof -
  obtain latest k where l: "good w'" "latest_in (H_sha H) (Store_Layout store) (objs w') (latest, k)"
    "Checksum_of latest = Checksum_of snap"
    "objs w' = objs w \<or> (\<exists>raw. encode_snapshot snap = Inr raw \<and>
       objs w' = (objs w)(snapshot_key (Store_Layout store) snap := Some raw, LatestKey (Store_Layout store) := Some raw))"
    using capture_ensures [OF assms(1-4,6)] by blast
  have x: "x = latest" using latest_in_unique [OF l(1) assms(7) l(2)] by simp
  show ?thesis
    using l(4)
  proof
    assume "objs w' = objs w"
    then have "latest_in (H_sha H) (Store_Layout store) (objs w) (latest, k)" using l(2) by simp
    then show ?thesis using l(3) assms(5) x by blast
  next
    assume "\<exists>raw. encode_snapshot snap = Inr raw \<and>
       objs w' = (objs w)(snapshot_key (Store_Layout store) snap := Some raw, LatestKey (Store_Layout store) := Some raw)"
    then obtain raw where raw: "encode_snapshot snap = Inr raw" "objs w' (LatestKey (Store_Layout store)) = Some raw" by auto
    then have "decodeSnapshot (H_sha H) raw (LatestKey (Store_Layout store)) = Inr snap"
      using decodeSnapshot_encoded [OF assms(3)] by auto
    then show ?thesis using raw(2) l(2) x by (auto simp: latest_in_def)
  qed
qed

end

section \<open>A restore without a policy\<close>

text \<open>It compiles no rules and takes the latest snapshot of the history.\<close>

lemma restore_plain:
  assumes "restore R namespace conf manifest u = (Inr (rr, tree, patched), u')"
    and "PC_RestorePolicy conf = ''''" "Get manifest ''spec.bootstrap.recovery'' = None"
    and "R_ConfigStore R (namespace, RestoreFromStore conf) u = (Inr cs, u1)"
    and "Open (R_Resolver R) cs (RestoreFromServer conf) u1 = (Inr origin, u2)"
  obtains t resolution key where "CompileRules (R_cnpg R) (R_celenv R) [] [] = Inr ([], t)"
    "Latest (R_sha R) origin u2 = (Inr (Res_Snapshot resolution, key), u')"
    "restore_from R conf cs resolution [] t manifest (R_now R u') = Inr (rr, tree, patched)"
proof (rule restore_Inr [OF assms(1)])
  fix configStore policy skips t source resolution w1 w2
  assume s: "load R namespace conf u = (Inr (configStore, policy), w1)"
    "CompileRules (R_cnpg R) (R_celenv R) (policySkips policy) (policyTransforms policy) = Inr (skips, t)"
    "Open (R_Resolver R) configStore (RestoreFromServer conf) w1 = (Inr source, w2)"
    "select_snapshot R namespace policy manifest source w2 = (Inr resolution, u')"
    "restore_from R conf configStore resolution skips t manifest (R_now R u') = Inr (rr, tree, patched)"
  have load: "configStore = cs" "policy = None" "w1 = u1" using s(1) assms(2,4) by (auto simp: load_def)
  then have rules: "CompileRules (R_cnpg R) (R_celenv R) [] [] = Inr (skips, t)"
    using s(2) by (simp add: policySkips_def policyTransforms_def)
  have "source = origin" "w2 = u2" using s(3) load assms(5) by auto
  moreover have "ResolveMode None False = SelectLatest" by code_simp
  ultimately have "read_latest \<lparr>sel_sha = R_sha R, sel_store = origin, sel_ParseTargetTime = R_ParseTargetTime R\<rparr> None u2
      = (Inr resolution, u')"
    using s(4) load(2) assms(3) by (simp add: select_snapshot_def Select_def)
  then obtain key where "Latest (R_sha R) origin u2 = (Inr (Res_Snapshot resolution, key), u')"
    by (auto simp: read_latest_def split: prod.splits sum.splits)
  then show thesis using that rules no_rules [OF rules] s(5) load(1) by blast
qed

context object_store
begin

text \<open>The whole way: every terminal value of the captured spec is in the patched manifest.\<close>

lemma captured_spec_restored:
  assumes "good w2" "Store_Backend store = B" "writable (H_sha H) snap" "\<forall>raw. encode_snapshot snap = Inr raw \<longrightarrow> fits raw"
    and "\<forall>x key. latest_in (H_sha H) (Store_Layout store) (objs w2) (x, key) \<and> Checksum_of x = Checksum_of snap \<longrightarrow>
      ContentOf x = ContentOf snap"
    and "capture H cluster fp snap store c w2 = (Inr b, c', w')"
    and "Extract C sha wall (Some cluster) opts = Inr snap" "Cluster_ToMap cluster = Inr source" "obj_ok source"
    and "restore R namespace conf manifest u = (Inr (rr, tree, patched), u')"
    and "PC_RestorePolicy conf = ''''" "Get manifest ''spec.bootstrap.recovery'' = None"
    and "R_ConfigStore R (namespace, RestoreFromStore conf) u = (Inr cs, u1)"
    and "Open (R_Resolver R) cs (RestoreFromServer conf) u1 = (Inr origin, u2)" "good u2" "objs u2 = objs w'"
    and "Store_Backend origin = B" "Store_Layout origin = Store_Layout store" "R_sha R = H_sha H"
    and "GetSegments (Spec (ContentOf snap)) (f # r) = Some v" "terminal v"
  shows "Marshal (JObject tree) = Inr patched \<and> GetSegments tree (''spec'' # f # r) = Some v"
proof -
  obtain t resolution key where p: "CompileRules (R_cnpg R) (R_celenv R) [] [] = Inr ([], t)"
    "Latest (R_sha R) origin u2 = (Inr (Res_Snapshot resolution, key), u')"
    "restore_from R conf cs resolution [] t manifest (R_now R u') = Inr (rr, tree, patched)"
    by (rule restore_plain [OF assms(10-14)])
  have "latest_in (H_sha H) (Store_Layout store) (objs w') (Res_Snapshot resolution, key)"
    using Latest_refines [OF assms(15,17), of "H_sha H"] p(2) assms(16,18,19) by auto
  then have content: "ContentOf (Res_Snapshot resolution) = ContentOf snap"
    by (rule capture_newest_content [OF assms(1-6)])
  let ?l = "\<lparr>Segments = ''spec'' # f # r, LeafValue = v\<rparr>"
  have "content_ok (ContentOf snap)" using assms(3) by (simp add: writable_def snapshot_ok_def)
  then have leaf: "?l \<in> set (WalkLeaves (restorableTree (ContentOf (Res_Snapshot resolution))))"
    using spec_leaf_restorable assms(20,21) content by simp
  obtain raw k where d: "decodeSnapshot (R_sha R) raw k = Inr (Res_Snapshot resolution)"
    using p(2) by (auto simp: Latest_def Read_def Let_def split: sum.splits prod.splits if_splits)
  have "\<exists>v'. restored_value (R_cnpg R) (R_celenv R) t ?l = Inr v' \<and> GetSegments tree (''spec'' # f # r) = Some v'"
    using restore_from_takes_effect [OF p(3) d leaf captured_leaf_restored [OF assms(7-9,20,21)]] by simp
  moreover have "Marshal (JObject tree) = Inr patched" using restore_from_Inr [OF p(3)] annotate_stamp by metis
  ultimately show ?thesis using no_rules [OF p(1), of ?l] by simp
qed

end

end
