(* ===== verification/Round_Trip_Properties.thy ===== *)
theory Round_Trip_Properties
  imports Round_Trip Webhook_Properties
begin

text \<open>
  The purpose of the program as one property: a new Cluster that restores from another's history gets the
  configuration the other had when it was last captured.
\<close>

section \<open>From one Cluster to another\<close>

text \<open>C1. What was captured is restored: after the Post hook captured a Cluster, a manifest that restores from
  that history without a policy, and is admitted while nothing else was written, gets every value of the
  captured Cluster's spec that an enabled group claims, and every PostgreSQL parameter the operator does
  not own, as they were. The snapshot that was newest before must not collide with the capture in its
  checksum.\<close>

theorem captured_configuration_is_restored:
  assumes "object_store B objs good fits"
    and "IsSaveEnabled (NewFromCluster cluster)" "H_ConfigStore H (SaveToKey (NewFromCluster cluster)) w = (Inr cs, w1)"
    and "liveFingerprint H cluster (GetCaptureGroups cs) = Inr fp" "\<not> already_captured cluster fp (Some entries)"
    and "Extract (H_cnpg H) (H_sha H) (H_now H w1) (Some cluster)
      \<lparr>Opt_Groups = GetCaptureGroups cs, Opt_PluginVersion = H_Version H, Opt_Now = 0\<rparr> = Inr snap"
    and "Cluster_ToMap cluster = Inr source" "obj_ok source"
    and "Open (H_Resolver H) cs (SaveToServer (NewFromCluster cluster)) w1 = (Inr store, w2)"
    and "Store_Backend store = B" "good w2" "writable (H_sha H) snap" "\<forall>raw. encode_snapshot snap = Inr raw \<longrightarrow> fits raw"
    and "\<forall>x key. latest_in (H_sha H) (Store_Layout store) (objs w2) (x, key) \<and> Checksum_of x = Checksum_of snap \<longrightarrow>
      ContentOf x = ContentOf snap"
    and "Post_cluster H cluster (Some entries) w = (Inr b, c', w')"
    and "FromJSON (Req_Raw request) = Inr manifest" "pluginParameters manifest = Some parameters"
    and "conf = restore_configuration manifest parameters"
    and "PC_RestorePolicy conf = ''''" "Get manifest ''spec.bootstrap.recovery'' = None"
    and "R_ConfigStore R (request_namespace request manifest, RestoreFromStore conf) u = (Inr cs', u1)"
    and "Open (R_Resolver R) cs' (RestoreFromServer conf) u1 = (Inr origin, u2)" "good u2" "objs u2 = objs w'"
    and "Store_Backend origin = B" "Store_Layout origin = Store_Layout store" "R_sha R = H_sha H"
    and "Handle R request u = (PatchResponseFromRaw original patched, u')"
  shows "\<exists>tree. Marshal (JObject tree) = Inr patched
    \<and> (\<forall>f r v. claimed (EffectiveGroupNames (GetCaptureGroups cs)) f \<and> parallel params_path (''spec'' # f # r)
        \<and> parallel libs_path (''spec'' # f # r) \<and> GetSegments source (''spec'' # f # r) = Some v \<and> terminal v \<longrightarrow>
          GetSegments tree (''spec'' # f # r) = Some v)
    \<and> (\<forall>k v. claimed (EffectiveGroupNames (GetCaptureGroups cs)) ''postgresql'' \<and> k \<notin> set (FixedConfigurationParameters (H_cnpg H))
        \<and> GetSegments source [''spec'', ''postgresql'', ''parameters'', k] = Some v \<and> terminal v \<longrightarrow>
          GetSegments tree [''spec'', ''postgresql'', ''parameters'', k] = Some v)"
proof -
  have captured: "capture H cluster fp snap store (Some entries) w2 = (Inr b, c', w')"
    using assms(15) by (simp add: Post_cluster_def assms(2-6,9))
  obtain rr tree where run: "restore R (request_namespace request manifest) conf manifest u = (Inr (rr, tree, patched), u')"
    using Handle_patched [OF assms(28)] assms(16-18) by (metis Inr_inject option.inject)
  note trip = object_store.captured_spec_restored [OF assms(1,11,10,12,13,14) captured assms(6-8) run assms(19-27)]
  have exact: "GetSegments (Spec (ContentOf snap)) (f # r) = Some v"
    if "claimed (EffectiveGroupNames (GetCaptureGroups cs)) f" "parallel params_path (''spec'' # f # r)"
      "parallel libs_path (''spec'' # f # r)" "GetSegments source (''spec'' # f # r) = Some v" for f r v
    using Extract_exact [OF assms(6-8) that(2,3)] that(1,4) by (simp add: EffectiveGroupNames_options)
  have params: "GetSegments (Spec (ContentOf snap)) [''postgresql'', ''parameters'', k] = Some v"
    if "claimed (EffectiveGroupNames (GetCaptureGroups cs)) ''postgresql''" "k \<notin> set (FixedConfigurationParameters (H_cnpg H))"
      "GetSegments source [''spec'', ''postgresql'', ''parameters'', k] = Some v" for k v
    using Extract_parameters [OF assms(6-8), of k] that by (simp add: EffectiveGroupNames_options)
  have "Marshal (JObject tree) = Inr patched"
    using Handle_patched [OF assms(28)] restore_Inr [OF run] restore_from_Inr annotate_stamp by metis
  then show ?thesis using trip exact params by blast
qed


theorem captured_configuration_is_restored_witness:
  "\<exists>raw patched tree c' w' w''. Post_cluster sample_hooks sample_saved (Some []) NewBackend = (Inr BEHAVIOR_CONTINUE, c', w')
    \<and> FromJSON raw = Inr sample_manifest \<and> GetSegments sample_manifest [''spec'', ''instances''] = Some (JNumber ''1'')
    \<and> Handle sample_restorer \<lparr>Req_Raw = raw, Req_Namespace = ''prod''\<rparr> w' = (PatchResponseFromRaw raw patched, w'')
    \<and> Marshal (JObject tree) = Inr patched
    \<and> GetSegments tree [''spec'', ''instances''] = Some (JNumber ''3'')
    \<and> GetSegments tree [''spec'', ''postgresql'', ''parameters'', ''work_mem''] = Some (JString ''4MB'')"
proof -
  obtain c' w' where post: "Post_cluster sample_hooks sample_saved (Some []) NewBackend = (Inr BEHAVIOR_CONTINUE, c', w')"
    "memory_ok w'" "fst (Latest flat_sha sample_archive w') = Inr (sample_captured, snapshot_key (Store_Layout sample_archive) sample_captured)"
    by (rule sample_posted)
  obtain raw patched w'' where admitted: "FromJSON raw = Inr sample_manifest"
    "Handle sample_restorer \<lparr>Req_Raw = raw, Req_Namespace = ''prod''\<rparr> w' = (PatchResponseFromRaw raw patched, w'')"
    by (rule sample_admitted_at [OF post(3)])
  let ?conf = "restore_configuration sample_manifest sample_parameters"
  obtain fp where fp: "liveFingerprint sample_hooks sample_saved (GetCaptureGroups sample_configstore) = Inr fp"
    using liveFingerprint_total by blast
  have empty: "\<not> latest_in flat_sha (Store_Layout sample_archive) (gmap_get (Objects NewBackend)) x" for x
    by (simp add: latest_in_def refs_of_def NewBackend_def gmap_get_def)
  have source: "Cluster_ToMap sample_saved = Inr sample_tree" by (simp add: sample_saved_def sample_cluster_def)
  have b: "Store_Backend sample_archive = memory_backend" by (simp add: sample_archive_def)
  have reader: "R_ConfigStore sample_restorer k v = (Inr sample_configstore, v)" "R_Resolver sample_restorer = sample_provider"
    "R_sha sample_restorer = flat_sha" for k v
    by (simp_all add: sample_restorer_def)
  have saved: "claimed (EffectiveGroupNames (GetCaptureGroups sample_configstore)) ''instances''"
    "claimed (EffectiveGroupNames (GetCaptureGroups sample_configstore)) ''postgresql''"
    "parallel params_path [''spec'', ''instances'']" "parallel libs_path [''spec'', ''instances'']"
    "GetSegments sample_tree [''spec'', ''instances''] = Some (JNumber ''3'')"
    "''work_mem'' \<notin> set (FixedConfigurationParameters sample_cnpg)"
    "GetSegments sample_tree [''spec'', ''postgresql'', ''parameters'', ''work_mem''] = Some (JString ''4MB'')"
    "GetSegments sample_manifest [''spec'', ''instances''] = Some (JNumber ''1'')"
    by code_simp+
  obtain tree where tree: "Marshal (JObject tree) = Inr patched"
    "\<forall>f r v. claimed (EffectiveGroupNames (GetCaptureGroups sample_configstore)) f \<and> parallel params_path (''spec'' # f # r)
        \<and> parallel libs_path (''spec'' # f # r) \<and> GetSegments sample_tree (''spec'' # f # r) = Some v \<and> terminal v \<longrightarrow>
          GetSegments tree (''spec'' # f # r) = Some v"
    "\<forall>k v. claimed (EffectiveGroupNames (GetCaptureGroups sample_configstore)) ''postgresql'' \<and> k \<notin> set (FixedConfigurationParameters sample_cnpg)
        \<and> GetSegments sample_tree [''spec'', ''postgresql'', ''parameters'', k] = Some v \<and> terminal v \<longrightarrow>
          GetSegments tree [''spec'', ''postgresql'', ''parameters'', k] = Some v"
    using captured_configuration_is_restored [where H = sample_hooks and cluster = sample_saved and cs = sample_configstore and
        w = NewBackend and ?w1.0 = NewBackend and ?w2.0 = NewBackend and fp = fp and entries = "[]" and snap = sample_captured and
        source = sample_tree and store = sample_archive and manifest = sample_manifest and parameters = sample_parameters and
        conf = ?conf and R = sample_restorer and cs' = sample_configstore and u = w' and ?u1.0 = w' and ?u2.0 = w' and
        origin = sample_archive and request = "\<lparr>Req_Raw = raw, Req_Namespace = ''prod''\<rparr>", OF mem.object_store_axioms
        sample_saved_configuration(1) _ fp sample_fresh _ source sample_tree_ok _ b sample_memory_ok _ _ _ post(1) _ _ refl _ _ _ _
        post(2) refl b refl _ admitted(2)]
      sample_capture sample_open sample_captured_writable empty admitted(1) sample_manifest_request(1,6-8) reader
    by (auto simp: sample_saved_configuration)
  have "GetSegments tree [''spec'', ''instances''] = Some (JNumber ''3'')"
    using tree(2) [rule_format, of "''instances''" "[]" "JNumber ''3''"] saved(1,3-5) by simp
  moreover have "GetSegments tree [''spec'', ''postgresql'', ''parameters'', ''work_mem''] = Some (JString ''4MB'')"
    using tree(3) [rule_format, of "''work_mem''" "JString ''4MB''"] saved(2,6,7) by simp
  ultimately show ?thesis using post(1) admitted tree(1) saved(8) by blast
qed

end
