(* ===== verification/Spec2Isabelle.thy ===== *)
theory Spec2Isabelle
  imports Capture_Properties Store_Properties Restore_Properties Hook_Properties Webhook_Properties Controller_Properties
    Backend_Properties Transform_Properties Run_Properties Round_Trip_Properties Plugin_Process
begin

text \<open>
  Chronicle is a CloudNativePG plugin, written in Go, that records the configuration of a PostgreSQL
  Cluster in object storage and restores it into a new Cluster. This development models its logic as
  functions and proves what makes it correct. Paths are relative to \<open>src/\<close>.

  \<^bold>\<open>The program and how its parts interact.\<close> The CloudNativePG operator calls the plugin's hooks after
  each reconciliation of a Cluster (\<open>internal/cnpgi/operator\<close>). \<open>Post\<close> opens the history named by the
  Cluster's parameters (\<open>internal/store\<close>, over S3), extracts a snapshot (\<open>internal/snapshot\<close>) and writes it
  unless the newest one already has that content; a cache of settled states and a watermark in the Cluster's
  status, published by \<open>SetStatusInCluster\<close>, spare the store. An admission webhook (\<open>internal/webhook\<close>) sees
  every new Cluster: where its parameters ask for a restore it selects a snapshot, plans the edits under a
  RestorePolicy (\<open>internal/restore\<close>, with the CEL expressions of \<open>internal/restore/celenv\<close>), applies them and
  stamps the Cluster with a record; \<open>Pre\<close> refuses a Cluster that should have been stamped and is not. Two
  controllers (\<open>internal/controller\<close>) publish whether a ConfigStore is usable and a RestorePolicy valid, and
  sweep the histories of a store for its retention window.

  \<^bold>\<open>Theories.\<close> The base, for what the code uses of Go and its standard library:

  \<^item> \<open>Go_Prelude\<close>: strings as byte lists, errors with wrapping (\<open>errors.Is\<close>), \<open>int64\<close>; \<open>Go_Maps\<close>: maps as
    association lists in key order (locale \<open>go_map_laws\<close>); \<open>Go_Decimal\<close>, \<open>Go_Float\<close>: \<open>strconv\<close> on integers and
    on \<open>float64\<close>, modelled bit for bit; \<open>Go_Calendar\<close>, \<open>Go_Time\<close>: instants, the compact timestamp and RFC 3339.
  \<^item> \<open>Json_Codec\<close>: \<open>encoding/json\<close>, both directions, with the round trip (locale \<open>hereditary\<close>).

  The components, each with its operations and their lemmas:

  \<^item> \<open>Pathutil\<close> (\<open>internal/pathutil\<close>): paths into generic JSON: \<open>GetSegments\<close>, \<open>SetSegments\<close>,
    \<open>deleteSegments\<close>, \<open>walkLeaves\<close>, and how they act on each other.
  \<^item> \<open>Capture_Rules\<close> (\<open>groups.go\<close>, \<open>denylist.go\<close>, \<open>pathcheck.go\<close>), \<open>Snapshot\<close> (\<open>types.go\<close>, \<open>canonical.go\<close>,
    \<open>extract.go\<close>), \<open>Snapshot_Codec\<close>: what may be captured, \<open>Extract\<close>, the digests, the written form.
  \<^item> \<open>Layout\<close>, \<open>Snapshot_Store\<close>, \<open>Retention_Plan\<close>, \<open>S3_Backend\<close>, \<open>Resolver\<close> (\<open>internal/store\<close>): keys; \<open>Write\<close>,
    \<open>Read\<close>, \<open>List\<close> and \<open>Latest\<close> over the backend interface; \<open>PlanRetention\<close>; the S3 client code; from a
    ConfigStore to an open history, with the cached reader of barman ObjectStores.
  \<^item> \<open>Restore_Rules\<close>, \<open>Restore_Plan\<close>, \<open>Restore_Select\<close> (\<open>internal/restore\<close>), \<open>Pg_Memory\<close>, \<open>Cel_Environment\<close>
    (\<open>celenv\<close>): skip and transform rules, \<open>BuildPlan\<close> and \<open>Apply\<close>, the selection modes and recovery targets,
    the expression environment.
  \<^item> \<open>Api_Types\<close> (\<open>api/v1\<close>), \<open>Plugin_Config\<close>, \<open>Plugin_Services\<close> (\<open>metadata\<close>, \<open>config\<close>, \<open>identity\<close>): the custom
    resources and their getters, the plugin's parameters, what the plugin answers about itself.
  \<^item> \<open>Capture_Hook\<close> (\<open>reconciler.go\<close>, \<open>settled.go\<close>, \<open>status.go\<close>), \<open>Restore_Webhook\<close> (\<open>cluster_mutate.go\<close>),
    \<open>Controllers\<close> and \<open>Retention_Sweep\<close> (\<open>internal/controller\<close>): the entry points, whole handlers with every
    early return.
  \<^item> \<open>Plugin_Process\<close> (\<open>cmd.go\<close>, \<open>start.go\<close>, \<open>main.go\<close>, \<open>groupversion_info.go\<close>): flags, the assembly of the manager and
    its order, and the served RPCs over the cache they share, with the reachable states \<open>serving\<close>.
  \<^item> Across components: \<open>Plugin_Runs\<close>, runs of hooks, reconciles, restarts and faults over one store (\<open>plugin_run\<close>) against
    an archive of everything ever written; \<open>Round_Trip\<close>, from a captured Cluster to a restored one.

  The interface between the store and its clients is a chain of locales in \<open>Snapshot_Store\<close>:
  \<open>history_reader\<close> (reads and listings), \<open>pruned_store\<close> (deletions that may be refused), \<open>object_store\<close> (writes and
  deletions that go through). Selection, retention and the hooks are proved inside them; the in-memory
  backend of \<open>storetest\<close> and the S3 backend over a documented service are their interpretations. \<open>Plugin_Runs\<close>
  adds \<open>faulty_store\<close>, whose writes may fail too, which the S3 backend is over a service that fails
  (\<open>s3_unreliable_store\<close>), and \<open>plugin_wiring\<close>, what the hooks and the ConfigStore reconciler are wired to; \<open>Run_Properties\<close>
  interprets both. The interface
  between a plan and its expressions is \<open>expression_engine\<close> in \<open>Cel_Environment\<close>, interpreted on the code's
  own environment.

  \<open>Samples\<close> and \<open>Wired_Samples\<close> hold concrete inputs. The properties are in the theories named
  \<open>_Properties\<close>, each with a witness that applies it to such an input.
\<close>

text \<open>
  \<^bold>\<open>What the properties show.\<close>

  \<^item> The whole: what the hook last captured of a Cluster is what the webhook puts into one that restores from
    its history; and in every run, whatever is swept, restarted or fails, the store answers as an archive
    of everything ever written would, from the latest sweep's cutoff on.
  \<^item> Capture: a snapshot holds exactly the allowed fields, unchanged but for the settings the operator
    owns, which are left out; nothing denied enters one; the fingerprint of the labels and annotations
    converges.
  \<^item> Store: a written snapshot is read back, equal checksums are equal
    contents up to a collision of SHA-256, listings are exact, keys round-trip and sort chronologically.
    The S3 backend refines the abstract store however its listings are paged, and its listing loop ends over
    every service that advances; a configuration the reader answers with is made from an object the API
    server gave no longer ago than the time to live (\<open>logged\<close> records those answers beside the run).
  \<^item> Restore: denied and skipped values keep the manifest's, everything else captured takes effect,
    nothing else changes, every leaf is accounted for, every transform fires or may be missing, JSON types
    are kept; a point-in-time selection is, to the second of the keys, the newest snapshot not after the
    moment.
  \<^item> Expressions: scaling a memory setting is exact below \<open>2 ^ 53\<close>; rendering one rounds towards zero and
    never to zero.
  \<^item> Hooks: a capture leaves the Cluster's state newest in the store and settles the hook; the published
    watermark settles it after a restart too, names a snapshot just read from the Cluster's own history
    field by field, and a confirmed state stops the status calls from polling; in
    every state of a serving process the shared cache is there and bounded.
  \<^item> Webhook: what an admitted restore put into the Cluster, that it happens once, that \<open>Pre\<close> passes it,
    that its captures share no key with the history it is restored from, for plain server names in one
    store: the guard compares names as written, and keys ignore the slashes around them.
  \<^item> Retention: one snapshot from before the cutoff is kept; a sweep, with any of its deletions failing,
    changes no selection from the cutoff on and deletes only old snapshots of the store's own Clusters; a
    window out of range wraps to the future. Reconciling settles. A store reported Ready is opened by the
    hook from the same state, except that a missing bucket makes every capture fail.

  \<^bold>\<open>Parameters.\<close> Code that is not in the repository is an argument of the definitions that use it:
  SHA-256 (\<open>sha\<close>), CloudNativePG's tables and types (record \<open>cnpg\<close>), its parser of recovery times, the CEL library and
  \<open>resource.Quantity\<close> (\<open>cel_library\<close>), the AWS client (\<open>s3_client\<close>, \<open>aws\<close>), Kubernetes readers and writers,
  the decoders of hook and admission requests, \<open>NestedMap\<close> and \<open>NestedString\<close>, \<open>meta.SetStatusCondition\<close>, the clock.
  They act on a world of an arbitrary type that the functions thread through; what a theorem needs of one is
  a hypothesis of it, discharged in its witness by a concrete function. The result of converting a
  \<open>float64\<close> out of range to \<open>int64\<close>, which Go leaves open, is a parameter too.

  \<^bold>\<open>Bounds.\<close> JSON nests up to the 10000 levels of \<open>encoding/json\<close>; key order needs four-digit years and
  generations of ten digits; an object read is at most 4 MiB; the cache holds 1024 states. A
  listing reads as many pages as its context has time for (\<open>S3_page_limit\<close>, a number that depends on the
  world): past it the call fails as a cancelled request does, and the contract of the service says that a listing fits.
  \<open>list_loop\<close> is the same loop without a deadline, a partial function that is proved to return.
  All other recursions are structural or have termination proofs; \<open>shortest\<close> stops at 17 digits and
  \<open>leading_zeros\<close> at 400 places, more than any double has.

  \<^bold>\<open>Simplifications.\<close> Error messages are kept as their fixed text and arguments, since only the wrapped sentinels
  decide anything. A time is an instant: a snapshot written with a foreign zone offset is rendered in UTC in the record of
  a restore. \<open>describeRetention\<close> divides exactly, as the code does in floating point for windows in range.
  Logging is omitted. A Go map is always read in key order, which is what the code sorts to where order
  matters. Pointers are options and values are immutable, so \<open>DeepCopy\<close> is the identity.

  \<^bold>\<open>Not modelled.\<close> \<open>zz_generated.deepcopy.go\<close> is generated; the list types of \<open>api/v1\<close> carry no logic; the CEL
  interpreter, cobra, viper, controller-runtime and gRPC are libraries; \<open>pathutil.ToMap\<close> is reflection, and a Cluster
  carries its result (\<open>Cluster_ToMap\<close>). Calls are taken one at a time: mutexes are left out, and the concurrency of
  the operator is the order of the steps of a run.
\<close>

end
